(* ===== verification/Prelude.thy ===== *)
theory Prelude
  imports Main "HOL-Library.Word" "HOL-Library.Monad_Syntax"
begin

text \<open>
  Shared vocabulary of the development: the machine integer types of the C sources,
  the status codes, the flat byte memory with its little-endian accessors, and the
  generic lemmas on lists, options and words that the component theories use.

  The sources are built for 32-bit x86: \<open>unsigned int\<close>, \<open>unsigned long\<close>,
  \<open>size_t\<close>, \<open>userptr_t\<close> and pointers are 32 bits wide. A function that can reach
  undefined behaviour (a NULL dereference, an array access out of range, a division by
  zero) or that need not return has a result of type \<open>'a option\<close>, and \<open>None\<close>
  stands for both.
\<close>

unbundle bit_operations_syntax

type_synonym u1 = "1 word"
type_synonym u8 = "8 word"
type_synonym u16 = "16 word"
type_synonym u32 = "32 word"
type_synonym u64 = "64 word"

text \<open>Status codes. The sources only ever test a status against zero, or pass it on.\<close>

datatype errno =
    ENOMEM | EBUSY | EINVAL | ENOENT | ENODEV | EIO | ENOEXEC | ENOTSUP
  | EADDRINUSE | ECONNRESET | ETIMEDOUT | ENOTCONN | EINPROGRESS
  | EOPNOTSUPP | ECANCELED | ENOSPC | EFAIL

datatype rc = OK | Err errno

text \<open>Byte memory, indexed by address; address arithmetic wraps at 32 bits.\<close>

type_synonym mem = "u32 \<Rightarrow> u8"

text \<open>
  The memory the processor addresses, by virtual address (which is also a
  \<open>userptr_t\<close>), and the constant offset of physical from virtual addresses
  (\<open>virt_offset\<close> of \<open>arch/x86/include/librm.h\<close>). The component states extend this
  record one after the other.
\<close>

record machine =
  memory :: mem
  virt_offset :: u32

definition mem_read :: "mem \<Rightarrow> u32 \<Rightarrow> nat \<Rightarrow> u8 list" where
  "mem_read m a n = map (\<lambda>i. m (a + of_nat i)) [0..<n]"

definition mem_write :: "mem \<Rightarrow> u32 \<Rightarrow> u8 list \<Rightarrow> mem" where
  "mem_write m a bs =
     (\<lambda>x. if unat (x - a) < length bs then bs ! unat (x - a) else m x)"

definition mem_copy :: "mem \<Rightarrow> u32 \<Rightarrow> u32 \<Rightarrow> nat \<Rightarrow> mem" where
  "mem_copy m dst src n = mem_write m dst (mem_read m src n)"

text \<open>Address conversions of \<open>librm.h\<close>, \<open>uaccess.h\<close> and \<open>realmode.h\<close>.\<close>

definition user_to_phys :: "'z machine_scheme \<Rightarrow> u32 \<Rightarrow> u32" where
  "user_to_phys w p = p + virt_offset w"

definition phys_to_user :: "'z machine_scheme \<Rightarrow> u32 \<Rightarrow> u32" where
  "phys_to_user w p = p - virt_offset w"

definition virt_to_phys :: "'z machine_scheme \<Rightarrow> u32 \<Rightarrow> u32" where
  "virt_to_phys w p = user_to_phys w p"

definition real_to_user :: "'z machine_scheme \<Rightarrow> u16 \<Rightarrow> u16 \<Rightarrow> u32" where
  "real_to_user w seg off = phys_to_user w (push_bit 4 (ucast seg) + ucast off)"

text \<open>Two address ranges have no byte in common.\<close>

definition ranges_disjoint :: "u32 \<Rightarrow> nat \<Rightarrow> u32 \<Rightarrow> nat \<Rightarrow> bool" where
  "ranges_disjoint a n b k \<longleftrightarrow> (\<forall>i<n. k \<le> unat (a + of_nat i - b))"

text \<open>Little-endian integers in byte lists.\<close>

fun le_val :: "u8 list \<Rightarrow> nat" where
  "le_val [] = 0"
| "le_val (b # bs) = unat b + 256 * le_val bs"

fun le_bytes :: "nat \<Rightarrow> nat \<Rightarrow> u8 list" where
  "le_bytes 0 v = []"
| "le_bytes (Suc n) v = of_nat (v mod 256) # le_bytes n (v div 256)"

definition get8 :: "u8 list \<Rightarrow> nat \<Rightarrow> u8" where
  "get8 bs off = of_nat (le_val (take 1 (drop off bs)))"

definition get16 :: "u8 list \<Rightarrow> nat \<Rightarrow> u16" where
  "get16 bs off = of_nat (le_val (take 2 (drop off bs)))"

definition get32 :: "u8 list \<Rightarrow> nat \<Rightarrow> u32" where
  "get32 bs off = of_nat (le_val (take 4 (drop off bs)))"

definition get64 :: "u8 list \<Rightarrow> nat \<Rightarrow> u64" where
  "get64 bs off = of_nat (le_val (take 8 (drop off bs)))"

text \<open>Integer loads and stores, \<open>memset\<close>, and a memory update of a state.\<close>

definition rd8 :: "mem \<Rightarrow> u32 \<Rightarrow> u8" where
  "rd8 m a = m a"

definition rd16 :: "mem \<Rightarrow> u32 \<Rightarrow> u16" where
  "rd16 m a = get16 (mem_read m a 2) 0"

definition rd32 :: "mem \<Rightarrow> u32 \<Rightarrow> u32" where
  "rd32 m a = get32 (mem_read m a 4) 0"

definition rd64 :: "mem \<Rightarrow> u32 \<Rightarrow> u64" where
  "rd64 m a = get64 (mem_read m a 8) 0"

definition wr32 :: "u32 \<Rightarrow> u32 \<Rightarrow> mem \<Rightarrow> mem" where
  "wr32 a v m = mem_write m a (le_bytes 4 (unat v))"

definition wr64 :: "u32 \<Rightarrow> u64 \<Rightarrow> mem \<Rightarrow> mem" where
  "wr64 a v m = mem_write m a (le_bytes 8 (unat v))"

definition memset :: "u32 \<Rightarrow> u8 \<Rightarrow> nat \<Rightarrow> mem \<Rightarrow> mem" where
  "memset a b n m = mem_write m a (replicate n b)"

definition mem_upd :: "(mem \<Rightarrow> mem) \<Rightarrow> 'z machine_scheme \<Rightarrow> 'z machine_scheme" where
  "mem_upd f w = w\<lparr>memory := f (memory w)\<rparr>"

text \<open>Address ranges as sets, and memories that agree outside such a set.\<close>

definition region :: "u32 \<Rightarrow> nat \<Rightarrow> u32 set" where
  "region a n = {x. unat (x - a) < n}"

definition same_outside :: "u32 set \<Rightarrow> mem \<Rightarrow> mem \<Rightarrow> bool" where
  "same_outside R m m' \<longleftrightarrow> (\<forall>x. x \<notin> R \<longrightarrow> m' x = m x)"

text \<open>A list with the part from a position on replaced.\<close>

definition patch :: "nat \<Rightarrow> 'a list \<Rightarrow> 'a list \<Rightarrow> 'a list" where
  "patch j cs bs = take j bs @ cs @ drop (j + length cs) bs"

subsection \<open>Lemmas on memory\<close>

text \<open>Reads over writes at numeral offsets from a common base.\<close>

named_theorems mem_simps

lemma length_mem_read [simp]: "length (mem_read m a n) = n"
  by (simp add: mem_read_def)

lemma nth_mem_read [simp]: "i < n \<Longrightarrow> mem_read m a n ! i = m (a + of_nat i)"
  by (simp add: mem_read_def)

lemma mem_write_Nil [simp]: "mem_write m a [] = m"
  by (simp add: mem_write_def)

lemma unat_of_nat_u32: "i < 2 ^ 32 \<Longrightarrow> unat (of_nat i :: u32) = i"
  by (simp add: unat_of_nat take_bit_nat_eq_self)

lemma mem_write_in:
  "i < length bs \<Longrightarrow> length bs \<le> 2 ^ 32 \<Longrightarrow> mem_write m a bs (a + of_nat i) = bs ! i"
  by (simp add: mem_write_def unat_of_nat_u32)

lemma mem_read_write_same:
  assumes "length bs \<le> 2 ^ 32" "n \<le> length bs"
  shows "mem_read (mem_write m a bs) a n = take n bs"
  using assms by (intro nth_equalityI) (simp_all add: mem_write_in)

lemma mem_read_write_disjoint:
  assumes "ranges_disjoint a n b (length bs)"
  shows "mem_read (mem_write m b bs) a n = mem_read m a n"
proof (intro nth_equalityI)
  fix i assume "i < length (mem_read (mem_write m b bs) a n)"
  then have i: "i < n" by simp
  with assms have "length bs \<le> unat (a + of_nat i - b)"
    by (simp add: ranges_disjoint_def)
  then show "mem_read (mem_write m b bs) a n ! i = mem_read m a n ! i"
    using i by (simp add: mem_write_def)
qed simp

lemma length_le_bytes [simp]: "length (le_bytes n v) = n"
  by (induction n v rule: le_bytes.induct) simp_all

lemma le_val_bytes: "le_val (le_bytes n v) = v mod 256 ^ n"
proof (induction n v rule: le_bytes.induct)
  case (2 n v)
  have "unat (of_nat (v mod 256) :: u8) = v mod 256"
    by (simp add: unat_of_nat)
  with 2 show ?case
    by (simp add: mod_mult2_eq)
qed simp

lemma le_val_less: "le_val bs < 256 ^ length bs"
proof (induction bs)
  case (Cons b bs)
  have "unat b < 256" using unsigned_less [of b] by simp
  with Cons show ?case by simp
qed simp

lemma ranges_disjointI:
  assumes "unat a + n \<le> 2 ^ 32" "unat b + k \<le> 2 ^ 32"
    and "{unat a ..< unat a + n} \<inter> {unat b ..< unat b + k} = {}"
  shows "ranges_disjoint a n b k"
  unfolding ranges_disjoint_def
proof (intro allI impI)
  fix i assume i: "i < n"
  then have x: "unat (a + of_nat i) = unat a + i"
    using assms(1) by (simp add: unat_word_ariths unat_of_nat_u32)
  have "unat a + i \<notin> {unat b ..< unat b + k}" using assms(3) i by auto
  moreover have "unat (a + of_nat i - b) =
      (if unat b \<le> unat a + i then unat a + i - unat b else unat a + i + 2 ^ 32 - unat b)"
    using x by (simp add: unat_sub_if_size word_size)
  ultimately show "k \<le> unat (a + of_nat i - b)"
    using assms(2) by auto
qed

lemma ranges_disjoint_shift [simp]:
  "ranges_disjoint (e + a) n (e + b) k = ranges_disjoint a n b k"
  "ranges_disjoint e n (e + b) k = ranges_disjoint 0 n b k"
  "ranges_disjoint (e + a) n e k = ranges_disjoint a n 0 k"
  by (simp_all add: ranges_disjoint_def algebra_simps)

lemma ranges_disjoint_num [mem_simps]:
  "unat a + n \<le> unat b \<and> unat b + k \<le> 2 ^ 32 \<or> unat b + k \<le> unat a \<and> unat a + n \<le> 2 ^ 32 \<Longrightarrow>
   ranges_disjoint a n b k"
  by (rule ranges_disjointI) auto

lemma mem_read_write_sub:
  assumes "j + n \<le> length bs" "length bs \<le> 2 ^ 32"
  shows "mem_read (mem_write m a bs) (a + of_nat j) n = take n (drop j bs)"
proof (intro nth_equalityI)
  fix i assume "i < length (mem_read (mem_write m a bs) (a + of_nat j) n)"
  then have i: "i < n" by simp
  have "a + of_nat j + of_nat i = a + of_nat (j + i)" by simp
  then have "mem_write m a bs (a + of_nat j + of_nat i) = bs ! (j + i)"
    using i assms mem_write_in [of "j + i" bs m a] by (simp add: add.assoc)
  then show "mem_read (mem_write m a bs) (a + of_nat j) n ! i = take n (drop j bs) ! i"
    using i assms by simp
qed (use assms in simp)

lemma rd32_wr32_same [mem_simps]: "rd32 (wr32 a v m) a = v"
  using unsigned_less [of v, where 'a = nat]
  by (simp add: rd32_def wr32_def mem_read_write_same get32_def le_val_bytes)

lemma rd64_wr64_same [mem_simps]: "rd64 (wr64 a v m) a = v"
  using unsigned_less [of v, where 'a = nat]
  by (simp add: rd64_def wr64_def mem_read_write_same get64_def le_val_bytes)

lemma rd_write_other:
  "ranges_disjoint a 2 b (length bs) \<Longrightarrow> rd16 (mem_write m b bs) a = rd16 m a"
  "ranges_disjoint a 4 b (length bs) \<Longrightarrow> rd32 (mem_write m b bs) a = rd32 m a"
  "ranges_disjoint a 8 b (length bs) \<Longrightarrow> rd64 (mem_write m b bs) a = rd64 m a"
  by (simp_all add: rd16_def rd32_def rd64_def mem_read_write_disjoint)

lemma rd_wr_other [mem_simps]:
  "ranges_disjoint a 4 b 4 \<Longrightarrow> rd32 (wr32 b v m) a = rd32 m a"
  "ranges_disjoint a 4 b 8 \<Longrightarrow> rd32 (wr64 b x m) a = rd32 m a"
  "ranges_disjoint a 8 b 4 \<Longrightarrow> rd64 (wr32 b v m) a = rd64 m a"
  "ranges_disjoint a 8 b 8 \<Longrightarrow> rd64 (wr64 b x m) a = rd64 m a"
  by (simp_all add: wr32_def wr64_def rd_write_other)

lemma le_val_zeros [simp]: "le_val (replicate n 0) = 0"
  by (induction n) simp_all

lemma mem_read_memset:
  assumes "unat j + k \<le> n" "n \<le> 2 ^ 32"
  shows "mem_read (memset a b n m) (a + j) k = replicate k b"
  using mem_read_write_sub [of "unat j" k "replicate n b" m a] assms by (simp add: memset_def)

lemma rd_memset [mem_simps]:
  "unat j + 4 \<le> n \<Longrightarrow> n \<le> 2 ^ 32 \<Longrightarrow> rd32 (memset a 0 n m) (a + j) = 0"
  "unat j + 8 \<le> n \<Longrightarrow> n \<le> 2 ^ 32 \<Longrightarrow> rd64 (memset a 0 n m) (a + j) = 0"
  by (simp_all add: rd32_def rd64_def mem_read_memset get32_def get64_def)

lemma memory_mem_upd [simp]: "memory (mem_upd f w) = f (memory w)"
  by (simp add: mem_upd_def)

lemma virt_offset_mem_upd [simp]: "virt_offset (mem_upd f w) = virt_offset w"
  by (simp add: mem_upd_def)

lemma unat_ucast_u16 [simp]: "unat (ucast (x :: u16) :: u32) = unat x"
proof -
  have "unat x < 2 ^ 32" using unsigned_less [of x, where 'a = nat] by simp
  then show ?thesis by (simp add: unsigned_ucast_eq take_bit_nat_eq_self)
qed

lemma unat_add_no_wrap:
  fixes a b :: u32
  assumes "unat a + unat b < 2 ^ 32"
  shows "unat (a + b) = unat a + unat b"
  using assms by (simp add: unat_word_ariths)

lemma unat_sub_le:
  fixes a b :: u32
  assumes "b \<le> a"
  shows "unat (a - b) = unat a - unat b"
  using assms by (simp add: unat_sub)

lemma unat_u32_less: "unat (x :: u32) < 2 ^ 32"
  using unsigned_less [of x, where 'a = nat] by simp

lemma le_val_append: "le_val (xs @ ys) = le_val xs + 256 ^ length xs * le_val ys"
  by (induction xs) (simp_all add: algebra_simps)

lemma rd16_sub: "j + 2 \<le> length bs \<Longrightarrow> length bs \<le> 2 ^ 32 \<Longrightarrow>
    rd16 (mem_write m a bs) (a + of_nat j) = of_nat (le_val (take 2 (drop j bs)))"
  by (simp add: rd16_def mem_read_write_sub get16_def)

lemma rd32_sub: "j + 4 \<le> length bs \<Longrightarrow> length bs \<le> 2 ^ 32 \<Longrightarrow>
    rd32 (mem_write m a bs) (a + of_nat j) = of_nat (le_val (take 4 (drop j bs)))"
  by (simp add: rd32_def mem_read_write_sub get32_def)

lemma unat_u16_mod [simp]: "unat (x :: u16) mod 65536 = unat x"
  using unsigned_less [of x, where 'a = nat] by simp

lemma region_nat: "unat a + n \<le> 2 ^ 32 \<Longrightarrow> region a n = {x. unat a \<le> unat x \<and> unat x < unat a + n}"
  by (auto simp: region_def unat_sub_if_size word_size split: if_splits)

lemma same_outside_refl [simp]: "same_outside R m m"
  by (simp add: same_outside_def)

lemma same_outside_write: "length bs \<le> n \<Longrightarrow> region a n \<subseteq> R \<Longrightarrow> same_outside R m (mem_write m a bs)"
  by (auto simp: same_outside_def mem_write_def region_def subset_iff)

lemma same_outside_trans: "same_outside R m m' \<Longrightarrow> same_outside S m' m'' \<Longrightarrow> R \<union> S \<subseteq> T \<Longrightarrow> same_outside T m m''"
  unfolding same_outside_def by (metis UnCI subsetD)

lemma same_outside_mono: "same_outside R m m' \<Longrightarrow> R \<subseteq> T \<Longrightarrow> same_outside T m m'"
  by (auto simp: same_outside_def)

lemma in_region: "i < n \<Longrightarrow> n \<le> 2 ^ 32 \<Longrightarrow> a + of_nat i \<in> region a n"
  by (simp add: region_def unat_of_nat_u32)

lemma mem_read_same:
  assumes "same_outside R m m'" "region a n \<inter> R = {}" "n \<le> 2 ^ 32"
  shows "mem_read m' a n = mem_read m a n"
  using assms in_region [of _ n a]
  by (intro nth_equalityI) (auto simp: same_outside_def)

lemma region_sub: "unat j + k \<le> n \<Longrightarrow> n \<le> 2 ^ 32 \<Longrightarrow> region (e + j) k \<subseteq> region e n"
proof
  fix x assume a: "unat j + k \<le> n" "n \<le> 2 ^ 32" "x \<in> region (e + j) k"
  then have l: "unat (x - (e + j)) + unat j < n" by (simp add: region_def)
  have "unat (x - (e + j) + j) = unat (x - (e + j)) + unat j"
    using l a(2) by (intro unat_add_no_wrap) simp
  then have "unat (x - e) = unat (x - (e + j)) + unat j" by (simp add: algebra_simps)
  with l show "x \<in> region e n" by (simp add: region_def)
qed

lemma region_mono: "k \<le> n \<Longrightarrow> region e k \<subseteq> region e n"
  by (auto simp: region_def)

lemma same_outside_wr:
  "same_outside R m m' \<Longrightarrow> region a 4 \<subseteq> R \<Longrightarrow> same_outside R m (wr32 a v m')"
  "same_outside R m m' \<Longrightarrow> region a 8 \<subseteq> R \<Longrightarrow> same_outside R m (wr64 a x m')"
  "same_outside R m m' \<Longrightarrow> region a n \<subseteq> R \<Longrightarrow> same_outside R m (memset a b n m')"
  unfolding wr32_def wr64_def memset_def
  by (auto elim!: same_outside_trans intro!: same_outside_write simp: order.refl)

lemma le_bytes_val: "le_bytes (length bs) (le_val bs) = bs"
proof (induction bs)
  case (Cons b bs)
  have "unat b < 256" using unsigned_less [of b, where 'a = nat] by simp
  with Cons show ?case by simp
qed simp

lemma mem_write_idem: "length cs = length bs \<Longrightarrow> mem_write (mem_write m a bs) a cs = mem_write m a cs"
  by (auto simp: mem_write_def)

lemma mem_write_read: "n \<le> 2 ^ 32 \<Longrightarrow> mem_write m a (mem_read m a n) = m"
  by (auto simp: mem_write_def fun_eq_iff)

lemma le_bytes_rd16: "le_bytes 2 (unat (rd16 m a)) = mem_read m a 2"
proof -
  have "le_val (mem_read m a 2) < 2 ^ 16" using le_val_less [of "mem_read m a 2"] by simp
  then show ?thesis
    using le_bytes_val [of "mem_read m a 2"] by (simp add: rd16_def get16_def unat_of_nat take_bit_nat_eq_self)
qed

lemma mem_read_append: "mem_read m a (i + j) = mem_read m a i @ mem_read m (a + of_nat i) j"
  by (rule nth_equalityI) (auto simp: nth_append algebra_simps)

lemma length_patch [simp]: "j + length cs \<le> length bs \<Longrightarrow> length (patch j cs bs) = length bs"
  by (simp add: patch_def)

lemma mem_write_patch:
  assumes "j + length cs \<le> length bs" "length bs \<le> 2 ^ 32"
  shows "mem_write (mem_write m a bs) (a + of_nat j) cs = mem_write m a (patch j cs bs)"
proof (cases "cs = []")
  case False
  then have j: "j < 2 ^ 32" using assms by (cases cs) auto
  show ?thesis
  proof
    fix x
    let ?u = "unat (x - a)"
    have "unat (y - of_nat j) = (if j \<le> unat y then unat y - j else unat y + 2 ^ 32 - j)" for y :: u32
      using j by (simp add: unat_sub_if_size unat_of_nat_u32 word_size)
    from this [of "x - a"] have e: "unat (x - (a + of_nat j)) = (if j \<le> ?u then ?u - j else ?u + 2 ^ 32 - j)"
      by (simp only: diff_diff_add)
    show "mem_write (mem_write m a bs) (a + of_nat j) cs x = mem_write m a (patch j cs bs) x"
      using assms unfolding mem_write_def e by (auto simp: patch_def nth_append)
  qed
qed (simp add: patch_def)

lemma region_after:
  assumes "n \<le> unat d" "unat d + k \<le> 2 ^ 32"
  shows "region e n \<inter> region (e + d) k = {}"
proof -
  have "\<not> unat (y - d) < k" if "unat y < n" for y
    using that assms by (auto simp: unat_sub_if_size word_size split: if_splits)
  from this [of "_ - e"] show ?thesis by (auto simp: region_def diff_diff_add)
qed

lemma take_bit_u32_less: "unat (x :: u32) < 2 ^ k \<Longrightarrow> take_bit k x = x"
  by (simp add: word_unat_eq_iff unsigned_take_bit_eq take_bit_nat_eq_self)

end
