(* ===== verification/Malloc.thy ===== *)
theory Malloc
  imports Prelude
begin

text \<open>
  The heap allocator of \<open>src/src/core/malloc.c\<close>: a first-fit allocator over a list of
  free blocks in ascending address order, in which adjacent free blocks are merged.
  The free list is a list of (address, size) pairs; sizes and addresses are 32-bit words
  and the arithmetic wraps as it does in C. In the code the list entries live in the first
  bytes of the free blocks themselves; here they are kept apart in \<open>free_blocks\<close>, so
  \<open>memory\<close> describes the bytes that are not free. Assertions, debug output and the Valgrind
  annotations have no effect in the builds modelled here and are left out.
\<close>

section \<open>State and operations\<close>

type_synonym memory_block = "u32 \<times> u32"

record heap_state = machine +
  free_blocks :: "memory_block list"
  freemem :: u32
  usedmem :: u32
  maxusedmem :: u32

text \<open>
  \<open>sizeof ( struct memory_block )\<close> is 16 on a 32-bit build: the size, four bytes of
  padding over a reference count, and two list pointers.
\<close>

definition MIN_MEMBLOCK_SIZE :: u32 where
  "MIN_MEMBLOCK_SIZE = 16"


definition NOWHERE :: u32 where
  "NOWHERE = NOT 0"

text \<open>The size rounding shared by allocation and freeing.\<close>

definition actual_size :: "u32 \<Rightarrow> u32" where
  "actual_size sz = (sz + MIN_MEMBLOCK_SIZE - 1) AND NOT (MIN_MEMBLOCK_SIZE - 1)"

definition align_mask_of :: "u32 \<Rightarrow> u32" where
  "align_mask_of align = (align - 1) OR (MIN_MEMBLOCK_SIZE - 1)"

text \<open>
  Splitting a free block into a pre-block, the allocated block and a post-block; a pre-
  or post-block too small to carry its own list entry is dropped.
\<close>

definition split_block :: "u32 \<Rightarrow> u32 \<Rightarrow> u32 \<Rightarrow> u32 \<Rightarrow> memory_block list \<Rightarrow>
    memory_block list" where
  "split_block a s pre_size actual bs =
     (let post_size = s - pre_size - actual;
          block = a + pre_size;
          post = block + actual;
          rest = (if MIN_MEMBLOCK_SIZE \<le> post_size then (post, post_size) # bs else bs)
      in if pre_size < MIN_MEMBLOCK_SIZE then rest else (a, pre_size) # rest)"

text \<open>One pass over the free list for the first block with enough space after alignment.\<close>

fun alloc_search :: "u32 \<Rightarrow> u32 \<Rightarrow> u32 \<Rightarrow> u32 \<Rightarrow> memory_block list \<Rightarrow>
    (u32 \<times> memory_block list) option" where
  "alloc_search voff align_mask offset actual [] = None"
| "alloc_search voff align_mask offset actual ((a, s) # bs) =
     (let pre_size = (offset - (a + voff)) AND align_mask in
      if s < pre_size \<or> s - pre_size < actual then
        (case alloc_search voff align_mask offset actual bs of
           None \<Rightarrow> None
         | Some (ptr, bs') \<Rightarrow> Some (ptr, (a, s) # bs'))
      else Some (a + pre_size, split_block a s pre_size actual bs))"

text \<open>
  The cache discarders are a linker table filled by other parts of the system, and a
  parameter here: each returns the number of items it discarded and the new state.
\<close>

type_synonym 'z discarder = "'z heap_state_scheme \<Rightarrow> u32 \<times> 'z heap_state_scheme"

fun discard_cache :: "'z discarder list \<Rightarrow> 'z discarder" where
  "discard_cache [] h = (0, h)"
| "discard_cache (d # ds) h =
     (let (discarded, h') = d h in
      if discarded \<noteq> 0 then (discarded, h') else discard_cache ds h')"

fun discard_all_cache :: "nat \<Rightarrow> 'z discarder list \<Rightarrow> 'z heap_state_scheme \<Rightarrow>
    'z heap_state_scheme option" where
  "discard_all_cache 0 ds h = None"
| "discard_all_cache (Suc n) ds h =
     (let (discarded, h') = discard_cache ds h in
      if discarded \<noteq> 0 then discard_all_cache n ds h' else Some h')"

definition account_alloc :: "u32 \<Rightarrow> 'z heap_state_scheme \<Rightarrow> 'z heap_state_scheme" where
  "account_alloc actual h =
     (let used = usedmem h + actual in
      h\<lparr>freemem := freemem h - actual, usedmem := used,
        maxusedmem := (if maxusedmem h < used then used else maxusedmem h)\<rparr>)"

fun alloc_loop :: "nat \<Rightarrow> 'z discarder list \<Rightarrow> u32 \<Rightarrow> u32 \<Rightarrow> u32 \<Rightarrow>
    'z heap_state_scheme \<Rightarrow> (u32 \<times> 'z heap_state_scheme) option" where
  "alloc_loop 0 ds align_mask offset actual h = None"
| "alloc_loop (Suc n) ds align_mask offset actual h =
     (case alloc_search (virt_offset h) align_mask offset actual (free_blocks h) of
        Some (ptr, bs) \<Rightarrow> Some (ptr, account_alloc actual (h\<lparr>free_blocks := bs\<rparr>))
      | None \<Rightarrow>
          (let (discarded, h') = discard_cache ds h in
           if discarded = 0 then Some (0, h')
           else alloc_loop n ds align_mask offset actual h'))"

definition alloc_memblock :: "nat \<Rightarrow> 'z discarder list \<Rightarrow> u32 \<Rightarrow> u32 \<Rightarrow> u32 \<Rightarrow>
    'z heap_state_scheme \<Rightarrow> (u32 \<times> 'z heap_state_scheme) option" where
  "alloc_memblock n ds sz align offset h =
     (let actual = actual_size sz in
      if actual = 0 then Some (0, h)
      else alloc_loop n ds (align_mask_of align) offset actual h)"

text \<open>
  Insertion into the free list. The gaps are signed differences. A block directly before
  the freed one is unlinked and absorbed; the scan stops at the first block that lies
  after it, and a directly following block is absorbed. Were the scan to stop at a block
  it has just unlinked, the insertion would go next to an unlinked entry: \<open>None\<close>.
\<close>

fun free_insert :: "u32 \<Rightarrow> u32 \<Rightarrow> u32 \<Rightarrow> memory_block list \<Rightarrow> memory_block list option" where
  "free_insert freeing sz actual [] = Some [(freeing, sz)]"
| "free_insert freeing sz actual ((a, s) # bs) =
     (let gap_before = freeing - (a + s);
          gap_after = a - (freeing + sz)
      in if gap_before = 0 then
           (if 0 \<le> sint gap_after then None
            else free_insert a (s + actual) actual bs)
         else if 0 \<le> sint gap_after then
           Some (if gap_after = 0 then (freeing, sz + s) # bs
                 else (freeing, sz) # (a, s) # bs)
         else map_option ((#) (a, s)) (free_insert freeing sz actual bs))"

definition free_memblock :: "u32 \<Rightarrow> u32 \<Rightarrow> 'z heap_state_scheme \<Rightarrow>
    'z heap_state_scheme option" where
  "free_memblock ptr sz h =
     (if ptr = 0 then Some h
      else
        (let actual = actual_size sz in
         case free_insert ptr actual actual (free_blocks h) of
           None \<Rightarrow> None
         | Some bs \<Rightarrow> Some (h\<lparr>free_blocks := bs, freemem := freemem h + actual,
                               usedmem := usedmem h - actual\<rparr>)))"

text \<open>
  \<open>realloc\<close> keeps the total size of a block in the four bytes before the data it hands
  out (\<open>struct autosized_block\<close>).
\<close>

definition store_size :: "u32 \<Rightarrow> u32 \<Rightarrow> 'z heap_state_scheme \<Rightarrow> 'z heap_state_scheme" where
  "store_size block tot h =
     h\<lparr>memory := mem_write (memory h) block (le_bytes 4 (unat tot))\<rparr>"

definition load_size :: "u32 \<Rightarrow> 'z heap_state_scheme \<Rightarrow> u32" where
  "load_size block h = get32 (mem_read (memory h) block 4) 0"

definition realloc_new :: "nat \<Rightarrow> 'z discarder list \<Rightarrow> u32 \<Rightarrow> 'z heap_state_scheme \<Rightarrow>
    (u32 \<times> 'z heap_state_scheme) option" where
  "realloc_new n ds new_size h =
     (if new_size = 0 then Some (NOWHERE, h)
      else
        (let new_total_size = new_size + 4 in
         if new_total_size < new_size then Some (0, h)
         else do {
           (new_block, h) \<leftarrow> alloc_memblock n ds new_total_size 1 0 h;
           Some (if new_block = 0 then (0, h)
                 else (new_block + 4, store_size new_block new_total_size h))
         }))"

definition realloc_old :: "u32 \<Rightarrow> u32 \<Rightarrow> u32 \<Rightarrow> 'z heap_state_scheme \<Rightarrow>
    'z heap_state_scheme option" where
  "realloc_old old_ptr new_ptr new_size h =
     (if old_ptr = 0 \<or> old_ptr = NOWHERE then Some h
      else
        (let old_block = old_ptr - 4;
             old_total_size = load_size old_block h;
             old_size = old_total_size - 4;
             len = (if old_size < new_size then old_size else new_size)
         in free_memblock old_block old_total_size
              (h\<lparr>memory := mem_copy (memory h) new_ptr old_ptr (unat len)\<rparr>)))"

definition realloc :: "nat \<Rightarrow> 'z discarder list \<Rightarrow> u32 \<Rightarrow> u32 \<Rightarrow> 'z heap_state_scheme \<Rightarrow>
    (u32 \<times> 'z heap_state_scheme) option" where
  "realloc n ds old_ptr new_size h = do {
     (new_ptr, h) \<leftarrow> realloc_new n ds new_size h;
     if new_ptr = 0 then Some (0, h)
     else do {
       h \<leftarrow> realloc_old old_ptr new_ptr new_size h;
       Some (new_ptr, h)
     }
   }"

definition malloc :: "nat \<Rightarrow> 'z discarder list \<Rightarrow> u32 \<Rightarrow> 'z heap_state_scheme \<Rightarrow>
    (u32 \<times> 'z heap_state_scheme) option" where
  "malloc n ds sz h = realloc n ds 0 sz h"

definition free :: "u32 \<Rightarrow> 'z heap_state_scheme \<Rightarrow> 'z heap_state_scheme option" where
  "free ptr h = map_option snd (realloc 0 [] ptr 0 h)"

definition zalloc :: "nat \<Rightarrow> 'z discarder list \<Rightarrow> u32 \<Rightarrow> 'z heap_state_scheme \<Rightarrow>
    (u32 \<times> 'z heap_state_scheme) option" where
  "zalloc n ds sz h = do {
     (data, h) \<leftarrow> malloc n ds sz h;
     Some (data, if data = 0 then h
                 else h\<lparr>memory := mem_write (memory h) data (replicate (unat sz) 0)\<rparr>)
   }"



definition malloc_phys :: "nat \<Rightarrow> 'z discarder list \<Rightarrow> u32 \<Rightarrow> u32 \<Rightarrow> 'z heap_state_scheme \<Rightarrow>
    (u32 \<times> 'z heap_state_scheme) option" where
  "malloc_phys n ds sz phys_align h = alloc_memblock n ds sz phys_align 0 h"

definition free_phys :: "u32 \<Rightarrow> u32 \<Rightarrow> 'z heap_state_scheme \<Rightarrow> 'z heap_state_scheme option" where
  "free_phys ptr sz h = free_memblock ptr sz h"

section \<open>Well-formed free lists and the set of free bytes\<close>

text \<open>
  \<open>blocks_ok lo hi bs\<close>: the blocks lie in ascending order within \<open>[lo, hi)\<close>, none is
  smaller than \<open>MIN_MEMBLOCK_SIZE\<close>, none wraps, and there is a gap between any two, so
  adjacent blocks have been merged. This is what \<open>check_blocks\<close> asserts.
\<close>

fun blocks_ok :: "nat \<Rightarrow> nat \<Rightarrow> memory_block list \<Rightarrow> bool" where
  "blocks_ok lo hi [] = True"
| "blocks_ok lo hi ((a, s) # bs) =
     (lo \<le> unat a \<and> 16 \<le> unat s \<and> unat a + unat s \<le> hi \<and>
      blocks_ok (Suc (unat a + unat s)) hi bs)"

definition span :: "u32 \<Rightarrow> u32 \<Rightarrow> nat set" where
  "span a s = {unat a ..< unat a + unat s}"

fun free_set :: "memory_block list \<Rightarrow> nat set" where
  "free_set [] = {}"
| "free_set ((a, s) # bs) = span a s \<union> free_set bs"

text \<open>
  The region the heap manages is shorter than \<open>2 ^ 31\<close> bytes, so that signed differences
  of addresses in it are exact, and does not contain the null address.
\<close>

definition region_ok :: "nat \<Rightarrow> nat \<Rightarrow> bool" where
  "region_ok lo hi \<longleftrightarrow> 0 < lo \<and> hi < 2 ^ 32 \<and> hi < lo + 2 ^ 31"

definition heap_ok :: "nat \<Rightarrow> nat \<Rightarrow> 'z heap_state_scheme \<Rightarrow> bool" where
  "heap_ok lo hi h \<longleftrightarrow> region_ok lo hi \<and> blocks_ok lo hi (free_blocks h)"

text \<open>Every block starts at a physical address and has a size that are multiples of 16.\<close>

definition blocks_aligned :: "u32 \<Rightarrow> memory_block list \<Rightarrow> bool" where
  "blocks_aligned voff bs \<longleftrightarrow> (\<forall>(a, s) \<in> set bs. take_bit 4 (a + voff) = 0 \<and> take_bit 4 s = 0)"

text \<open>A block handed out by \<open>realloc\<close>: its header holds the total size, and it is not free.\<close>

definition allocated :: "u32 \<Rightarrow> nat \<Rightarrow> nat \<Rightarrow> u32 \<Rightarrow> u32 \<Rightarrow> 'z heap_state_scheme \<Rightarrow> bool" where
  "allocated voff lo hi ptr sz h \<longleftrightarrow>
     (let block = ptr - 4; actual = actual_size (sz + 4) in
      ptr \<noteq> 0 \<and> ptr \<noteq> NOWHERE \<and> sz \<noteq> 0 \<and> load_size block h = sz + 4 \<and> sz < sz + 4 \<and>
      lo \<le> unat block \<and> unat block + unat actual \<le> hi \<and> take_bit 4 (block + voff) = 0 \<and>
      actual \<noteq> 0 \<and> span block actual \<inter> free_set (free_blocks h) = {})"

text \<open>Concrete heaps for the witnesses.\<close>

definition example_heap :: heap_state where
  "example_heap = \<lparr>memory = (\<lambda>_. 0), virt_offset = 0x800, free_blocks = [(0x1000, 0x4000)],
     freemem = 0x4000, usedmem = 0, maxusedmem = 0\<rparr>"

definition example_allocated :: heap_state where
  "example_allocated = store_size 0x5000 0x24 example_heap"

section \<open>Lemmas\<close>

lemma blocks_ok_mono: "blocks_ok lo hi bs \<Longrightarrow> lo' \<le> lo \<Longrightarrow> blocks_ok lo' hi bs"
  by (cases bs) auto

lemma free_set_bounds: "blocks_ok lo hi bs \<Longrightarrow> x \<in> free_set bs \<Longrightarrow> lo \<le> x \<and> x < hi"
proof (induction bs arbitrary: lo rule: free_set.induct)
  case (2 a s bs)
  then show ?case by (fastforce simp: span_def)
qed simp

lemma alloc_split:
  fixes a s pre actual :: u32
  assumes "pre \<le> s" "actual \<le> s - pre" "unat a + unat s < 2 ^ 32"
  shows "unat (s - pre - actual) = unat s - unat pre - unat actual"
    and "unat pre + unat actual \<le> unat s"
    and "unat (a + pre) = unat a + unat pre"
    and "unat (a + pre + actual) = unat a + unat pre + unat actual"
proof -
  have 1: "unat (s - pre) = unat s - unat pre"
    using assms(1) by (rule unat_sub_le)
  have 2: "unat actual \<le> unat s - unat pre"
    using assms(2) 1 by (simp add: word_le_nat_alt)
  have 3: "unat pre \<le> unat s"
    using assms(1) by (simp add: word_le_nat_alt)
  show "unat (s - pre - actual) = unat s - unat pre - unat actual"
    using unat_sub_le [OF assms(2)] 1 by simp
  show sum: "unat pre + unat actual \<le> unat s"
    using 2 3 by simp
  show 4: "unat (a + pre) = unat a + unat pre"
    using assms(3) 3 by (intro unat_add_no_wrap) simp
  show "unat (a + pre + actual) = unat a + unat pre + unat actual"
    using assms(3) sum 4 by (subst unat_add_no_wrap) simp_all
qed

lemma unat_MIN [simp]: "unat MIN_MEMBLOCK_SIZE = 16"
  by (simp add: MIN_MEMBLOCK_SIZE_def)

text \<open>What the split of a block does to a well-formed free list that starts with it.\<close>

lemma split_block_ok:
  assumes ok: "blocks_ok lo hi ((a, s) # bs)" "hi < 2 ^ 32"
    and le: "pre \<le> s" "actual \<le> s - pre" and pos: "0 < actual"
  defines "bs' \<equiv> split_block a s pre actual bs" and "p \<equiv> a + pre"
  shows "blocks_ok lo hi bs'" and "span p actual \<subseteq> span a s"
    and "free_set bs' \<subseteq> span a s \<union> free_set bs" and "span p actual \<inter> free_set bs' = {}"
    and "unat p = unat a + unat pre" and "unat p + unat actual \<le> unat a + unat s"
proof -
  define rest where "rest = (if MIN_MEMBLOCK_SIZE \<le> s - pre - actual
      then (a + pre + actual, s - pre - actual) # bs else bs)"
  have bs': "bs' = (if pre < MIN_MEMBLOCK_SIZE then rest else (a, pre) # rest)"
    by (simp add: bs'_def split_block_def rest_def Let_def)
  from ok have nw: "unat a + unat s < 2 ^ 32" by simp
  note u = alloc_split [OF le nw]
  have act: "0 < unat actual" using pos by (simp add: word_less_nat_alt)
  from ok(1) have tail: "blocks_ok (Suc (unat a + unat s)) hi bs" by simp
  have rest_ok: "blocks_ok (unat a + unat pre + unat actual) hi rest"
    using ok u tail by (auto simp: rest_def word_le_nat_alt intro: blocks_ok_mono)
  have rest_set: "free_set rest \<subseteq> {unat a + unat pre + unat actual ..< unat a + unat s} \<union> free_set bs"
    using u by (auto simp: rest_def span_def)
  have bnd: "\<And>x. x \<in> free_set bs \<Longrightarrow> unat a + unat s < x"
    using free_set_bounds [OF tail] by force
  show "unat p = unat a + unat pre" "unat p + unat actual \<le> unat a + unat s"
    using u by (simp_all add: p_def)
  show "span p actual \<subseteq> span a s" using u by (auto simp: span_def p_def)
  have "free_set bs' \<subseteq> span a pre \<union> free_set rest" by (auto simp: bs')
  then show "free_set bs' \<subseteq> span a s \<union> free_set bs"
    and "span p actual \<inter> free_set bs' = {}"
    using rest_set u bnd by (fastforce simp: span_def p_def)+
  show "blocks_ok lo hi bs'"
    using ok rest_ok u act by (auto simp: bs' word_less_nat_alt intro: blocks_ok_mono)
qed

text \<open>What one pass of the search does to a well-formed free list.\<close>

lemma alloc_search_ok:
  assumes "blocks_ok lo hi bs" "hi < 2 ^ 32" "0 < actual"
    and "alloc_search voff am off actual bs = Some (p, bs')"
  shows "blocks_ok lo hi bs' \<and> span p actual \<subseteq> free_set bs \<and> free_set bs' \<subseteq> free_set bs \<and>
         span p actual \<inter> free_set bs' = {} \<and> lo \<le> unat p \<and> unat p + unat actual \<le> hi"
  using assms
proof (induction bs arbitrary: lo bs' rule: free_set.induct)
  case (2 a s bs)
  define pre where "pre = (off - (a + voff)) AND am"
  show ?case
  proof (cases "s < pre \<or> s - pre < actual")
    case True
    with "2.prems" obtain bs'' where r: "alloc_search voff am off actual bs = Some (p, bs'')"
        and bs': "bs' = (a, s) # bs''"
      by (auto simp: pre_def [symmetric] Let_def split: option.splits)
    note ih = "2.IH" [OF _ "2.prems"(2,3) r, of "Suc (unat a + unat s)"]
    with "2.prems"(1) have "span p actual \<inter> span a s = {}"
      by (auto simp: span_def)
    with ih "2.prems"(1) bs' show ?thesis by auto
  next
    case False
    then have le: "pre \<le> s" "actual \<le> s - pre" by auto
    from False "2.prems" have "p = a + pre" "bs' = split_block a s pre actual bs"
      by (auto simp: pre_def [symmetric] Let_def)
    with split_block_ok [OF "2.prems"(1,2) le "2.prems"(3)] "2.prems"(1) show ?thesis by auto
  qed
qed simp

lemma sint_nonneg_iff: "0 \<le> sint (w :: u32) \<longleftrightarrow> unat w < 2 ^ 31"
proof -
  define k where "k = uint w"
  have b: "k < 2 * 2 ^ 31" "0 \<le> k" using uint_lt2p [of w] by (simp_all add: k_def)
  have "k div 2 ^ 31 = (if k < 2 ^ 31 then 0 else 1)"
    using b by (auto simp: zdiv_eq_0_iff int_div_pos_eq [of k "2 ^ 31" 1 "k - 2 ^ 31"])
  then have "bit k 31 \<longleftrightarrow> \<not> k < 2 ^ 31"
    by (simp add: bit_iff_odd)
  moreover have "sint w = signed_take_bit 31 k"
    by (simp add: sint_uint k_def)
  moreover have "k < 2147483648 \<longleftrightarrow> unat w < 2147483648"
    using uint_nat [of w] unfolding k_def by linarith
  ultimately show ?thesis by simp
qed

lemma sint_diff_nonneg:
  fixes x y :: u32
  assumes "unat x < unat y + 2 ^ 31" "unat y \<le> unat x + 2 ^ 31"
  shows "0 \<le> sint (x - y) \<longleftrightarrow> unat y \<le> unat x"
proof -
  have "unat (x - y) = (if unat y \<le> unat x then unat x - unat y else unat x + 2 ^ 32 - unat y)"
    by (simp add: unat_sub_if_size word_size)
  with assms unat_u32_less [of y] show ?thesis
    by (auto simp add: sint_nonneg_iff)
qed

lemma diff_eq_0_unat: "(x :: u32) - y = 0 \<longleftrightarrow> unat x = unat y"
  by (auto simp add: unsigned_word_eqI)

lemma free_insert_after:
  assumes "region_ok lo hi" "lo \<le> unat f" "unat f + unat fs \<le> hi"
    and "blocks_ok (unat f + unat fs) hi bs" "16 \<le> unat fs"
  shows "\<exists>bs'. free_insert f fs actual bs = Some bs' \<and> blocks_ok (unat f) hi bs' \<and>
     free_set bs' = span f fs \<union> free_set bs"
proof (cases bs)
  case Nil
  with assms show ?thesis by simp
next
  case (Cons b bs1)
  obtain a s where b: "b = (a, s)" by force
  from assms(4) have ok: "unat f + unat fs \<le> unat a" "16 \<le> unat s" "unat a + unat s \<le> hi"
      "blocks_ok (Suc (unat a + unat s)) hi bs1"
    by (auto simp: Cons b)
  have u: "unat (f + fs) = unat f + unat fs" "unat (a + s) = unat a + unat s"
    using assms(1,3) ok(3) by (auto simp: region_ok_def intro: unat_add_no_wrap)
  have nz: "f - (a + s) \<noteq> 0"
    using u ok assms(5) by (simp only: diff_eq_0_unat)
  have ge: "0 \<le> sint (a - (f + fs))"
    using u ok assms(1,2) by (subst sint_diff_nonneg) (auto simp: region_ok_def)
  have z: "a - (f + fs) = 0 \<longleftrightarrow> unat a = unat f + unat fs"
    by (simp only: diff_eq_0_unat u)
  show ?thesis
  proof (cases "unat a = unat f + unat fs")
    case True
    then have "unat (fs + s) = unat fs + unat s"
      using ok(3) assms(1,2) by (intro unat_add_no_wrap) (auto simp: region_ok_def)
    with True nz ge z ok assms show ?thesis
      by (auto simp: Cons b span_def add.assoc)
  next
    case False
    with nz ge z ok assms show ?thesis by (auto simp: Cons b)
  qed
qed

lemma blocks_ok_skip:
  assumes "blocks_ok lo hi bs" "span f fs \<inter> free_set bs = {}" "unat f \<le> lo"
  shows "blocks_ok (unat f + unat fs) hi bs"
proof (cases bs)
  case (Cons b bs1)
  obtain a s where b: "b = (a, s)" by force
  have "unat a \<in> span a s" using assms(1) by (auto simp: Cons b span_def)
  with assms(2) have "unat a \<notin> span f fs" by (auto simp: Cons b)
  with assms show ?thesis by (auto simp: Cons b span_def)
qed simp

text \<open>Freeing a block that overlaps no free block.\<close>

lemma free_insert_ok:
  assumes "region_ok l0 hi" "l0 \<le> lo" "blocks_ok lo hi bs"
    and "lo \<le> unat f" "unat f + unat fs \<le> hi" "16 \<le> unat fs"
    and "span f fs \<inter> free_set bs = {}"
  shows "\<exists>bs'. free_insert f fs fs bs = Some bs' \<and> blocks_ok lo hi bs' \<and>
     free_set bs' = span f fs \<union> free_set bs"
  using assms
proof (induction bs arbitrary: lo rule: free_set.induct)
  case 1
  then show ?case by simp
next
  case (2 a s bs)
  from "2.prems"(3) have ok: "lo \<le> unat a" "16 \<le> unat s" "unat a + unat s \<le> hi"
      "blocks_ok (Suc (unat a + unat s)) hi bs"
    by auto
  have reg: "hi < 2 ^ 32" "hi < l0 + 2 ^ 31" "0 < l0" using "2.prems"(1) by (auto simp: region_ok_def)
  have u: "unat (f + fs) = unat f + unat fs" "unat (a + s) = unat a + unat s"
    using reg "2.prems"(5) ok(3) by (auto intro: unat_add_no_wrap)
  have gap0: "f - (a + s) = 0 \<longleftrightarrow> unat f = unat a + unat s"
    by (simp only: diff_eq_0_unat u)
  have gap: "0 \<le> sint (a - (f + fs)) \<longleftrightarrow> unat f + unat fs \<le> unat a"
    using u ok reg "2.prems" by (subst sint_diff_nonneg) auto
  have disj: "unat f + unat fs \<le> unat a \<or> unat a + unat s \<le> unat f"
  proof (rule ccontr)
    assume "\<not> ?thesis"
    with ok(2) "2.prems"(6) have "max (unat a) (unat f) \<in> span f fs \<inter> span a s"
      by (auto simp: span_def)
    with "2.prems"(7) show False by auto
  qed
  consider (before) "unat f + unat fs \<le> unat a" | (touch) "unat f = unat a + unat s"
    | (beyond) "unat a + unat s < unat f" using disj by linarith
  then show ?case
  proof cases
    case before
    then have "blocks_ok (unat f + unat fs) hi ((a, s) # bs)" using ok by simp
    from free_insert_after [OF "2.prems"(1) _ "2.prems"(5) this "2.prems"(6), of fs] "2.prems"(2,4)
    show ?thesis by (fastforce intro: blocks_ok_mono)
  next
    case touch
    have us: "unat (s + fs) = unat s + unat fs"
      using touch reg "2.prems"(5) by (intro unat_add_no_wrap) linarith
    have sp: "span a (s + fs) = span a s \<union> span f fs"
      using us touch by (auto simp: span_def)
    have "blocks_ok (unat a + unat (s + fs)) hi bs"
      using blocks_ok_skip [OF ok(4), of f fs] "2.prems"(7) touch us by (auto simp: add.assoc)
    from free_insert_after [OF "2.prems"(1) _ _ this, of fs] ok us "2.prems" touch
    show ?thesis using gap gap0 sp by (fastforce intro: blocks_ok_mono)
  next
    case beyond
    with "2.IH" [OF "2.prems"(1) _ ok(4)] "2.prems" ok gap gap0 show ?thesis
      by fastforce
  qed
qed

text \<open>A merged, ordered free list is determined by the set of bytes it covers.\<close>

lemma blocks_ok_unique:
  assumes "blocks_ok lo hi bs" "blocks_ok lo hi cs" "free_set bs = free_set cs"
  shows "bs = cs"
  using assms
proof (induction bs arbitrary: lo cs rule: free_set.induct)
  case 1
  then show ?case by (cases cs rule: free_set.cases) (auto simp: span_def)
next
  case (2 a s bs)
  then obtain b t cs' where cs: "cs = (b, t) # cs'"
    by (cases cs rule: free_set.cases) (auto simp: span_def)
  have pos: "16 \<le> unat s" "16 \<le> unat t" using "2.prems" cs by auto
  have bs_b: "\<And>x. x \<in> free_set bs \<Longrightarrow> unat a + unat s < x"
    and cs_b: "\<And>x. x \<in> free_set cs' \<Longrightarrow> unat b + unat t < x"
    using free_set_bounds "2.prems" cs by fastforce+
  have mem: "\<And>x. x \<in> span a s \<union> free_set bs \<longleftrightarrow> x \<in> span b t \<union> free_set cs'"
    using "2.prems"(3) cs by auto
  have ab: "unat a = unat b"
  proof (rule antisym)
    have "unat b \<in> span a s \<union> free_set bs" unfolding mem using pos by (simp add: span_def)
    then show "unat a \<le> unat b" using bs_b by (fastforce simp: span_def)
    have "unat a \<in> span b t \<union> free_set cs'" unfolding mem [symmetric] using pos by (simp add: span_def)
    then show "unat b \<le> unat a" using cs_b by (fastforce simp: span_def)
  qed
  have st: "unat s = unat t"
  proof (rule antisym)
    have "unat a + unat s \<notin> span a s \<union> free_set bs" using bs_b by (auto simp: span_def)
    then have "unat a + unat s \<notin> span b t" unfolding mem by auto
    then show "unat t \<le> unat s" using ab by (auto simp: span_def)
    have "unat b + unat t \<notin> span b t \<union> free_set cs'" using cs_b by (auto simp: span_def)
    then have "unat b + unat t \<notin> span a s" unfolding mem [symmetric] by auto
    then show "unat s \<le> unat t" using ab by (auto simp: span_def)
  qed
  have same: "a = b" "s = t" using ab st by (auto intro: unsigned_word_eqI)
  have "free_set bs = free_set cs'"
  proof (intro set_eqI)
    fix x show "x \<in> free_set bs \<longleftrightarrow> x \<in> free_set cs'"
      using mem [of x] bs_b [of x] cs_b [of x] same by (auto simp: span_def)
  qed
  with "2.IH" [of "Suc (unat a + unat s)" cs'] "2.prems" cs same show ?case by auto
qed

lemma unat_take_bit_u32: "unat (take_bit n (x :: u32)) = unat x mod 2 ^ n"
  unfolding unsigned_take_bit_eq by (simp only: take_bit_eq_mod)

lemma and_not_mask: "(x :: u32) AND NOT (mask n) = push_bit n (drop_bit n x)"
  by (rule bit_eqI) (auto simp: bit_simps)

lemma unat_and_not_mask: "unat ((x :: u32) AND NOT (mask n)) = unat x - unat x mod 2 ^ n"
proof -
  have "take_bit n x \<le> x"
    by (simp add: word_le_nat_alt unat_take_bit_u32)
  moreover have "push_bit n (drop_bit n x) = x - take_bit n x"
    using bits_ident [of n x] by (simp add: algebra_simps)
  ultimately show ?thesis
    by (simp add: and_not_mask unat_sub unat_take_bit_u32)
qed

lemma mask_4_u32: "(15 :: u32) = mask 4"
  by (simp add: mask_eq_exp_minus_1)

lemma actual_size_nat:
  "unat (actual_size sz) = (if unat sz + 15 < 2 ^ 32 then 16 * ((unat sz + 15) div 16) else 0)"
proof -
  have "actual_size sz = (sz + 15) AND NOT (mask 4)"
    by (simp add: actual_size_def MIN_MEMBLOCK_SIZE_def add.commute mask_eq_exp_minus_1)
  then have "unat (actual_size sz) = unat (sz + 15) - unat (sz + 15) mod 16"
    by (simp add: unat_and_not_mask)
  moreover have "unat (sz + 15) = (if unat sz + 15 < 2 ^ 32 then unat sz + 15 else unat sz + 15 - 2 ^ 32)"
    by (simp add: unat_plus_if_size word_size)
  ultimately show ?thesis using unat_u32_less [of sz]
    by (auto simp: minus_mod_eq_mult_div)
qed

lemma align_mask_of_pow2:
  assumes "k < 32"
  shows "align_mask_of (2 ^ k) = mask (max k 4)"
proof -
  have "align_mask_of (2 ^ k) = mask k OR mask 4"
    by (simp add: align_mask_of_def MIN_MEMBLOCK_SIZE_def mask_eq_exp_minus_1)
  also have "\<dots> = mask (max k 4)"
    by (rule bit_eqI) (auto simp: bit_simps)
  finally show ?thesis .
qed

lemma take_bit_minus_self: "take_bit k (take_bit k x - x) = (0 :: u32)"
proof -
  have "take_bit k x - x = - (push_bit k (drop_bit k x))"
    using bits_ident [of k x] by (simp add: algebra_simps)
  then show ?thesis by (simp add: take_bit_eq_0_iff push_bit_eq_mult)
qed

lemma alloc_search_aligned:
  assumes "alloc_search voff (mask k) off actual bs = Some (p, bs')"
  shows "take_bit k (p + voff - off) = 0"
  using assms
proof (induction bs arbitrary: bs' rule: free_set.induct)
  case (2 a s bs)
  define x where "x = off - (a + voff)"
  have e: "a + y + voff - off = y - x" for y by (simp add: x_def)
  from 2 show ?case
    by (auto simp: Let_def x_def [symmetric] e take_bit_minus_self
         simp flip: take_bit_eq_mask split: option.splits if_splits)
qed simp

lemma blocks_aligned_simps [simp]:
  "blocks_aligned voff []"
  "blocks_aligned voff ((a, s) # bs) \<longleftrightarrow>
     take_bit 4 (a + voff) = 0 \<and> take_bit 4 s = 0 \<and> blocks_aligned voff bs"
  by (auto simp: blocks_aligned_def)

lemma take_bit_4_dvd: "take_bit 4 (x :: u32) = 0 \<longleftrightarrow> 16 dvd x"
  by (simp add: take_bit_eq_0_iff)

lemma take_bit_weaken: "take_bit n (x :: u32) = 0 \<Longrightarrow> m \<le> n \<Longrightarrow> take_bit m x = 0"
  by (metis min.absorb1 take_bit_of_0 take_bit_take_bit)

lemma take_bit_4_small: "take_bit 4 (x :: u32) = 0 \<Longrightarrow> x < 16 \<Longrightarrow> x = 0"
proof -
  assume "take_bit 4 x = 0" "x < 16"
  then have "unat x mod 16 = 0" "unat x < 16"
    using unat_take_bit_u32 [of 4 x] by (simp_all add: word_less_nat_alt)
  then show "x = 0" by (simp add: unat_eq_zero)
qed

lemma take_bit_4_actual: "take_bit 4 (actual_size sz) = 0"
proof -
  have "unat (actual_size sz) mod 16 = 0" by (simp add: actual_size_nat)
  then have "unat (take_bit 4 (actual_size sz)) = 0" by (simp add: unat_take_bit_u32)
  then show ?thesis by (simp add: unat_eq_zero)
qed

text \<open>With aligned blocks nothing is dropped: the split conserves every free byte.\<close>

lemma split_block_conserves:
  assumes "unat a + unat s < 2 ^ 32" "pre \<le> s" "actual \<le> s - pre"
    and "take_bit 4 (a + voff) = 0" "take_bit 4 s = 0" "take_bit 4 pre = 0" "take_bit 4 actual = 0"
    and "blocks_aligned voff bs"
  shows "free_set (split_block a s pre actual bs) \<union> span (a + pre) actual = span a s \<union> free_set bs"
    and "blocks_aligned voff (split_block a s pre actual bs)"
proof -
  define post where "post = s - pre - actual"
  note u = alloc_split [OF assms(2,3,1)]
  have d: "16 dvd a + voff" "16 dvd s" "16 dvd pre" "16 dvd actual"
    using assms(4-7) by (simp_all add: take_bit_4_dvd)
  then have post16: "take_bit 4 post = 0"
    by (simp add: take_bit_4_dvd post_def)
  have "16 dvd (a + voff) + (pre + actual)" using d by (intro dvd_add d)
  then have at: "take_bit 4 (a + pre + actual + voff) = 0"
    by (simp add: take_bit_4_dvd algebra_simps)
  have pre0: "pre < MIN_MEMBLOCK_SIZE \<Longrightarrow> pre = 0"
    using take_bit_4_small [OF assms(6)] by (simp add: MIN_MEMBLOCK_SIZE_def)
  have post0: "\<not> MIN_MEMBLOCK_SIZE \<le> post \<Longrightarrow> post = 0"
    using take_bit_4_small [OF post16] by (simp add: MIN_MEMBLOCK_SIZE_def)
  have "span a s = span a pre \<union> span (a + pre) actual \<union> span (a + pre + actual) post"
    using u by (auto simp: span_def post_def)
  then show "free_set (split_block a s pre actual bs) \<union> span (a + pre) actual = span a s \<union> free_set bs"
    using pre0 post0
    by (auto simp: split_block_def Let_def post_def [symmetric] span_def)
  show "blocks_aligned voff (split_block a s pre actual bs)"
    using assms(4,6,8) post16 at
    by (auto simp: split_block_def Let_def post_def [symmetric])
qed

lemma alloc_search_conserves:
  assumes "blocks_ok lo hi bs" "hi < 2 ^ 32" "blocks_aligned voff bs" "4 \<le> k"
    and "take_bit 4 actual = 0"
    and "alloc_search voff (mask k) 0 actual bs = Some (p, bs')"
  shows "free_set bs' \<union> span p actual = free_set bs \<and> blocks_aligned voff bs'"
  using assms
proof (induction bs arbitrary: lo bs' rule: free_set.induct)
  case (2 a s bs)
  define pre where "pre = take_bit k (- (a + voff))"
  have al: "take_bit 4 (a + voff) = 0" "take_bit 4 s = 0" "blocks_aligned voff bs"
    using "2.prems"(3) by auto
  have pre4: "take_bit 4 pre = 0"
  proof -
    have "16 dvd - (a + voff)" using al(1) by (simp only: take_bit_4_dvd dvd_minus_iff)
    then show ?thesis using \<open>4 \<le> k\<close> by (simp add: pre_def min_def) (simp add: take_bit_4_dvd)
  qed
  from "2.prems" have step: "alloc_search voff (mask k) 0 actual ((a, s) # bs) =
      (if s < pre \<or> s - pre < actual then
         map_option (\<lambda>(q, cs). (q, (a, s) # cs)) (alloc_search voff (mask k) 0 actual bs)
       else Some (a + pre, split_block a s pre actual bs))"
    by (auto simp: Let_def pre_def simp flip: take_bit_eq_mask split: option.splits)
  show ?case
  proof (cases "s < pre \<or> s - pre < actual")
    case True
    with "2.prems"(6) [unfolded step] obtain cs where
        "alloc_search voff (mask k) 0 actual bs = Some (p, cs)" "bs' = (a, s) # cs" by auto
    with "2.IH" [of "Suc (unat a + unat s)" cs] "2.prems" al show ?thesis
      by auto
  next
    case False
    with "2.prems"(6) [unfolded step] have "p = a + pre" "bs' = split_block a s pre actual bs"
      by auto
    moreover from False have "pre \<le> s" "actual \<le> s - pre" by auto
    ultimately show ?thesis
      using "2.prems"(1,2,5) split_block_conserves [of a s pre actual voff bs] al pre4
      by auto
  qed
qed simp

text \<open>The search fails only when no block has enough space.\<close>

lemma alloc_search_complete:
  "alloc_search voff am off actual bs = None \<longleftrightarrow>
   (\<forall>(a, s) \<in> set bs. let pre = (off - (a + voff)) AND am in s < pre \<or> s - pre < actual)"
  by (induction bs rule: free_set.induct) (auto simp: Let_def split: option.splits)


lemma actual_size_pos: "actual_size sz \<noteq> 0 \<Longrightarrow> 0 < actual_size sz \<and> 16 \<le> unat (actual_size sz)
    \<and> unat sz \<le> unat (actual_size sz)"
proof -
  assume nz: "actual_size sz \<noteq> 0"
  then have "unat (actual_size sz) \<noteq> 0" by (simp add: unat_eq_zero)
  then have "16 \<le> unat (actual_size sz) \<and> unat sz \<le> unat (actual_size sz)"
    unfolding actual_size_nat by (auto split: if_splits)
  with nz show ?thesis by (simp add: word_gt_0)
qed

subsection \<open>The allocator as a pool of bytes\<close>

text \<open>
  The promise of the allocator to its callers, over the set of free bytes: a successful
  allocation takes a range out of the pool, a failed one changes nothing, and releasing a
  range puts it back.
\<close>

locale memory_pool =
  fixes inv :: "'s \<Rightarrow> bool"
    and avail :: "'s \<Rightarrow> nat set"
    and get :: "u32 \<Rightarrow> 's \<Rightarrow> (u32 \<times> 's) option"
    and put :: "u32 \<Rightarrow> u32 \<Rightarrow> 's \<Rightarrow> 's option"
    and rsize :: "u32 \<Rightarrow> u32"
  assumes get_returns: "inv s \<Longrightarrow> \<exists>p s'. get n s = Some (p, s')"
    and get_fail: "inv s \<Longrightarrow> get n s = Some (0, s') \<Longrightarrow> s' = s"
    and get_ok: "inv s \<Longrightarrow> get n s = Some (p, s') \<Longrightarrow> p \<noteq> 0 \<Longrightarrow>
      inv s' \<and> span p (rsize n) \<subseteq> avail s \<and> avail s' = avail s - span p (rsize n)"
    and put_ok: "inv s \<Longrightarrow> get n s = Some (p, s') \<Longrightarrow> p \<noteq> 0 \<Longrightarrow> inv t \<Longrightarrow>
      span p (rsize n) \<inter> avail t = {} \<Longrightarrow>
      \<exists>t'. put p n t = Some t' \<and> inv t' \<and> avail t' = avail t \<union> span p (rsize n)"
begin

lemma get_inv: "inv s \<Longrightarrow> get n s = Some (p, s') \<Longrightarrow> inv s'"
  using get_fail get_ok by (cases "p = 0") auto

lemma get_disjoint:
  assumes "inv s" "get n s = Some (p, s')" "p \<noteq> 0"
    and "get m s' = Some (q, s'')" "q \<noteq> 0"
  shows "span p (rsize n) \<inter> span q (rsize m) = {}"
  using get_ok [OF assms(1-3)] get_ok [OF _ assms(4,5)] by auto

lemma get_put:
  assumes "inv s" "get n s = Some (p, s')" "p \<noteq> 0"
  shows "\<exists>t. put p n s' = Some t \<and> inv t \<and> avail t = avail s"
proof -
  note g = get_ok [OF assms]
  then obtain t where "put p n s' = Some t" "inv t" "avail t = avail s' \<union> span p (rsize n)"
    using put_ok [OF assms, of s'] by auto
  with g show ?thesis by auto
qed

end

definition pool_ok :: "u32 \<Rightarrow> nat \<Rightarrow> nat \<Rightarrow> 'z heap_state_scheme \<Rightarrow> bool" where
  "pool_ok voff lo hi h \<longleftrightarrow>
     virt_offset h = voff \<and> heap_ok lo hi h \<and> blocks_aligned voff (free_blocks h)"

lemma alloc_memblock_cases:
  "alloc_memblock (Suc n) [] sz align off h =
     (if actual_size sz = 0 then Some (0, h)
      else case alloc_search (virt_offset h) (align_mask_of align) off (actual_size sz)
                  (free_blocks h) of
             None \<Rightarrow> Some (0, h)
           | Some (p, bs) \<Rightarrow> Some (p, account_alloc (actual_size sz) (h\<lparr>free_blocks := bs\<rparr>)))"
  by (simp add: alloc_memblock_def Let_def split: option.splits prod.splits)

lemma account_alloc_simps [simp]:
  "free_blocks (account_alloc n h) = free_blocks h"
  "virt_offset (account_alloc n h) = virt_offset h"
  "memory (account_alloc n h) = memory h"
  by (simp_all add: account_alloc_def Let_def)

lemma malloc_phys_pool:
  assumes "pool_ok voff lo hi h" "k < 32" and "malloc_phys (Suc n) [] sz (2 ^ k) h = Some (p, h')"
  shows "if p = 0 then h' = h
         else pool_ok voff lo hi h' \<and> memory h' = memory h \<and>
           take_bit (max k 4) (virt_to_phys h p) = 0 \<and>
           span p (actual_size sz) \<subseteq> free_set (free_blocks h) \<and>
           free_set (free_blocks h') = free_set (free_blocks h) - span p (actual_size sz) \<and>
           lo \<le> unat p \<and> unat p + unat (actual_size sz) \<le> hi \<and>
           unat sz \<le> unat (actual_size sz) \<and> 16 \<le> unat (actual_size sz)"
proof (cases "p = 0 \<and> h' = h")
  case False
  define bs where "bs = free_blocks h"
  have reg: "region_ok lo hi" "blocks_ok lo hi bs" "blocks_aligned (virt_offset h) bs"
      "virt_offset h = voff"
    using assms(1) by (auto simp: pool_ok_def heap_ok_def bs_def)
  from False assms(3) obtain bs' where nz: "actual_size sz \<noteq> 0"
    and s: "alloc_search (virt_offset h) (mask (max k 4)) 0 (actual_size sz) bs = Some (p, bs')"
    and h': "h' = account_alloc (actual_size sz) (h\<lparr>free_blocks := bs'\<rparr>)"
    by (auto simp: malloc_phys_def alloc_memblock_cases align_mask_of_pow2 [OF assms(2)] bs_def
        split: if_splits option.splits)
  note pos = actual_size_pos [OF nz]
  have hi: "hi < 2 ^ 32" using reg(1) by (simp add: region_ok_def)
  note o = alloc_search_ok [OF reg(2) hi conjunct1 [OF pos] s]
  note c = alloc_search_conserves [OF reg(2) hi reg(3) _ take_bit_4_actual s]
  note a = alloc_search_aligned [OF s]
  have "p \<noteq> 0" using o reg(1) by (auto simp: region_ok_def)
  moreover have "free_set bs' = free_set bs - span p (actual_size sz)" using o c by auto
  ultimately show ?thesis
    using o c a pos reg h'
    by (simp add: pool_ok_def heap_ok_def bs_def [symmetric] virt_to_phys_def user_to_phys_def)
qed simp

lemma free_insert_aligned:
  assumes "free_insert f fs actual bs = Some bs'" "blocks_aligned voff bs"
    and "take_bit 4 (f + voff) = 0" "take_bit 4 fs = 0" "take_bit 4 actual = 0"
  shows "blocks_aligned voff bs'"
  using assms
proof (induction f fs actual bs arbitrary: bs' rule: free_insert.induct)
  case (2 f fs actual a s bs)
  have add: "take_bit 4 (x + y) = 0" if "take_bit 4 x = 0" "take_bit 4 y = 0" for x y :: u32
    using that by (simp add: take_bit_4_dvd)
  show ?case
  proof (cases "f - (a + s) = 0")
    case True
    with 2 add show ?thesis
      by (auto simp: Let_def split: if_splits)
  next
    case False
    with 2 add show ?thesis
      by (auto simp: Let_def split: if_splits)
  qed
qed simp

lemma free_phys_pool:
  assumes "pool_ok voff lo hi h" "lo \<le> unat p" "unat p + unat (actual_size sz) \<le> hi"
    and "take_bit 4 (virt_to_phys h p) = 0" "16 \<le> unat (actual_size sz)"
    and "span p (actual_size sz) \<inter> free_set (free_blocks h) = {}"
  shows "\<exists>h'. free_phys p sz h = Some h' \<and> pool_ok voff lo hi h' \<and>
     free_set (free_blocks h') = free_set (free_blocks h) \<union> span p (actual_size sz)"
proof -
  have reg: "region_ok lo hi" "blocks_ok lo hi (free_blocks h)"
      "blocks_aligned (virt_offset h) (free_blocks h)" "virt_offset h = voff"
    using assms(1) by (auto simp: pool_ok_def heap_ok_def)
  from free_insert_ok [OF reg(1) order.refl reg(2) assms(2,3,5,6)] obtain bs where
    bs: "free_insert p (actual_size sz) (actual_size sz) (free_blocks h) = Some bs"
      "blocks_ok lo hi bs" "free_set bs = span p (actual_size sz) \<union> free_set (free_blocks h)"
    by blast
  have "p \<noteq> 0" using assms(2) reg(1) by (auto simp: region_ok_def)
  moreover have "blocks_aligned (virt_offset h) bs"
    using free_insert_aligned [OF bs(1) reg(3) _ take_bit_4_actual take_bit_4_actual] assms(4)
    by (simp add: virt_to_phys_def user_to_phys_def)
  ultimately show ?thesis
    using bs reg by (auto simp: free_phys_def free_memblock_def Let_def pool_ok_def heap_ok_def)
qed


text \<open>Page-aligned allocation from a heap without discardable caches is such a pool.\<close>

interpretation phys_pool: memory_pool "pool_ok voff lo hi" "\<lambda>h. free_set (free_blocks h)"
    "\<lambda>sz h. malloc_phys 1 [] sz (2 ^ 12) h" free_phys actual_size for voff lo hi
proof (unfold_locales, goal_cases)
  case (1 h sz)
  show ?case
    by (simp add: malloc_phys_def alloc_memblock_cases split: option.splits)
next
  case (2 h sz h')
  then show ?case using malloc_phys_pool [of voff lo hi h 12 0 sz 0 h'] by simp
next
  case (3 h sz p h')
  then show ?case using malloc_phys_pool [of voff lo hi h 12 0 sz p h'] by simp
next
  case (4 h sz p h' t)
  then have "take_bit 12 (virt_to_phys h p) = 0" "lo \<le> unat p" "unat p + unat (actual_size sz) \<le> hi"
      "16 \<le> unat (actual_size sz)" "virt_offset t = virt_offset h"
    using malloc_phys_pool [of voff lo hi h 12 0 sz p h'] by (auto simp: pool_ok_def)
  moreover from this(1) have "take_bit 4 (virt_to_phys h p) = 0"
    by (rule take_bit_weaken) simp
  ultimately show ?case
    using free_phys_pool [of voff lo hi t p sz] 4 by (simp add: virt_to_phys_def user_to_phys_def)
qed

lemma realloc_new_cases:
  assumes "realloc_new (Suc n) [] new_size h = Some (p, h')" "pool_ok voff lo hi h"
  shows "if p = 0 then h' = h
         else if new_size = 0 then p = NOWHERE \<and> h' = h
         else (let b = p - 4; sz = actual_size (new_size + 4) in
           pool_ok voff lo hi h' \<and> span b sz \<subseteq> free_set (free_blocks h) \<and>
           free_set (free_blocks h') = free_set (free_blocks h) - span b sz \<and>
           memory h' = mem_write (memory h) b (le_bytes 4 (unat (new_size + 4))) \<and>
           unat p = unat b + 4 \<and> unat new_size + 4 \<le> unat sz \<and> lo \<le> unat b \<and> unat b + unat sz \<le> hi)"
proof (cases "new_size = 0 \<or> new_size + 4 < new_size")
  case True
  with assms(1) show ?thesis by (auto simp: realloc_new_def NOWHERE_def)
next
  case False
  then obtain b h1 where a: "malloc_phys (Suc n) [] (new_size + 4) (2 ^ 0) h = Some (b, h1)"
    and ph: "(p, h') = (if b = 0 then (0, h1) else (b + 4, store_size b (new_size + 4) h1))"
    using assms(1) by (auto simp: realloc_new_def Let_def malloc_phys_def split: bind_splits)
  note m = malloc_phys_pool [OF assms(2) _ a, simplified]
  show ?thesis
  proof (cases "b = 0")
    case True
    with ph m show ?thesis by simp
  next
    case nz: False
    have reg: "hi < 2 ^ 32" "0 < lo" using assms(2) by (auto simp: pool_ok_def heap_ok_def region_ok_def)
    have sum: "unat (new_size + 4) = unat new_size + 4"
      using False by (simp add: unat_plus_if_size word_size word_less_nat_alt split: if_splits)
    have ub: "unat (b + 4) = unat b + 4"
      using m nz reg by (intro unat_add_no_wrap [of b 4, simplified]) auto
    then have "b + 4 \<noteq> 0" by (metis add_is_0 unat_0 zero_neq_numeral)
    with ph nz m ub sum False show ?thesis
      by (auto simp: Let_def store_size_def pool_ok_def heap_ok_def)
  qed
qed


lemma load_store_size [simp]: "load_size b (store_size b tot h) = tot"
proof -
  have "unat tot < 256 ^ 4" using unat_u32_less [of tot] by simp
  moreover have "mem_read (mem_write (memory h) b (le_bytes 4 (unat tot))) b 4 = le_bytes 4 (unat tot)"
    using mem_read_write_same [of "le_bytes 4 (unat tot)" 4 "memory h" b] by simp
  ultimately show ?thesis
    by (simp add: load_size_def store_size_def get32_def le_val_bytes)
qed

lemma free_memblock_pool:
  assumes "pool_ok voff lo hi h" "allocated voff lo hi ptr sz h"
    "g = h\<lparr>memory := m\<rparr>"
  shows "\<exists>h'. free_memblock (ptr - 4) (sz + 4) g = Some h' \<and> pool_ok voff lo hi h' \<and>
    memory h' = m \<and>
    free_set (free_blocks h') = free_set (free_blocks h) \<union> span (ptr - 4) (actual_size (sz + 4))"
proof -
  have "pool_ok voff lo hi g" using assms(1,3) by (simp add: pool_ok_def heap_ok_def)
  moreover have "16 \<le> unat (actual_size (sz + 4))"
    using assms(2) actual_size_pos by (auto simp: allocated_def Let_def)
  ultimately obtain h' where "free_phys (ptr - 4) (sz + 4) g = Some h'" "pool_ok voff lo hi h'"
     "free_set (free_blocks h') = free_set (free_blocks g) \<union> span (ptr - 4) (actual_size (sz + 4))"
    using free_phys_pool [of voff lo hi g "ptr - 4" "sz + 4"] assms(2,3)
    by (auto simp: allocated_def Let_def virt_to_phys_def user_to_phys_def pool_ok_def)
  moreover from this(1) have "memory h' = m"
    using assms(3) by (auto simp: free_phys_def free_memblock_def Let_def split: if_splits option.splits)
  ultimately show ?thesis
    using assms(3) by (auto simp: free_phys_def)
qed


lemma allocatedD:
  assumes "allocated voff lo hi ptr sz h" "region_ok lo hi"
  shows "unat ptr = unat (ptr - 4) + 4" "unat (ptr - 4) + 4 + unat sz \<le> unat (ptr - 4) + unat (actual_size (sz + 4))"
    "unat (sz + 4) = unat sz + 4" "unat (ptr - 4) + 4 + unat sz \<le> hi"
proof -
  have a: "lo \<le> unat (ptr - 4)" "unat (ptr - 4) + unat (actual_size (sz + 4)) \<le> hi" "sz < sz + 4"
      "actual_size (sz + 4) \<noteq> 0"
    using assms(1) by (auto simp: allocated_def Let_def)
  show s: "unat (sz + 4) = unat sz + 4"
    using a(3) by (simp add: unat_plus_if_size word_size word_less_nat_alt split: if_splits)
  note p = actual_size_pos [OF a(4)]
  then show "unat (ptr - 4) + 4 + unat sz \<le> unat (ptr - 4) + unat (actual_size (sz + 4))"
    using s by simp
  with a show "unat (ptr - 4) + 4 + unat sz \<le> hi" by simp
  have "unat (ptr - 4 + 4) = unat (ptr - 4) + unat (4 :: u32)"
    using a p assms(2) by (intro unat_add_no_wrap) (auto simp: region_ok_def)
  then show "unat ptr = unat (ptr - 4) + 4" by simp
qed

lemma realloc_memory:
  fixes m :: mem
  assumes reg: "hi < 2 ^ 32"
    and new: "unat p = unat b + 4" "unat b + 4 + nn \<le> hi"
    and old: "unat q = unat c + 4" "unat c + 4 + on \<le> hi"
    and dis: "{unat b ..< unat b + 4 + nn} \<inter> {unat c ..< unat c + 4 + on} = {}"
    and len: "len \<le> nn" "len \<le> on" and hdr: "length hdr = 4"
  defines "m1 \<equiv> mem_write m b hdr"
  shows "mem_read m1 c 4 = mem_read m c 4"
    and "mem_read (mem_copy m1 p q len) p len = mem_read m q len"
    and "mem_read (mem_copy m1 p q len) b 4 = hdr"
proof -
  have "ranges_disjoint c 4 b 4" using reg new old dis by (intro ranges_disjointI) auto
  then show "mem_read m1 c 4 = mem_read m c 4"
    unfolding m1_def by (intro mem_read_write_disjoint) (simp add: hdr)
  have "ranges_disjoint q len b 4" using reg new old dis len by (intro ranges_disjointI) auto
  then have q: "mem_read m1 q len = mem_read m q len"
    unfolding m1_def by (intro mem_read_write_disjoint) (simp add: hdr)
  have "len \<le> 2 ^ 32" using reg new len by simp
  then show "mem_read (mem_copy m1 p q len) p len = mem_read m q len"
    by (simp add: mem_copy_def mem_read_write_same q)
  have "ranges_disjoint b 4 p len" using reg new len by (intro ranges_disjointI) auto
  then have "mem_read (mem_copy m1 p q len) b 4 = mem_read m1 b 4"
    unfolding mem_copy_def by (intro mem_read_write_disjoint) simp
  then show "mem_read (mem_copy m1 p q len) b 4 = hdr"
    using hdr by (simp add: m1_def mem_read_write_same)
qed


lemma alloc_memblock_returns: "\<exists>p h'. alloc_memblock (Suc n) [] sz align off h = Some (p, h')"
  by (simp add: alloc_memblock_cases split: option.splits)

lemma realloc_new_returns: "\<exists>p h'. realloc_new (Suc n) [] sz h = Some (p, h')"
  using alloc_memblock_returns [of n "sz + 4" 1 0 h] by (auto simp: realloc_new_def Let_def)

lemma realloc_new_effect:
  assumes r: "realloc_new (Suc n) [] new_size h = Some (p, h1)" "p \<noteq> 0" "new_size \<noteq> 0"
    and pool: "pool_ok voff lo hi h" and old: "allocated voff lo hi q old_size h"
  defines "b \<equiv> p - 4" and "len \<equiv> min (unat old_size) (unat new_size)"
  shows "allocated voff lo hi q old_size h1"
    and "mem_read (mem_copy (memory h1) p q len) p len = mem_read (memory h) q len"
    and "get32 (mem_read (mem_copy (memory h1) p q len) b 4) 0 = new_size + 4"
proof -
  have reg: "region_ok lo hi" "hi < 2 ^ 32"
    using pool by (auto simp: pool_ok_def heap_ok_def region_ok_def)
  define hdr where "hdr = le_bytes 4 (unat (new_size + 4))"
  have b: "span b (actual_size (new_size + 4)) \<subseteq> free_set (free_blocks h)"
      "free_set (free_blocks h1) = free_set (free_blocks h) - span b (actual_size (new_size + 4))"
      "memory h1 = mem_write (memory h) b hdr" "unat p = unat b + 4"
      "unat new_size + 4 \<le> unat (actual_size (new_size + 4))"
      "unat b + unat (actual_size (new_size + 4)) \<le> hi"
    using realloc_new_cases [OF r(1) pool] r by (simp_all add: Let_def b_def hdr_def)
  note o = allocatedD [OF old reg(1)]
  have "{unat b ..< unat b + 4 + unat new_size} \<subseteq> span b (actual_size (new_size + 4))"
      "{unat (q - 4) ..< unat (q - 4) + 4 + unat old_size} \<subseteq> span (q - 4) (actual_size (old_size + 4))"
    using b(5) o(2) by (auto simp: span_def)
  then have dis: "{unat b ..< unat b + 4 + unat new_size} \<inter>
      {unat (q - 4) ..< unat (q - 4) + 4 + unat old_size} = {}"
    using b(1) old unfolding allocated_def Let_def by blast
  have "unat b + 4 + unat new_size \<le> hi" using b(5,6) by simp
  note m = realloc_memory [OF reg(2) b(4) this o(1,4) dis, of len hdr "memory h", folded b(3)]
  have l: "len \<le> unat new_size" "len \<le> unat old_size" "length hdr = 4"
    by (simp_all add: len_def hdr_def)
  show "allocated voff lo hi q old_size h1"
    using old b(2) m(1) [OF l] by (auto simp: allocated_def Let_def load_size_def)
  show "mem_read (mem_copy (memory h1) p q len) p len = mem_read (memory h) q len"
    by (rule m(2) [OF l])
  show "get32 (mem_read (mem_copy (memory h1) p q len) b 4) 0 = new_size + 4"
    using m(3) [OF l] load_store_size [of b "new_size + 4" h] 
    by (simp add: hdr_def load_size_def store_size_def mem_read_write_same)
qed

section \<open>Properties\<close>

text \<open>
  C3. Allocation at a power-of-two physical alignment always returns. A null result leaves
  the heap unchanged and means that the request overflows when it is rounded, or that no
  free block can hold it at that alignment. Otherwise the block is at the requested
  physical alignment, was wholly free, lies in the heap and is at least as long as
  requested; exactly its bytes leave the free set, bytes that were in use are untouched and
  the heap stays well formed.
\<close>

theorem malloc_phys_correct:
  assumes "pool_ok voff lo hi h" "k < 32"
  shows "\<exists>p h'. malloc_phys (Suc n) [] sz (2 ^ k) h = Some (p, h') \<and>
    (if p = 0
     then h' = h \<and> (actual_size sz = 0 \<or>
       (\<forall>(a, s) \<in> set (free_blocks h).
          let pre = (0 - (a + voff)) AND mask (max k 4) in s < pre \<or> s - pre < actual_size sz))
     else pool_ok voff lo hi h' \<and>
       (\<forall>x. unat x \<notin> free_set (free_blocks h) \<longrightarrow> memory h' x = memory h x) \<and>
       take_bit (max k 4) (virt_to_phys h p) = 0 \<and>
       span p (actual_size sz) \<subseteq> free_set (free_blocks h) \<and>
       free_set (free_blocks h') = free_set (free_blocks h) - span p (actual_size sz) \<and>
       lo \<le> unat p \<and> unat p + unat (actual_size sz) \<le> hi \<and> unat sz \<le> unat (actual_size sz))"
proof -
  obtain p h' where m: "malloc_phys (Suc n) [] sz (2 ^ k) h = Some (p, h')"
    using alloc_memblock_returns unfolding malloc_phys_def by blast
  note a = malloc_phys_pool [OF assms m]
  have reg: "blocks_ok lo hi (free_blocks h)" "hi < 2 ^ 32" "0 < lo" "virt_offset h = voff"
    using assms(1) by (auto simp: pool_ok_def heap_ok_def region_ok_def)
  have "actual_size sz = 0 \<or> alloc_search voff (mask (max k 4)) 0 (actual_size sz) (free_blocks h) = None"
    if "p = 0"
  proof (rule ccontr)
    assume "\<not> ?thesis"
    then obtain q bs where nz: "actual_size sz \<noteq> 0"
      and s: "alloc_search voff (mask (max k 4)) 0 (actual_size sz) (free_blocks h) = Some (q, bs)"
      by auto
    have "q = p"
      using m nz s reg(4)
      by (simp add: malloc_phys_def alloc_memblock_cases align_mask_of_pow2 [OF assms(2)])
    with alloc_search_ok [OF reg(1,2) conjunct1 [OF actual_size_pos [OF nz]] s] reg(3) that
    show False by auto
  qed
  with a m show ?thesis by (auto simp: alloc_search_complete)
qed

lemma example_heap_ok: "pool_ok 0x800 0x1000 0x5000 example_heap"
  by (simp add: pool_ok_def heap_ok_def region_ok_def example_heap_def take_bit_4_dvd)

lemma example_alloc: "map_option fst (malloc_phys 1 [] 0x100 (2 ^ 12) example_heap) = Some 0x1800"
  by code_simp

theorem malloc_phys_correct_witness:
  "\<exists>p h'. malloc_phys 1 [] 0x100 (2 ^ 12) example_heap = Some (p, h') \<and> p \<noteq> 0 \<and>
     pool_ok 0x800 0x1000 0x5000 h' \<and> take_bit 12 (virt_to_phys example_heap p) = 0"
  using malloc_phys_correct [OF example_heap_ok, of 12 0 "0x100"] example_alloc by auto

text \<open>
  C21. \<open>realloc\<close> of an allocated block to a non-zero size always returns. A null result
  leaves the old block and the whole heap untouched. Otherwise the new block was free, the
  old one has become free, the header of the new block records its size, and the leading
  bytes, up to the smaller of the two sizes, are those of the old block.
\<close>

theorem realloc_correct:
  assumes pool: "pool_ok voff lo hi h" and old: "allocated voff lo hi q old_size h"
    and nz: "new_size \<noteq> 0"
  shows "\<exists>p h'. realloc (Suc n) [] q new_size h = Some (p, h') \<and>
    (if p = 0 then h' = h
     else pool_ok voff lo hi h' \<and> load_size (p - 4) h' = new_size + 4 \<and>
       span (p - 4) (actual_size (new_size + 4)) \<subseteq> free_set (free_blocks h) \<and>
       free_set (free_blocks h') = free_set (free_blocks h)
         - span (p - 4) (actual_size (new_size + 4)) \<union> span (q - 4) (actual_size (old_size + 4)) \<and>
       (let len = min (unat old_size) (unat new_size) in
        mem_read (memory h') p len = mem_read (memory h) q len))"
proof -
  obtain p h1 where r: "realloc_new (Suc n) [] new_size h = Some (p, h1)"
    using realloc_new_returns by blast
  show ?thesis
  proof (cases "p = 0")
    case True
    with r realloc_new_cases [OF r pool] show ?thesis by (simp add: realloc_def)
  next
    case False
    define len where "len = min (unat old_size) (unat new_size)"
    have b: "pool_ok voff lo hi h1" "span (p - 4) (actual_size (new_size + 4)) \<subseteq> free_set (free_blocks h)"
        "free_set (free_blocks h1) = free_set (free_blocks h) - span (p - 4) (actual_size (new_size + 4))"
      using realloc_new_cases [OF r pool] False nz by (simp_all add: Let_def)
    note e = realloc_new_effect [OF r False nz pool old, folded len_def]
    have len: "unat (if old_size < new_size then old_size else new_size) = len"
      by (auto simp: len_def word_less_nat_alt min_def)
    from free_memblock_pool [OF b(1) e(1) refl, of "mem_copy (memory h1) p q len"]
    obtain h2 where f: "free_memblock (q - 4) (old_size + 4)
          (h1\<lparr>memory := mem_copy (memory h1) p q len\<rparr>) = Some h2"
        "pool_ok voff lo hi h2" "memory h2 = mem_copy (memory h1) p q len"
        "free_set (free_blocks h2) = free_set (free_blocks h1) \<union> span (q - 4) (actual_size (old_size + 4))"
      by auto
    have "realloc (Suc n) [] q new_size h = Some (p, h2)"
      using e(1) len f(1) False
      by (auto simp: realloc_def r realloc_old_def allocated_def Let_def split: if_splits)
    with False f b e show ?thesis
      by (auto simp: len_def [symmetric] load_size_def Let_def)
  qed
qed


lemma example_allocated_ok: "pool_ok 0x800 0x1000 0x6000 example_allocated"
   "allocated 0x800 0x1000 0x6000 0x5004 0x20 example_allocated"
proof -
  have [simp]: "free_blocks example_allocated = [(0x1000, 0x4000)]" "virt_offset example_allocated = 0x800"
    by (simp_all add: example_allocated_def store_size_def example_heap_def)
  show "pool_ok 0x800 0x1000 0x6000 example_allocated"
    by (simp add: pool_ok_def heap_ok_def region_ok_def take_bit_4_dvd)
  have "load_size 0x5000 example_allocated = 0x24"
    unfolding example_allocated_def by (rule load_store_size)
  then show "allocated 0x800 0x1000 0x6000 0x5004 0x20 example_allocated"
    by (auto simp add: allocated_def Let_def NOWHERE_def actual_size_def MIN_MEMBLOCK_SIZE_def span_def)
qed

lemma realloc_ptr:
  "realloc n ds q sz h = Some (p, h') \<Longrightarrow> \<exists>h1. realloc_new n ds sz h = Some (p, h1)"
  by (auto simp: realloc_def split: bind_splits if_splits)

lemma example_realloc_new: "map_option fst (alloc_memblock 1 [] 0x44 1 0 example_allocated) = Some 0x1000"
proof -
  have [simp]: "free_blocks example_allocated = [(0x1000, 0x4000)]" "virt_offset example_allocated = 0x800"
    by (simp_all add: example_allocated_def store_size_def example_heap_def)
  show ?thesis
    by (simp add: alloc_memblock_def actual_size_def MIN_MEMBLOCK_SIZE_def align_mask_of_def)
qed

lemma example_realloc: "realloc 1 [] 0x5004 0x40 example_allocated = Some (p, h) \<Longrightarrow> p = 0x1004"
  using realloc_ptr [of 1 "[]" "0x5004" "0x40" example_allocated p h] example_realloc_new
  by (auto simp: realloc_new_def Let_def)

theorem realloc_correct_witness:
  "\<exists>h'. realloc 1 [] 0x5004 0x40 example_allocated = Some (0x1004, h') \<and>
     mem_read (memory h') 0x1004 32 = mem_read (memory example_allocated) 0x5004 32"
  proof -
  obtain p h' where r: "realloc 1 [] 0x5004 0x40 example_allocated = Some (p, h')"
    and c: "p \<noteq> 0 \<longrightarrow> mem_read (memory h') p 32 = mem_read (memory example_allocated) 0x5004 32"
    using realloc_correct [OF example_allocated_ok, of "0x40" 0]
    by (fastforce simp: Let_def)
  from example_realloc [OF r] r c show ?thesis by simp
qed

text \<open>
  C22. Freeing a block with the size it was allocated with undoes the allocation: the free
  list comes back entry by entry, merged as it was, with all counters but the high-water
  mark.
\<close>

theorem malloc_phys_free_phys:
  assumes pool: "pool_ok voff lo hi h" and k: "k < 32"
    and m: "malloc_phys (Suc n) [] sz (2 ^ k) h = Some (p, h')" and "p \<noteq> 0"
  shows "free_phys p sz h' = Some (h\<lparr>maxusedmem := maxusedmem h'\<rparr>)"
proof -
  note a = malloc_phys_pool [OF pool k m, simplified if_not_P [OF assms(4)]]
  have al: "take_bit 4 (virt_to_phys h' p) = 0"
    using a take_bit_weaken [of "max k 4" "virt_to_phys h p" 4] pool
    by (auto simp: virt_to_phys_def user_to_phys_def pool_ok_def)
  have "span p (actual_size sz) \<inter> free_set (free_blocks h') = {}" using a by auto
  with a al obtain h'' where f: "free_phys p sz h' = Some h''" "pool_ok voff lo hi h''"
      "free_set (free_blocks h'') = free_set (free_blocks h') \<union> span p (actual_size sz)"
    using free_phys_pool [of voff lo hi h' p sz] by auto
  have "free_set (free_blocks h'') = free_set (free_blocks h)" using f(3) a by auto
  then have bs: "free_blocks h'' = free_blocks h"
    using f(2) pool blocks_ok_unique unfolding pool_ok_def heap_ok_def by blast
  obtain xs where "h' = account_alloc (actual_size sz) (h\<lparr>free_blocks := xs\<rparr>)"
    using m assms(4)
    by (auto simp: malloc_phys_def alloc_memblock_cases split: if_splits option.splits)
  with f(1) bs show ?thesis
    by (auto simp: free_phys_def free_memblock_def account_alloc_def Let_def assms(4)
        split: option.splits)
qed

theorem malloc_phys_free_phys_witness:
  "\<exists>h'. malloc_phys 1 [] 0x100 (2 ^ 12) example_heap = Some (0x1800, h') \<and>
     free_phys 0x1800 0x100 h' = Some (example_heap\<lparr>maxusedmem := maxusedmem h'\<rparr>)"
  using malloc_phys_free_phys [OF example_heap_ok, of 12 0 "0x100" "0x1800"] example_alloc by auto



end
