(* ===== verification/Strings.thy ===== *)
theory Strings
  imports Malloc
begin

text \<open>
  The string functions of \<open>src/src/core/string.c\<close>, the character classes of
  \<open>src/src/include/ctype.h\<close> and \<open>src/src/core/ctype.c\<close>, and the path functions of
  \<open>src/src/core/basename.c\<close>. A C string is the list of its characters; reading at its end
  gives NUL, and a character beyond a NUL within the list is never read. A pointer into a
  string that a function returns is the index of the character, a null pointer is \<open>None\<close>.
\<close>

section \<open>Characters\<close>

definition NUL :: char where "NUL = CHR 0x00"

text \<open>The first character of a string, which is NUL at its end.\<close>

fun first_char :: "string \<Rightarrow> char" where
  "first_char [] = NUL"
| "first_char (c # s) = c"

text \<open>The value of a character as \<open>uint8_t\<close>, and as \<open>char\<close>, which is signed.\<close>

definition uchar :: "char \<Rightarrow> int" where
  "uchar c = of_char c"

definition schar :: "char \<Rightarrow> int" where
  "schar c = (if uchar c < 128 then uchar c else uchar c - 256)"

definition isdigit :: "int \<Rightarrow> bool" where
  "isdigit c \<longleftrightarrow> 0x30 \<le> c \<and> c \<le> 0x39"

definition isupper :: "int \<Rightarrow> bool" where
  "isupper c \<longleftrightarrow> 0x41 \<le> c \<and> c \<le> 0x5a"

definition islower :: "int \<Rightarrow> bool" where
  "islower c \<longleftrightarrow> 0x61 \<le> c \<and> c \<le> 0x7a"

definition isalpha :: "int \<Rightarrow> bool" where
  "isalpha c \<longleftrightarrow> isupper c \<or> islower c"

definition isprint :: "int \<Rightarrow> bool" where
  "isprint c \<longleftrightarrow> 0x20 \<le> c \<and> c \<le> 0x7e"

definition isspace :: "int \<Rightarrow> bool" where
  "isspace c \<longleftrightarrow> c = 0x20 \<or> c = 0x0c \<or> c = 0x0a \<or> c = 0x0d \<or> c = 0x09 \<or> c = 0x0b"

definition toupper :: "int \<Rightarrow> int" where
  "toupper c = (if islower c then c - 0x61 + 0x41 else c)"

section \<open>Strings\<close>

function strncmp :: "string \<Rightarrow> string \<Rightarrow> u32 \<Rightarrow> int" where
  "strncmp a b mx =
     (if mx = 0 then 0
      else
        (let diff = uchar (first_char a) - uchar (first_char b)
         in if diff \<noteq> 0 then diff
            else if first_char a = NUL then 0
            else strncmp (tl a) (tl b) (mx - 1)))"
  by pat_completeness auto

termination strncmp
  by (relation "measure (\<lambda>(a, _). length a)") (auto, case_tac a, auto)

definition strcmp :: "string \<Rightarrow> string \<Rightarrow> int" where
  "strcmp a b = strncmp a b (NOT 0)"

function strncasecmp :: "string \<Rightarrow> string \<Rightarrow> u32 \<Rightarrow> int" where
  "strncasecmp a b mx =
     (if mx = 0 then 0
      else
        (let diff = toupper (uchar (first_char a)) - toupper (uchar (first_char b))
         in if diff \<noteq> 0 then diff
            else if first_char a = NUL then 0
            else strncasecmp (tl a) (tl b) (mx - 1)))"
  by pat_completeness auto

termination strncasecmp
  by (relation "measure (\<lambda>(a, _). length a)") (auto, case_tac a, auto)

definition strcasecmp :: "string \<Rightarrow> string \<Rightarrow> int" where
  "strcasecmp a b = strncasecmp a b (NOT 0)"

function strnlen :: "string \<Rightarrow> u32 \<Rightarrow> u32" where
  "strnlen s mx =
     (if mx = 0 \<or> first_char s = NUL then 0 else 1 + strnlen (tl s) (mx - 1))"
  by pat_completeness auto

termination strnlen
  by (relation "measure (\<lambda>(s, _). length s)") (auto, case_tac s, auto)

definition strlen :: "string \<Rightarrow> u32" where
  "strlen s = strnlen s (NOT 0)"

text \<open>The comparison is between the unsigned byte and the \<open>int\<close> argument.\<close>

fun strchr :: "string \<Rightarrow> int \<Rightarrow> nat option" where
  "strchr [] ch = (if uchar NUL = ch then Some 0 else None)"
| "strchr (c # s) ch =
     (if uchar c = ch then Some 0
      else if c = NUL then None
      else map_option Suc (strchr s ch))"

text \<open>The downward scan of \<open>strrchr\<close>, from just below the given position.\<close>

primrec strrchr_from :: "string \<Rightarrow> int \<Rightarrow> nat \<Rightarrow> nat option" where
  "strrchr_from s ch 0 = None"
| "strrchr_from s ch (Suc k) = (if uchar (s ! k) = ch then Some k else strrchr_from s ch k)"

definition strrchr :: "string \<Rightarrow> int \<Rightarrow> nat option" where
  "strrchr s ch = strrchr_from s ch (length (takeWhile (\<lambda>c. c \<noteq> NUL) s))"

fun memcmp :: "string \<Rightarrow> string \<Rightarrow> nat \<Rightarrow> int" where
  "memcmp a b 0 = 0"
| "memcmp a b (Suc len) =
     (let diff = uchar (first_char a) - uchar (first_char b)
      in if diff \<noteq> 0 then diff else memcmp (tl a) (tl b) len)"

fun strstr :: "string \<Rightarrow> string \<Rightarrow> nat option" where
  "strstr [] needle = None"
| "strstr (c # s) needle =
     (if c = NUL then None
      else if memcmp (c # s) needle (unat (strlen needle)) = 0 then Some 0
      else map_option Suc (strstr s needle))"

definition string_bytes :: "string \<Rightarrow> u8 list" where
  "string_bytes s = map of_char s @ [0]"

definition strndup :: "nat \<Rightarrow> 'z discarder list \<Rightarrow> string \<Rightarrow> u32 \<Rightarrow> 'z heap_state_scheme \<Rightarrow>
    (u32 \<times> 'z heap_state_scheme) option" where
  "strndup n D src mx h =
     (let len = strnlen src mx in do {
        (dup, h) \<leftarrow> malloc n D (len + 1) h;
        Some (dup, if dup \<noteq> 0 then mem_upd (\<lambda>m. mem_write m dup (string_bytes (take (unat len) src))) h else h)
      })"

definition strdup :: "nat \<Rightarrow> 'z discarder list \<Rightarrow> string \<Rightarrow> 'z heap_state_scheme \<Rightarrow>
    (u32 \<times> 'z heap_state_scheme) option" where
  "strdup n D src h = strndup n D src (NOT 0) h"

section \<open>Numbers\<close>

definition digit_value :: "u32 \<Rightarrow> u32" where
  "digit_value ch =
     (if 0x61 \<le> ch then ch - (0x61 - 10)
      else if 0x41 \<le> ch then ch - (0x41 - 10)
      else if ch \<le> 0x39 then ch - 0x30
      else ch)"

text \<open>The rest of the string, the sign and the base.\<close>

definition strtoul_pre :: "string \<Rightarrow> u32 \<Rightarrow> string \<times> bool \<times> u32" where
  "strtoul_pre s base =
     (let s = dropWhile (\<lambda>c. isspace (schar c)) s;
          negate = (first_char s = CHR ''-'');
          s = (if first_char s = CHR ''-'' then tl s else if first_char s = CHR ''+'' then tl s else s)
      in if base = 0 then
           (if first_char s = CHR ''0'' then
              (if first_char (tl s) = CHR ''X'' \<or> first_char (tl s) = CHR ''x'' then (tl (tl s), negate, 16)
               else (tl s, negate, 8))
            else (s, negate, 10))
         else (s, negate, base))"

fun strtoul_digits :: "u32 \<Rightarrow> u32 \<Rightarrow> string \<Rightarrow> u32 \<times> string" where
  "strtoul_digits base v [] = (v, [])"
| "strtoul_digits base v (c # s) =
     (let digit = digit_value (of_int (schar c))
      in if base \<le> digit then (v, c # s) else strtoul_digits base (v * base + digit) s)"

text \<open>The value, and the rest of the string at the end pointer.\<close>

definition strtoul :: "string \<Rightarrow> u32 \<Rightarrow> u32 \<times> string" where
  "strtoul s base =
     (let (s, negate, base) = strtoul_pre s base;
          (v, s) = strtoul_digits base 0 s
      in (if negate then - v else v, s))"

section \<open>Paths\<close>

definition basename :: "string \<Rightarrow> string" where
  "basename path = (case strrchr path 0x2f of Some i \<Rightarrow> drop (Suc i) path | None \<Rightarrow> path)"

definition dirname :: "string \<Rightarrow> string" where
  "dirname path =
     (case strrchr path 0x2f of
        Some i \<Rightarrow> if i = 0 then ''/'' else take i path
      | None \<Rightarrow> ''.'')"

section \<open>Lemmas\<close>

declare strncmp.simps [simp del] strncasecmp.simps [simp del] strnlen.simps [simp del]

lemma first_char_conv: "first_char s = (if s = [] then NUL else hd s)"
  by (cases s) auto

lemma uchar_inject [simp]: "uchar a = uchar b \<longleftrightarrow> a = b"
  unfolding uchar_def by (metis char_of_char)

lemma uchar_NUL [simp]: "uchar NUL = 0"
  by (simp add: uchar_def NUL_def)

lemma uchar_eq_0 [simp]: "uchar c = 0 \<longleftrightarrow> c = NUL"
  using uchar_inject [of c NUL] by (simp del: uchar_inject)

lemma unat_NOT_0 [simp]: "unat (NOT 0 :: u32) = 4294967295" "unat (- 1 :: u32) = 4294967295"
  by (simp_all add: unsigned_minus_1_eq_mask mask_eq_exp_minus_1)

lemma strnlen_conv: "NUL \<notin> set s \<Longrightarrow> length s \<le> unat mx \<Longrightarrow> strnlen s mx = of_nat (length s)"
proof (induction s arbitrary: mx)
  case (Cons c s)
  have "mx \<noteq> 0" using Cons.prems by auto
  then have "length s \<le> unat (mx - 1)" using Cons.prems by (simp add: unat_minus_one)
  then show ?case using Cons \<open>mx \<noteq> 0\<close> by (auto simp: strnlen.simps [of "c # s"])
qed (simp add: strnlen.simps)

lemma strlen_conv: "NUL \<notin> set s \<Longrightarrow> length s < 2 ^ 32 \<Longrightarrow> strlen s = of_nat (length s)"
  unfolding strlen_def by (rule strnlen_conv) simp_all

lemma strncmp_eq_0:
  "NUL \<notin> set a \<Longrightarrow> NUL \<notin> set b \<Longrightarrow> length a < unat mx \<Longrightarrow> strncmp a b mx = 0 \<longleftrightarrow> a = b"
proof (induction a arbitrary: b mx)
  case Nil
  then show ?case by (cases b) (auto simp: strncmp.simps Let_def)
next
  case (Cons c a)
  have "mx \<noteq> 0" using Cons.prems by auto
  then have "length a < unat (mx - 1)" using Cons.prems by (simp add: unat_minus_one)
  then show ?case
    using Cons \<open>mx \<noteq> 0\<close> by (cases b) (auto simp: strncmp.simps [of "c # a"] Let_def)
qed

lemma toupper_eq_0 [simp]: "toupper x = 0 \<longleftrightarrow> x = 0" "0 = toupper x \<longleftrightarrow> x = 0" "toupper 0 = 0"
  by (auto simp: toupper_def islower_def)

lemma strncasecmp_eq_0:
  "NUL \<notin> set a \<Longrightarrow> NUL \<notin> set b \<Longrightarrow> length a < unat mx \<Longrightarrow>
    strncasecmp a b mx = 0 \<longleftrightarrow> map (\<lambda>c. toupper (uchar c)) a = map (\<lambda>c. toupper (uchar c)) b"
proof (induction a arbitrary: b mx)
  case Nil
  then show ?case by (cases b) (auto simp: strncasecmp.simps Let_def)
next
  case (Cons c a)
  have "mx \<noteq> 0" using Cons.prems by auto
  then have "length a < unat (mx - 1)" using Cons.prems by (simp add: unat_minus_one)
  then show ?case
    using Cons \<open>mx \<noteq> 0\<close>
    by (cases b) (auto simp: strncasecmp.simps [of "c # a"] Let_def)
qed

lemma strchr_conv:
  "NUL \<notin> set s \<Longrightarrow> c \<noteq> NUL \<Longrightarrow>
    strchr s (uchar c) = (if c \<in> set s then Some (length (takeWhile (\<lambda>x. x \<noteq> c) s)) else None)"
  by (induction s) auto

lemma strrchr_from_Some:
  "strrchr_from s ch k = Some i \<Longrightarrow> i < k \<and> uchar (s ! i) = ch \<and> (\<forall>j<k. i < j \<longrightarrow> uchar (s ! j) \<noteq> ch)"
  by (induction k) (auto split: if_splits simp: less_Suc_eq)

lemma strrchr_from_None: "strrchr_from s ch k = None \<longleftrightarrow> (\<forall>j<k. uchar (s ! j) \<noteq> ch)"
  by (induction k) (auto simp: less_Suc_eq)

lemma takeWhile_no_NUL: "NUL \<notin> set s \<Longrightarrow> takeWhile (\<lambda>c. c \<noteq> NUL) s = s"
  by (induction s) auto

lemma strrchr_last:
  assumes "NUL \<notin> set a" "NUL \<notin> set b" "c \<noteq> NUL" "c \<notin> set b"
  shows "strrchr (a @ c # b) (uchar c) = Some (length a)"
proof -
  let ?s = "a @ c # b"
  have all: "takeWhile (\<lambda>c. c \<noteq> NUL) ?s = ?s" using assms by (intro takeWhile_no_NUL) auto
  have "\<exists>i. strrchr_from ?s (uchar c) (length ?s) = Some i"
    using strrchr_from_None [of ?s "uchar c" "length ?s"]
    by (cases "strrchr_from ?s (uchar c) (length ?s)") (auto dest!: spec [of _ "length a"])
  then obtain i where i: "strrchr_from ?s (uchar c) (length ?s) = Some i" by blast
  note f = strrchr_from_Some [OF i]
  have "\<not> length a < i"
    using f assms(4) by (auto simp: nth_append nth_Cons' split: if_splits)
  moreover have "\<not> i < length a" using f by (auto dest!: spec [of _ "length a"])
  ultimately have "i = length a" by simp
  then show ?thesis unfolding strrchr_def all using i by simp
qed

lemma strrchr_none: "NUL \<notin> set s \<Longrightarrow> c \<notin> set s \<Longrightarrow> strrchr s (uchar c) = None"
  by (auto simp: strrchr_def takeWhile_no_NUL strrchr_from_None)

text \<open>Scanning digits.\<close>

lemma strtoul_digits_stop: "base \<le> digit_value (of_int (schar (first_char s))) \<or> s = [] \<Longrightarrow> strtoul_digits base v s = (v, s)"
  by (cases s) auto

end
