(* ===== verification/Format.thy ===== *)
theory Format
  imports Strings
begin

text \<open>
  Formatted output (\<open>src/src/core/vsprintf.c\<close>, \<open>src/src/core/asprintf.c\<close>). The variable
  arguments are a list of typed values, and fetching one of another type is undefined. The
  number formatters fill the 31 bytes of \<open>tmp_buf\<close> before its terminator from the end;
  running out of them is undefined. A buffer is a list of characters and a position in it,
  and a write outside of the list is undefined.
\<close>

section \<open>Numbers\<close>

datatype va_arg =
    Arg_int u32
  | Arg_llong u64
  | Arg_string "string option"
  | Arg_wstring "u16 list option"

definition LCASE :: u32 where "LCASE = 0x20"
definition ALT_FORM :: u32 where "ALT_FORM = 0x02"
definition ZPAD :: u32 where "ZPAD = 0x10"

text \<open>A character from the low byte of an integer, as a store to a \<open>char\<close> takes it.\<close>

definition low_char :: "'a::len word \<Rightarrow> char" where
  "low_char v = char_of (unat (ucast v :: u8))"

definition tmp_buf_len :: nat where "tmp_buf_len = 32"

definition in_tmp_buf :: "string \<Rightarrow> string option" where
  "in_tmp_buf s = (if length s < tmp_buf_len then Some s else None)"

definition hex_digit :: "u64 \<Rightarrow> u32 \<Rightarrow> char" where
  "hex_digit num case_mod =
     low_char (of_char (''0123456789ABCDEF'' ! unat (num AND 0xf)) OR case_mod)"

function hex_digits :: "u32 \<Rightarrow> u64 \<Rightarrow> string \<Rightarrow> string" where
  "hex_digits case_mod num ptr =
     (let ptr = hex_digit num case_mod # ptr;
          num = drop_bit 4 num
      in if num \<noteq> 0 then hex_digits case_mod num ptr else ptr)"
  by pat_completeness auto

termination hex_digits
proof (relation "measure (\<lambda>(_, num, _). unat num)", simp, clarsimp)
  fix num :: u64
  assume "drop_bit 4 num \<noteq> 0"
  then have "unat (drop_bit 4 num) \<noteq> 0" by (simp only: unat_eq_0 simp_thms)
  moreover have "unat (drop_bit 4 num) = unat num div 16" by (simp add: drop_bit_eq_div unat_div)
  ultimately show "unat (drop_bit 4 num) < unat num" by linarith
qed

definition format_hex :: "u64 \<Rightarrow> int \<Rightarrow> u32 \<Rightarrow> string option" where
  "format_hex num width flags =
     (let case_mod = flags AND LCASE;
          pad = low_char ((flags AND ZPAD) OR 0x20);
          ptr = hex_digits case_mod num [];
          ptr = replicate (nat (width - int (length ptr))) pad @ ptr;
          ptr = (if flags AND ALT_FORM \<noteq> 0 then CHR ''0'' # low_char (0x58 OR case_mod) # ptr else ptr)
      in in_tmp_buf ptr)"

fun dec_digits :: "nat \<Rightarrow> string \<Rightarrow> string" where
  "dec_digits num ptr =
     (let ptr = char_of (48 + num mod 10) # ptr;
          num = num div 10
      in if num \<noteq> 0 then dec_digits num ptr else ptr)"

text \<open>Negating the least \<open>signed long\<close> is undefined.\<close>

definition format_decimal :: "u32 \<Rightarrow> int \<Rightarrow> u32 \<Rightarrow> string option" where
  "format_decimal v width flags =
     (let num = sint v;
          zpad = flags AND ZPAD;
          pad = low_char (zpad OR 0x20);
          negative = num < 0
      in if num = - (2 ^ 31) then None
         else
           (let ptr = dec_digits (nat \<bar>num\<bar>) [];
                ptr = (if negative \<and> zpad = 0 then CHR ''-'' # ptr else ptr);
                ptr = replicate (nat (width - int (length ptr))) pad @ ptr;
                ptr = (if negative \<and> zpad \<noteq> 0 then CHR ''-'' # tl ptr else ptr)
            in in_tmp_buf ptr))"

section \<open>Format strings\<close>

text \<open>Flag characters, field width and length modifier, with the rest of the format.\<close>

fun fmt_flags :: "u32 \<Rightarrow> string \<Rightarrow> u32 \<times> string" where
  "fmt_flags flags [] = (flags, [])"
| "fmt_flags flags (c # fmt) =
     (if c = CHR ''#'' then fmt_flags (flags OR ALT_FORM) fmt
      else if c = CHR ''0'' then fmt_flags (flags OR ZPAD) fmt
      else (flags, c # fmt))"

fun fmt_width :: "int \<Rightarrow> string \<Rightarrow> int \<times> string" where
  "fmt_width width [] = (width, [])"
| "fmt_width width (c # fmt) =
     (if isdigit (schar c) then fmt_width (width * 10 + (schar c - 0x30)) fmt
      else (width, c # fmt))"

definition INT_LEN :: int where "INT_LEN = 2"
definition LONG_LEN :: int where "LONG_LEN = 3"
definition SIZE_T_LEN :: int where "SIZE_T_LEN = 5"

fun fmt_length :: "int \<Rightarrow> string \<Rightarrow> int \<times> string" where
  "fmt_length len [] = (len, [])"
| "fmt_length len (c # fmt) =
     (if c = CHR ''h'' then fmt_length (len - 1) fmt
      else if c = CHR ''l'' then fmt_length (len + 1) fmt
      else if c = CHR ''z'' then fmt_length SIZE_T_LEN fmt
      else (len, c # fmt))"

text \<open>\<open>type_sizes\<close>; an index outside of the array is undefined.\<close>

definition type_size :: "int \<Rightarrow> nat option" where
  "type_size len = (if 0 \<le> len \<and> len < 6 then Some ([1, 2, 4, 4, 8, 4] ! nat len) else None)"

fun va_int :: "va_arg list \<Rightarrow> (u32 \<times> va_arg list) option" where
  "va_int (Arg_int v # args) = Some (v, args)"
| "va_int _ = None"

fun va_llong :: "va_arg list \<Rightarrow> (u64 \<times> va_arg list) option" where
  "va_llong (Arg_llong v # args) = Some (v, args)"
| "va_llong _ = None"

fun va_string :: "va_arg list \<Rightarrow> (string option \<times> va_arg list) option" where
  "va_string (Arg_string v # args) = Some (v, args)"
| "va_string _ = None"

fun va_wstring :: "va_arg list \<Rightarrow> (u16 list option \<times> va_arg list) option" where
  "va_wstring (Arg_wstring v # args) = Some (v, args)"
| "va_wstring _ = None"

definition c_string :: "string \<Rightarrow> string" where
  "c_string s = takeWhile (\<lambda>c. c \<noteq> NUL) s"

text \<open>
  The conversions: the characters written for one, and the arguments left. \<open>wcrtomb\<close> keeps
  the low byte of a wide character. A format that ends within a conversion makes the scan
  step over its terminator, which is undefined.
\<close>

definition convert :: "char \<Rightarrow> u32 \<Rightarrow> int \<Rightarrow> int \<Rightarrow> va_arg list \<Rightarrow> (string \<times> va_arg list) option" where
  "convert c flags width len args =
     (if c = NUL then None
      else if c = CHR ''c'' then do {
        (v, args) \<leftarrow> va_int args;
        Some (if len < LONG_LEN then [low_char v] else c_string [low_char v], args)
      }
      else if c = CHR ''s'' then
        (if len < LONG_LEN then do {
           (v, args) \<leftarrow> va_string args;
           Some (case v of None \<Rightarrow> ''<NULL>'' | Some s \<Rightarrow> c_string s, args)
         } else do {
           (v, args) \<leftarrow> va_wstring args;
           Some (case v of None \<Rightarrow> ''<NULL>'' | Some s \<Rightarrow> map low_char (takeWhile (\<lambda>x. x \<noteq> 0) s), args)
         })
      else if c = CHR ''p'' then do {
        (v, args) \<leftarrow> va_int args;
        s \<leftarrow> format_hex (scast v) width (ALT_FORM OR LCASE);
        Some (s, args)
      }
      else if c = CHR ''X'' \<or> c = CHR ''x'' then do {
        sz \<leftarrow> type_size len;
        (v, args) \<leftarrow> (if 8 \<le> sz then va_llong args
                      else do { (v, args) \<leftarrow> va_int args; Some (ucast v, args) });
        s \<leftarrow> format_hex v width (flags OR (of_char c AND LCASE));
        Some (s, args)
      }
      else if c = CHR ''d'' \<or> c = CHR ''i'' then do {
        sz \<leftarrow> type_size len;
        (v, args) \<leftarrow> va_int args;
        s \<leftarrow> format_decimal v width flags;
        Some (s, args)
      }
      else Some ([c], args))"

text \<open>One conversion conversion_spec after its percent sign.\<close>

definition conversion_spec :: "string \<Rightarrow> va_arg list \<Rightarrow> (string \<times> string \<times> va_arg list) option" where
  "conversion_spec fmt args =
     (let (flags, fmt) = fmt_flags 0 fmt;
          (width, fmt) = fmt_width 0 fmt;
          (len, fmt) = fmt_length INT_LEN fmt
      in do {
        (s, args) \<leftarrow> convert (first_char fmt) flags width len args;
        Some (s, tl fmt, args)
      })"

section \<open>Output\<close>

text \<open>A handler gets the characters written so far (\<open>ctx->len\<close>) and the next character.\<close>

type_synonym 's printf_handler = "u32 \<Rightarrow> char \<Rightarrow> 's \<Rightarrow> 's option"

definition cputchar :: "'s printf_handler \<Rightarrow> char \<Rightarrow> u32 \<times> 's \<Rightarrow> (u32 \<times> 's) option" where
  "cputchar handler c ctx =
     (let (len, s) = ctx in do { s \<leftarrow> handler len c s; Some (len + 1, s) })"

fun cputs :: "'s printf_handler \<Rightarrow> string \<Rightarrow> u32 \<times> 's \<Rightarrow> (u32 \<times> 's) option" where
  "cputs handler [] ctx = Some ctx"
| "cputs handler (c # s) ctx = do { ctx \<leftarrow> cputchar handler c ctx; cputs handler s ctx }"

lemma fmt_flags_length: "fmt_flags flags fmt = (flags', fmt') \<Longrightarrow> length fmt' \<le> length fmt"
  by (induction flags fmt rule: fmt_flags.induct) (auto split: if_splits intro: le_SucI)

lemma fmt_width_length: "fmt_width width fmt = (width', fmt') \<Longrightarrow> length fmt' \<le> length fmt"
  by (induction width fmt rule: fmt_width.induct) (auto split: if_splits intro: le_SucI)

lemma fmt_length_length: "fmt_length len fmt = (len', fmt') \<Longrightarrow> length fmt' \<le> length fmt"
  by (induction len fmt rule: fmt_length.induct) (auto split: if_splits intro: le_SucI)

lemma conversion_spec_length:
  "conversion_spec fmt args = Some (s, fmt', args') \<Longrightarrow> length fmt' \<le> length fmt"
  by (auto simp: conversion_spec_def Option.bind_eq_Some_conv split: prod.splits
      dest!: fmt_flags_length fmt_width_length fmt_length_length)

function vcprintf :: "'s printf_handler \<Rightarrow> string \<Rightarrow> va_arg list \<Rightarrow> u32 \<times> 's \<Rightarrow> (u32 \<times> 's) option" where
  "vcprintf handler [] args ctx = Some ctx"
| "vcprintf handler (c # fmt) args ctx =
     (if c \<noteq> CHR ''%'' then
        (case cputchar handler c ctx of None \<Rightarrow> None | Some ctx \<Rightarrow> vcprintf handler fmt args ctx)
      else
        (case conversion_spec fmt args of
           None \<Rightarrow> None
         | Some (s, fmt', args') \<Rightarrow>
             (case cputs handler s ctx of None \<Rightarrow> None | Some ctx \<Rightarrow> vcprintf handler fmt' args' ctx)))"
  by pat_completeness auto

termination vcprintf
  by (relation "measure (\<lambda>(_, fmt, _). length fmt)") (auto dest: conversion_spec_length)

definition buf_put :: "nat \<Rightarrow> char \<Rightarrow> string \<Rightarrow> string option" where
  "buf_put i c buf = (if i < length buf then Some (buf[i := c]) else None)"

definition printf_sputc :: "nat \<Rightarrow> u32 \<Rightarrow> string printf_handler" where
  "printf_sputc off max_len len c buf =
     (if len < max_len then buf_put (off + unat len) c buf else Some buf)"

definition vsnprintf :: "string \<Rightarrow> nat \<Rightarrow> u32 \<Rightarrow> string \<Rightarrow> va_arg list \<Rightarrow> (u32 \<times> string) option" where
  "vsnprintf buf off sz fmt args = do {
     (len, buf) \<leftarrow> vcprintf (printf_sputc off sz) fmt args (0, buf);
     if sz \<noteq> 0 then
       (let end = sz - 1;
            end = (if len < end then len else end)
        in do { buf \<leftarrow> buf_put (off + unat end) NUL buf; Some (len, buf) })
     else Some (len, buf)
   }"

definition vssnprintf :: "string \<Rightarrow> nat \<Rightarrow> u32 \<Rightarrow> string \<Rightarrow> va_arg list \<Rightarrow> (u32 \<times> string) option" where
  "vssnprintf buf off ssize fmt args =
     (let ssize = (if sint ssize < 0 then 0 else ssize) in vsnprintf buf off ssize fmt args)"

text \<open>The status (\<open>None\<close> is success), the length and the string.\<close>

definition vasprintf :: "nat \<Rightarrow> 'z discarder list \<Rightarrow> string \<Rightarrow> va_arg list \<Rightarrow> 'z heap_state_scheme \<Rightarrow>
    (rc \<times> u32 \<times> u32 \<times> 'z heap_state_scheme) option" where
  "vasprintf n D fmt args h = do {
     (len, _) \<leftarrow> vsnprintf [] 0 0 fmt args;
     let len = len + 1;
     (strp, h) \<leftarrow> malloc n D len h;
     if strp = 0 then Some (Err ENOMEM, 0, 0, h)
     else do {
       (len', buf) \<leftarrow> vsnprintf (map char_of (map unat (mem_read (memory h) strp (unat len)))) 0 len fmt args;
       Some (OK, len', strp, mem_upd (\<lambda>m. mem_write m strp (map of_char buf)) h)
     }
   }"

section \<open>Lemmas\<close>

declare hex_digits.simps [simp del] dec_digits.simps [simp del]

text \<open>The characters a format produces, without the machinery of contexts and buffers.\<close>

function formatted :: "string \<Rightarrow> va_arg list \<Rightarrow> string option" where
  "formatted [] args = Some []"
| "formatted (c # fmt) args =
     (if c \<noteq> CHR ''%'' then map_option ((#) c) (formatted fmt args)
      else
        (case conversion_spec fmt args of
           None \<Rightarrow> None
         | Some (s, fmt', args') \<Rightarrow> map_option ((@) s) (formatted fmt' args')))"
  by pat_completeness auto

termination formatted
  by (relation "measure (\<lambda>(fmt, _). length fmt)") (auto dest: conversion_spec_length)

lemma cputs_append: "cputs h (a @ b) ctx = Option.bind (cputs h a ctx) (cputs h b)"
proof (induction a arbitrary: ctx)
  case (Cons c a)
  then show ?case by (cases "cputchar h c ctx") simp_all
qed simp

lemma vcprintf_formatted:
  "vcprintf h fmt args ctx = Option.bind (formatted fmt args) (\<lambda>out. cputs h out ctx)"
proof (induction fmt args arbitrary: ctx rule: formatted.induct)
  case (2 c fmt args)
  show ?case
  proof (cases "c = CHR ''%''")
    case False
    show ?thesis
      using 2(1) [OF False] False by (cases "cputchar h c ctx"; cases "formatted fmt args") simp_all
  next
    case True
    show ?thesis
    proof (cases "conversion_spec fmt args")
      case (Some r)
      obtain s fmt' args' where r: "r = (s, fmt', args')" by (cases r)
      have "vcprintf h fmt' args' ctx' = Option.bind (formatted fmt' args') (\<lambda>out. cputs h out ctx')" for ctx'
        using 2(2) True Some r by blast
      then show ?thesis
        using True Some r by (cases "cputs h s ctx"; cases "formatted fmt' args'") (simp_all add: cputs_append)
    qed (simp add: True)
  qed
qed simp

lemma patch_Nil [simp]: "patch j [] bs = bs"
  by (simp add: patch_def)

lemma patch_Cons: "j < length bs \<Longrightarrow> patch (Suc j) cs (bs[j := c]) = patch j (c # cs) bs"
  by (simp add: patch_def take_Suc_conv_app_nth)

lemma cputs_sputc:
  assumes "off + unat sz \<le> length buf" "unat len + length out < 2 ^ 32"
  shows "cputs (printf_sputc off sz) out (len, buf) =
    Some (len + of_nat (length out), patch (off + unat len) (take (unat sz - unat len) out) buf)"
  using assms
proof (induction out arbitrary: len buf)
  case (Cons c out)
  have l: "unat (len + 1) = Suc (unat len)"
    using Cons.prems(2) by (simp add: unat_word_ariths)
  show ?case
  proof (cases "len < sz")
    case True
    then have b: "off + unat len < length buf" using Cons.prems(1) by (simp add: word_less_nat_alt)
    obtain k where t: "unat sz - unat len = Suc k" "unat sz - Suc (unat len) = k"
      using True by (cases "unat sz - unat len") (auto simp: word_less_nat_alt)
    show ?thesis
      using Cons.IH [of "buf[off + unat len := c]" "len + 1"] Cons.prems True b l
      by (simp add: cputchar_def printf_sputc_def buf_put_def patch_Cons t)
  next
    case False
    then show ?thesis
      using Cons.IH [of buf "len + 1"] Cons.prems l
      by (simp add: cputchar_def printf_sputc_def word_less_nat_alt)
  qed
qed (simp add: patch_def)

lemma patch_update: "off + length cs \<le> length bs \<Longrightarrow> i < length cs \<Longrightarrow> (patch off cs bs)[off + i := c] = patch off (cs[i := c]) bs"
  by (simp add: patch_def list_update_append)

lemma patch_snoc: "off + length cs < length bs \<Longrightarrow> (patch off cs bs)[off + length cs := c] = patch off (cs @ [c]) bs"
  using Cons_nth_drop_Suc [of "off + length cs" bs, symmetric] by (simp add: patch_def list_update_append)

lemma vsnprintf_formatted:
  assumes "formatted fmt args = Some out" "length out < 2 ^ 32" "sz \<noteq> 0 \<Longrightarrow> off + unat sz \<le> length buf"
  shows "vsnprintf buf off sz fmt args =
    Some (of_nat (length out), if sz = 0 then buf else patch off (take (unat sz - 1) out @ [NUL]) buf)"
proof (cases "sz = 0")
  case True
  have "cputs (printf_sputc off 0) s (len, buf) = Some (len + of_nat (length s), buf)" for s len
    by (induction s arbitrary: len) (simp_all add: cputchar_def printf_sputc_def)
  then show ?thesis using assms True by (simp add: vsnprintf_def vcprintf_formatted)
next
  case False
  let ?len = "of_nat (length out) :: u32"
  note buf = assms(3) [OF False]
  have len: "unat ?len = length out" using assms(2) by (simp add: unsigned_of_nat take_bit_nat_eq_self)
  have sz: "unat (sz - 1) = unat sz - 1" "0 < unat sz" using False by (simp_all add: unat_minus_one unat_gt_0)
  have put: "buf_put (off + unat (if ?len < sz - 1 then ?len else sz - 1)) NUL (patch off (take (unat sz) out) buf) =
      Some (patch off (take (unat sz - 1) out @ [NUL]) buf)"
  proof (cases "length out < unat sz")
    case True
    then have "unat (if ?len < sz - 1 then ?len else sz - 1) = length out"
      using len sz by (auto simp: word_less_nat_alt)
    then show ?thesis using True buf sz patch_snoc [of off out buf NUL]
      by (simp add: buf_put_def)
  next
    case False
    then have i: "unat (if ?len < sz - 1 then ?len else sz - 1) = unat sz - 1"
      using len sz by (auto simp: word_less_nat_alt)
    have "(take (unat sz) out)[unat sz - 1 := NUL] = take (unat sz - 1) out @ [NUL]"
      using False sz(2) by (cases "unat sz") (auto simp: take_Suc_conv_app_nth list_update_append)
    then show ?thesis using False buf sz patch_update [of off "take (unat sz) out" buf "unat sz - 1" NUL] i
      by (simp add: buf_put_def)
  qed
  then show ?thesis using assms(1,2) buf cputs_sputc [of off sz buf 0 out] False
    by (simp add: vsnprintf_def vcprintf_formatted)
qed


subsection \<open>Numbers\<close>

lemma of_char_char_of [simp]: "of_char (char_of k :: char) = k mod 256" for k :: nat
  by simp

lemma schar_char_of: "k < 128 \<Longrightarrow> schar (char_of k) = int k" for k :: nat
proof -
  assume "k < 128"
  then have "of_char (char_of k :: char) = k" by simp
  then have "uchar (char_of k) = int k" unfolding uchar_def by (metis of_nat_of_char)
  then show ?thesis using \<open>k < 128\<close> by (simp add: schar_def)
qed

lemma digit_value_dec: "d < 10 \<Longrightarrow> digit_value (of_int (schar (char_of (48 + d)))) = of_nat d" for d :: nat
proof -
  assume d: "d < 10"
  then have "schar (char_of (48 + d)) = 48 + int d" using schar_char_of [of "48 + d"] by simp
  moreover have "d = 0 \<or> d = 1 \<or> d = 2 \<or> d = 3 \<or> d = 4 \<or> d = 5 \<or> d = 6 \<or> d = 7 \<or> d = 8 \<or> d = 9" using d by arith
  ultimately show ?thesis by (auto simp: digit_value_def)
qed

lemma strtoul_dec_digits: "strtoul_digits 10 0 (dec_digits k ptr) = strtoul_digits 10 (of_nat k) ptr"
proof (induction k ptr rule: dec_digits.induct)
  case (1 k ptr)
  have d: "digit_value (of_int (schar (char_of (48 + k mod 10)))) = (of_nat (k mod 10) :: u32)"
    by (rule digit_value_dec) simp
  have lt: "\<not> 10 \<le> (of_nat (k mod 10) :: u32)"
  proof -
    have "unat (of_nat (k mod 10) :: u32) < 10" by (simp add: unsigned_of_nat take_bit_nat_eq_self)
    then show ?thesis by (simp add: word_le_nat_alt)
  qed
  have "of_nat k = (of_nat (k div 10) * 10 + of_nat (k mod 10) :: u32)"
    by (metis div_mult_mod_eq of_nat_add of_nat_mult of_nat_numeral)
  then show ?case using 1 d lt by (cases "k div 10 = 0") (simp_all add: dec_digits.simps [of k] Let_def)
qed

lemma dec_digits_first: "\<exists>d s. dec_digits k ptr = d # s \<and> digit_value (of_int (schar d)) < 10"
proof (induction k ptr rule: dec_digits.induct)
  case (1 k ptr)
  have "digit_value (of_int (schar (char_of (48 + k mod 10)))) < 10"
    using digit_value_dec [of "k mod 10"] by (simp add: word_less_nat_alt unsigned_of_nat take_bit_nat_eq_self)
  then show ?case using 1 by (fastforce simp: dec_digits.simps [of k ptr] Let_def)
qed

lemma uchar_low_char: "uchar (low_char v) = int (unat (ucast v :: u8))"
proof -
  have "unat (ucast v :: u8) < 256" using unsigned_less [of "ucast v :: u8"] by simp
  then have "of_char (low_char v) = unat (ucast v :: u8)" by (simp add: low_char_def)
  then show ?thesis unfolding uchar_def by (metis of_nat_of_char)
qed

lemma hex_values:
  assumes "d < 16"
  shows "digit_value (of_int (schar (low_char (of_char (''0123456789ABCDEF'' ! d) :: u32)))) = of_nat d"
    "digit_value (of_int (schar (low_char (of_char (''0123456789ABCDEF'' ! d) OR 32 :: u32)))) = of_nat d"
proof -
  have "d \<in> {0,1,2,3,4,5,6,7,8,9,10,11,12,13,14,15}"
    unfolding insert_iff empty_iff using assms by arith
  then show "digit_value (of_int (schar (low_char (of_char (''0123456789ABCDEF'' ! d) :: u32)))) = of_nat d"
    "digit_value (of_int (schar (low_char (of_char (''0123456789ABCDEF'' ! d) OR 32 :: u32)))) = of_nat d"
    by (elim insertE emptyE; simp only:; simp add: schar_def uchar_low_char digit_value_def)+
qed

lemma and_exp_cases: "x AND 2 ^ n = (if bit x n then 2 ^ n else 0)" for x :: "'a::len word"
  by (rule bit_word_eqI) (auto simp: bit_simps)

lemma flag_cases:
  "flags AND LCASE = 0 \<or> flags AND LCASE = 32" "flags AND ZPAD = 0 \<or> flags AND ZPAD = 16"
  using and_exp_cases [of flags 5] and_exp_cases [of flags 4] by (auto simp: LCASE_def ZPAD_def)

lemma unat_nibble: "unat (num AND 0xf) = unat num mod 16" for num :: u64
proof -
  have "num AND 0xf = take_bit 4 num" by (simp add: take_bit_eq_mask mask_eq_exp_minus_1)
  moreover have "unat (take_bit 4 num) = unat num mod 16"
    unfolding unsigned_take_bit_eq by (simp only: take_bit_eq_mod) simp
  ultimately show ?thesis by simp
qed

lemma hex_digit_value:
  assumes "cm = 0 \<or> cm = 32"
  shows "digit_value (of_int (schar (hex_digit num cm))) = of_nat (unat num mod 16)"
proof -
  show ?thesis using hex_values [of "unat num mod 16"] assms unat_nibble [of num] by (auto simp: hex_digit_def)
qed

lemma strtoul_hex_digits:
  assumes "cm = 0 \<or> cm = 32"
  shows "strtoul_digits 16 0 (hex_digits cm num ptr) = strtoul_digits 16 (of_nat (unat num)) ptr"
  using assms
proof (induction cm num ptr rule: hex_digits.induct)
  case (1 cm num ptr)
  define k where "k = unat num"
  have "unat (of_nat (k mod 16) :: u32) < 16" by (simp add: unsigned_of_nat take_bit_nat_eq_self)
  then have lt: "\<not> 16 \<le> (of_nat (k mod 16) :: u32)" by (simp add: word_le_nat_alt)
  have dv: "unat (drop_bit 4 num) = k div 16" by (simp add: k_def drop_bit_eq_div unat_div)
  have k: "of_nat k = (of_nat (k div 16) * 16 + of_nat (k mod 16) :: u32)"
    by (metis div_mult_mod_eq of_nat_add of_nat_mult of_nat_numeral)
  have d: "digit_value (of_int (schar (hex_digit num cm))) = of_nat (k mod 16)"
    using hex_digit_value [OF 1(2), of num] by (simp only: k_def)
  have step: "strtoul_digits 16 v (hex_digit num cm # ptr) = strtoul_digits 16 (v * 16 + of_nat (k mod 16)) ptr" for v
    using d lt by (simp only: strtoul_digits.simps Let_def if_False)
  show ?case
  proof (cases "drop_bit 4 num = 0")
    case True
    then have "k div 16 = 0" using dv by simp
    then have "of_nat k = (0 * 16 + of_nat (k mod 16) :: u32)" using k by simp
    then show ?thesis using True step [of 0] by (simp only: hex_digits.simps [of cm num ptr] Let_def k_def simp_thms if_False)
  next
    case False
    then show ?thesis
      using 1(1) [OF refl refl _ 1(2)] step [of "of_nat (k div 16)"] k dv
      by (simp only: hex_digits.simps [of cm num ptr] Let_def k_def simp_thms if_True)
  qed
qed

lemma hex_digits_first:
  assumes "cm = 0 \<or> cm = 32"
  shows "\<exists>d s. hex_digits cm num ptr = d # s \<and> digit_value (of_int (schar d)) < 16"
  using assms
proof (induction cm num ptr rule: hex_digits.induct)
  case (1 cm num ptr)
  have "digit_value (of_int (schar (hex_digit num cm))) < 16"
    using hex_digit_value [OF 1(2), of num] by (simp add: word_less_nat_alt unsigned_of_nat take_bit_nat_eq_self)
  then show ?case using 1 by (auto simp: hex_digits.simps [of cm num ptr] Let_def)
qed

text \<open>Padding before a number is skipped by the scan: spaces as such, zeros as digits.\<close>

lemma strtoul_digits_zeros:
  "1 < base \<Longrightarrow> strtoul_digits base 0 (replicate k (CHR ''0'') @ s) = strtoul_digits base 0 s"
proof (induction k)
  case (Suc k)
  have "digit_value (of_int (schar (CHR ''0''))) = 0" by (simp add: digit_value_def schar_def uchar_def)
  then show ?case using Suc by (auto simp: word_less_nat_alt word_le_nat_alt)
qed simp

lemma dropWhile_spaces:
  "\<not> isspace (schar (first_char s)) \<Longrightarrow>
    dropWhile (\<lambda>c. isspace (schar c)) (replicate k (CHR '' '') @ s) = s"
proof (induction k)
  case 0
  then show ?case by (cases s) auto
qed (simp add: isspace_def schar_def uchar_def)

lemma pad_char: "low_char ((flags AND ZPAD) OR 0x20) = (if flags AND ZPAD = 0 then CHR '' '' else CHR ''0'')"
proof -
  have "uchar (low_char (0x20 :: u32)) = uchar (CHR '' '')" "uchar (low_char (0x30 :: u32)) = uchar (CHR ''0'')"
    unfolding uchar_low_char by (simp_all add: uchar_def)
  then show ?thesis using flag_cases(2) [of flags] by auto
qed

lemma strtoul_padded:
  assumes "2 \<le> base" "base \<le> 36" "digit_value (of_int (schar (first_char s))) < base"
  shows "strtoul (replicate k (low_char ((flags AND ZPAD) OR 0x20)) @ s) base = strtoul_digits base 0 s"
proof -
  have no: "schar (first_char s) \<noteq> x" if "x \<in> {0x2b, 0x2d, 0x20, 0x0c, 0x0a, 0x0d, 0x09, 0x0b}" for x
  proof -
    have "36 < digit_value (of_int x)" using that by (elim insertE emptyE; simp only:; simp add: digit_value_def)
    then show ?thesis using assms(2,3) by (metis less_le_trans less_asym)
  qed
  have sp: "\<not> isspace (schar (first_char s))" unfolding isspace_def using no by simp
  have sg: "first_char s \<noteq> CHR ''-''" "first_char s \<noteq> CHR ''+''"
    using no [of "0x2d"] no [of "0x2b"] by (auto simp: schar_def uchar_def)
  have ns: "\<not> isspace (schar (CHR ''0''))" by (simp add: isspace_def schar_def uchar_def)
  have base: "base \<noteq> 0" "1 < base" using assms(1) by (auto simp: word_le_nat_alt word_less_nat_alt)
  show ?thesis
  proof (cases "flags AND ZPAD = 0")
    case True
    then show ?thesis unfolding pad_char using sp sg base by (simp add: strtoul_def strtoul_pre_def dropWhile_spaces Let_def)
  next
    case False
    then have "strtoul (replicate k (low_char ((flags AND ZPAD) OR 0x20)) @ s) base =
        strtoul_digits base 0 (replicate k (CHR ''0'') @ s)"
      unfolding pad_char using sp sg ns base dropWhile_spaces [OF sp, of 0]
      by (cases k) (simp_all add: strtoul_def strtoul_pre_def Let_def)
    then show ?thesis using strtoul_digits_zeros [OF base(2)] by simp
  qed
qed

lemma strtoul_format_hex:
  assumes "format_hex num width flags = Some s" "flags AND ALT_FORM = 0"
  shows "strtoul s 16 = (ucast num, [])"
proof -
  have cm: "flags AND LCASE = 0 \<or> flags AND LCASE = 32" by (rule flag_cases)
  obtain d r where d: "hex_digits (flags AND LCASE) num [] = d # r" "digit_value (of_int (schar d)) < 16"
    using hex_digits_first [OF cm] by blast
  have "s = replicate (nat (width - int (length (hex_digits (flags AND LCASE) num [])))) (low_char ((flags AND ZPAD) OR 0x20)) @
      hex_digits (flags AND LCASE) num []"
    using assms by (auto simp: format_hex_def in_tmp_buf_def Let_def split: if_splits)
  then have "strtoul s 16 = strtoul_digits 16 0 (hex_digits (flags AND LCASE) num [])"
    using strtoul_padded [of 16 "hex_digits (flags AND LCASE) num []"] d by simp
  then show ?thesis using strtoul_hex_digits [OF cm, of num "[]"] by simp
qed

lemma strtoul_format_decimal:
  assumes "format_decimal v width flags = Some s" "flags AND ZPAD = 0 \<or> 0 \<le> sint v"
  shows "strtoul s 10 = (v, [])"
proof -
  define ds where "ds = dec_digits (nat \<bar>sint v\<bar>) []"
  have digits: "strtoul_digits 10 0 ds = (of_nat (nat \<bar>sint v\<bar>), [])"
    unfolding ds_def strtoul_dec_digits by simp
  obtain d r where d: "ds = d # r" and dv: "digit_value (of_int (schar d)) < 10"
    using dec_digits_first [of _ "[]"] unfolding ds_def by blast
  show ?thesis
  proof (cases "sint v < 0")
    case False
    then have "s = replicate (nat (width - int (length ds))) (low_char ((flags AND ZPAD) OR 0x20)) @ ds"
      using assms by (auto simp: format_decimal_def in_tmp_buf_def Let_def ds_def split: if_splits)
    then have "strtoul s 10 = strtoul_digits 10 0 ds"
      using strtoul_padded [of 10 ds] d dv by simp
    then show ?thesis using digits False by simp
  next
    case True
    then have s: "s = replicate (nat (width - int (Suc (length ds)))) (CHR '' '') @ CHR ''-'' # ds"
      using assms pad_char [of flags] by (auto simp: format_decimal_def in_tmp_buf_def Let_def ds_def split: if_splits)
    have "\<not> isspace (schar (first_char (CHR ''-'' # ds)))" by (simp add: isspace_def schar_def uchar_def)
    then have "strtoul s 10 = (- fst (strtoul_digits 10 0 ds), snd (strtoul_digits 10 0 ds))"
      unfolding s by (simp add: strtoul_def strtoul_pre_def dropWhile_spaces Let_def split: prod.splits)
    then show ?thesis using digits True by simp
  qed
qed

text \<open>The sign of a negative number with zero padding replaces its first digit if nothing was padded.\<close>

lemma format_decimal_zpad_negative: "format_decimal (- 12) 2 ZPAD = Some ''-2''"
  using char_of_char [of "CHR ''2''"]
  by (simp add: format_decimal_def Let_def ZPAD_def dec_digits.simps in_tmp_buf_def tmp_buf_len_def)

section \<open>Theorems\<close>

text \<open>
  C27. Formatting into a buffer stays within the given size and terminates the string: exactly the
  longest prefix of the output that leaves room for the terminator is stored, the rest of the
  buffer is untouched, and the returned length is that of the whole output.
\<close>

theorem vsnprintf_correct:
  assumes "formatted fmt args = Some out" "length out < 2 ^ 32" "sz \<noteq> 0 \<Longrightarrow> off + unat sz \<le> length buf"
  shows "vsnprintf buf off sz fmt args =
    Some (of_nat (length out), if sz = 0 then buf else patch off (take (unat sz - 1) out @ [NUL]) buf)"
  using assms by (rule vsnprintf_formatted)

theorem vsnprintf_correct_witness:
  "vsnprintf (replicate 8 (CHR ''x'')) 1 5 ''drive %#02x'' [Arg_int 0x80] =
    Some (10, ''xdriv'' @ NUL # replicate 2 (CHR ''x''))"
proof -
  have "formatted ''drive %#02x'' [Arg_int 0x80] = Some ''drive 0x80''" by code_simp
  then show ?thesis
    using vsnprintf_correct [of "''drive %#02x''" "[Arg_int 0x80]" "''drive 0x80''" 5 1 "replicate 8 (CHR ''x'')"]
    by (simp add: patch_def)
qed

text \<open>
  C29. Scanning a number that was formatted in decimal gives the number back, whatever the padding,
  except for a negative number with zero padding.
\<close>

theorem decimal_roundtrip:
  assumes "format_decimal v width flags = Some s" "flags AND ZPAD = 0 \<or> 0 \<le> sint v"
  shows "strtoul s 10 = (v, [])"
  using assms by (rule strtoul_format_decimal)

theorem decimal_roundtrip_witness: "strtoul ''  -42'' 10 = (- 42, [])"
proof -
  have "format_decimal (- 42) 5 0 = Some ''  -42''" by code_simp
  then show ?thesis using decimal_roundtrip [of "- 42" 5 0] by simp
qed

end
