(* ===== verification/Uri.thy ===== *)
theory Uri
  imports Format
begin

text \<open>
  Uniform resource identifiers (\<open>src/src/core/uri.c\<close>), request parameter lists
  (\<open>src/src/core/params.c\<close>) and the current working URI (\<open>src/src/core/cwuri.c\<close>). The
  fields of a URI are C strings; \<open>None\<close> is a null field. Decoding is modelled on the bytes of
  the buffer that it reads and writes, and on strings; the parser works on strings. The
  allocations that hold the strings are made from the heap.
\<close>

section \<open>State\<close>

record parameter =
  param_key :: string
  param_value :: string
  param_flags :: u32

record parameters =
  params_name :: "string option"
  params_entries :: "parameter list"

record uri =
  uri_scheme :: "string option"
  uri_opaque :: "string option"
  uri_user :: "string option"
  uri_password :: "string option"
  uri_host :: "string option"
  uri_port :: "string option"
  uri_path :: "string option"
  uri_epath :: "string option"
  uri_equery :: "string option"
  uri_efragment :: "string option"
  uri_params :: "parameters option"

definition uri_empty :: uri where
  "uri_empty = \<lparr>uri_scheme = None, uri_opaque = None, uri_user = None, uri_password = None,
     uri_host = None, uri_port = None, uri_path = None, uri_epath = None, uri_equery = None,
     uri_efragment = None, uri_params = None\<rparr>"

datatype uri_fields =
    URI_SCHEME | URI_OPAQUE | URI_USER | URI_PASSWORD | URI_HOST | URI_PORT | URI_PATH
  | URI_EPATH | URI_EQUERY | URI_EFRAGMENT

definition all_fields :: "uri_fields list" where
  "all_fields = [URI_SCHEME, URI_OPAQUE, URI_USER, URI_PASSWORD, URI_HOST, URI_PORT, URI_PATH,
     URI_EPATH, URI_EQUERY, URI_EFRAGMENT]"

fun uri_field :: "uri \<Rightarrow> uri_fields \<Rightarrow> string option" where
  "uri_field u URI_SCHEME = uri_scheme u"
| "uri_field u URI_OPAQUE = uri_opaque u"
| "uri_field u URI_USER = uri_user u"
| "uri_field u URI_PASSWORD = uri_password u"
| "uri_field u URI_HOST = uri_host u"
| "uri_field u URI_PORT = uri_port u"
| "uri_field u URI_PATH = uri_path u"
| "uri_field u URI_EPATH = uri_epath u"
| "uri_field u URI_EQUERY = uri_equery u"
| "uri_field u URI_EFRAGMENT = uri_efragment u"

definition uri_is_absolute :: "uri \<Rightarrow> bool" where
  "uri_is_absolute u \<longleftrightarrow> uri_scheme u \<noteq> None"

section \<open>Request parameters\<close>

text \<open>Comparing a name with a null pointer is undefined, unless both are null.\<close>

fun find_parameters :: "string option \<Rightarrow> parameters list \<Rightarrow> parameters option option" where
  "find_parameters name [] = Some None"
| "find_parameters name (p # ps) =
     (case (params_name p, name) of
        (None, None) \<Rightarrow> Some (Some p)
      | (Some a, Some b) \<Rightarrow> if strcmp a b = 0 then Some (Some p) else find_parameters name ps
      | _ \<Rightarrow> None)"

definition claim_parameters :: "parameters \<Rightarrow> parameters list \<Rightarrow> parameters list" where
  "claim_parameters p ps = remove1 p ps"

section \<open>Decoding and encoding\<close>

text \<open>
  \<open>uri_decode\<close> on a buffer: the encoded string starts at position \<open>enc\<close>, the output goes to
  position \<open>out\<close> of the same buffer, and at most \<open>len\<close> bytes of it are stored.
\<close>

definition hexbuf :: "string \<Rightarrow> string" where
  "hexbuf s = take 2 (c_string s)"

text \<open>The character that an escape at the start of a string stands for, and its length.\<close>

definition decode_escape :: "string \<Rightarrow> char \<times> nat" where
  "decode_escape s =
     (let (v, rest) = strtoul (hexbuf s) 16;
          skip = length (hexbuf s) - length rest
      in (if skip \<noteq> 0 then low_char v else CHR ''%'', skip))"

function uri_decode :: "nat \<Rightarrow> nat \<Rightarrow> nat \<Rightarrow> nat \<Rightarrow> string \<Rightarrow> (nat \<times> string) option" where
  "uri_decode enc out len count buf =
     (if length buf \<le> enc then None
      else if buf ! enc = NUL then Some (count, buf)
      else
        (let (c, skip) = (if buf ! enc = CHR ''%'' then decode_escape (drop (Suc enc) buf) else (buf ! enc, 0))
         in if count < len
            then (if out + count < length buf
                  then uri_decode (Suc enc + skip) out len (Suc count) (buf[out + count := c])
                  else None)
            else uri_decode (Suc enc + skip) out len (Suc count) buf))"
  by pat_completeness auto

termination uri_decode
  by (relation "measure (\<lambda>(enc, _, _, _, buf). length buf - enc)") auto

text \<open>\<open>uri_decode_inplace\<close> on the buffer that starts with the field.\<close>

definition uri_decode_inplace :: "string \<Rightarrow> string option" where
  "uri_decode_inplace buf = do {
     (len, buf) \<leftarrow> uri_decode 0 0 (length (c_string buf)) 0 buf;
     buf_put len NUL buf
   }"

text \<open>The same on strings.\<close>

function decoded :: "string \<Rightarrow> string" where
  "decoded [] = []"
| "decoded (c # s) =
     (let (d, skip) = (if c = CHR ''%'' then decode_escape s else (c, 0))
      in d # decoded (drop skip s))"
  by pat_completeness auto

termination decoded
  by (relation "measure length") (auto simp: less_Suc_eq_le)

text \<open>\<open>escaped[]\<close>: the characters with a meaning to the parser, by field.\<close>

fun escaped :: "uri_fields \<Rightarrow> string option" where
  "escaped URI_SCHEME = Some ''/#:@?=&''"
| "escaped URI_OPAQUE = Some ''#''"
| "escaped URI_USER = Some ''/#:@?''"
| "escaped URI_PASSWORD = Some ''/#:@?''"
| "escaped URI_HOST = Some ''/#@?''"
| "escaped URI_PORT = Some ''/#:@?''"
| "escaped URI_PATH = Some ''#:@?''"
| "escaped _ = None"

definition uri_character_escaped :: "char \<Rightarrow> uri_fields \<Rightarrow> bool" where
  "uri_character_escaped c field =
     (if \<not> isprint (schar c) \<or> c = CHR '' '' then True
      else
        (case escaped field of
           None \<Rightarrow> False
         | Some e \<Rightarrow> c = CHR ''%'' \<or> strchr e (schar c) \<noteq> None))"

text \<open>
  \<open>uri_encode\<close> into a buffer at a position. The character is passed to the formatter as a
  signed \<open>char\<close>.
\<close>

fun uri_encode_loop :: "uri_fields \<Rightarrow> string \<Rightarrow> nat \<Rightarrow> u32 \<Rightarrow> string \<Rightarrow> (u32 \<times> string) option" where
  "uri_encode_loop field [] off remaining buf = Some (remaining, buf)"
| "uri_encode_loop field (c # raw) off remaining buf = do {
     (used, buf) \<leftarrow>
       (if uri_character_escaped c field
        then vssnprintf buf off remaining ''%%%02X'' [Arg_int (of_int (schar c))]
        else vssnprintf buf off remaining ''%c'' [Arg_int (of_int (schar c))]);
     uri_encode_loop field raw (off + unat used) (remaining - used) buf
   }"

definition uri_encode :: "uri_fields \<Rightarrow> string \<Rightarrow> nat \<Rightarrow> u32 \<Rightarrow> string \<Rightarrow> (u32 \<times> string) option" where
  "uri_encode field raw off len buf = do {
     buf \<leftarrow> (if 0 < sint len then buf_put off NUL buf else Some buf);
     (remaining, buf) \<leftarrow> uri_encode_loop field raw off len buf;
     Some (len - remaining, buf)
   }"

definition uri_encode_string :: "uri_fields \<Rightarrow> string \<Rightarrow> nat \<Rightarrow> u32 \<Rightarrow> string \<Rightarrow> (u32 \<times> string) option" where
  "uri_encode_string field s off len buf = uri_encode field s off len buf"

section \<open>Parsing\<close>

text \<open>Splitting at the first occurrence of a character.\<close>

definition cut :: "char \<Rightarrow> string \<Rightarrow> string \<times> string option" where
  "cut c s = (case strchr s (uchar c) of None \<Rightarrow> (s, None) | Some i \<Rightarrow> (take i s, Some (drop (Suc i) s)))"

text \<open>The position of the colon after the scheme of an absolute URI.\<close>

fun scheme_end :: "string \<Rightarrow> nat option" where
  "scheme_end [] = None"
| "scheme_end (c # s) =
     (if isalpha (schar c) \<or> c = CHR ''-'' \<or> c = CHR ''_'' then map_option Suc (scheme_end s)
      else if c = CHR '':'' then Some 0
      else None)"

definition decode_field :: "string option \<Rightarrow> string option" where
  "decode_field f = map_option (\<lambda>s. c_string (decoded s)) f"

definition decode_fields :: "uri \<Rightarrow> uri" where
  "decode_fields u = u\<lparr>uri_scheme := decode_field (uri_scheme u), uri_opaque := decode_field (uri_opaque u),
     uri_user := decode_field (uri_user u), uri_password := decode_field (uri_password u),
     uri_host := decode_field (uri_host u), uri_port := decode_field (uri_port u),
     uri_path := decode_field (uri_path u)\<rparr>"

definition parse_params :: "string \<Rightarrow> parameters list \<Rightarrow> (string \<times> parameters option \<times> parameters list) option" where
  "parse_params raw ps =
     (case strstr raw ''##params'' of
        None \<Rightarrow> Some (raw, None, ps)
      | Some i \<Rightarrow>
          (let tmp = drop (i + 8) raw in do {
             params \<leftarrow> find_parameters (if tmp \<noteq> [] then Some (tl tmp) else None) ps;
             Some (take i raw, params, case params of None \<Rightarrow> ps | Some p \<Rightarrow> claim_parameters p ps)
           }))"

text \<open>Splitting off the port, unless the host is a bracketed address.\<close>

definition parse_host :: "string \<Rightarrow> uri \<Rightarrow> uri" where
  "parse_host host u =
     (case strrchr host (uchar (CHR '':'')) of
        Some i \<Rightarrow>
          if host ! (length host - 1) \<noteq> CHR '']''
          then u\<lparr>uri_host := Some (take i host), uri_port := Some (drop (Suc i) host)\<rparr>
          else u\<lparr>uri_host := Some host\<rparr>
      | None \<Rightarrow> u\<lparr>uri_host := Some host\<rparr>)"

definition parse_authority :: "string \<Rightarrow> uri \<Rightarrow> uri" where
  "parse_authority authority u =
     (let (user, host) = (case cut (CHR ''@'') authority of
                            (host, None) \<Rightarrow> (None, host)
                          | (user, Some host) \<Rightarrow> (Some user, host));
          u = (case user of
                 None \<Rightarrow> u
               | Some user \<Rightarrow>
                   (let (user, password) = cut (CHR '':'') user
                    in u\<lparr>uri_user := Some user, uri_password := password\<rparr>))
      in parse_host host u)"

definition parse_hierarchical :: "string \<Rightarrow> uri \<Rightarrow> uri" where
  "parse_hierarchical epath u =
     (let (epath, query) = cut (CHR ''?'') epath;
          u = u\<lparr>uri_equery := query\<rparr>
      in if epath = [] then u
         else if uri_scheme u \<noteq> None \<and> strncmp epath ''//'' 2 = 0 then
           (let authority = drop 2 epath
            in case strchr authority (uchar (CHR ''/'')) of
                 Some i \<Rightarrow> parse_authority (take i authority)
                             (u\<lparr>uri_epath := Some (drop i authority), uri_path := Some (drop i authority)\<rparr>)
               | None \<Rightarrow> parse_authority authority u)
         else u\<lparr>uri_epath := Some epath, uri_path := Some epath\<rparr>)"

text \<open>A URI without its fragment: absolute and opaque, or hierarchical.\<close>

definition parse_body :: "string \<Rightarrow> uri \<Rightarrow> uri" where
  "parse_body raw u =
     (case scheme_end raw of
        Some i \<Rightarrow>
          (let u = u\<lparr>uri_scheme := Some (take i raw)\<rparr>;
               tmp = drop (Suc i) raw
           in if first_char tmp = CHR ''/'' then parse_hierarchical tmp u
              else u\<lparr>uri_opaque := Some tmp\<rparr>)
      | None \<Rightarrow> parse_hierarchical raw u)"

text \<open>The fields of a URI string, and the parameter lists that are left.\<close>

definition parse_fields :: "string \<Rightarrow> parameters list \<Rightarrow> (uri \<times> parameters list) option" where
  "parse_fields s ps = do {
     (raw, params, ps) \<leftarrow> parse_params s ps;
     let (raw, fragment) = cut (CHR ''#'') raw;
     let u = uri_empty\<lparr>uri_params := params, uri_efragment := fragment\<rparr>;
     let u = parse_body raw u;
     Some (decode_fields u, ps)
   }"

definition sizeof_uri :: u32 where "sizeof_uri = 52"

text \<open>The URI, or \<open>None\<close> when there is no memory for it.\<close>

definition parse_uri :: "nat \<Rightarrow> 'z discarder list \<Rightarrow> string \<Rightarrow> parameters list \<Rightarrow> 'z heap_state_scheme \<Rightarrow>
    (uri option \<times> parameters list \<times> 'z heap_state_scheme) option" where
  "parse_uri n D s ps h =
     (let raw_len = strlen s + 1 in do {
        (p, h) \<leftarrow> zalloc n D (sizeof_uri + 2 * raw_len) h;
        if p = 0 then Some (None, ps, h)
        else do {
          (u, ps) \<leftarrow> parse_fields s ps;
          Some (Some u, ps, h)
        }
      })"

definition get_uri_port :: "uri option \<Rightarrow> u32 \<Rightarrow> u32" where
  "get_uri_port u default_port =
     (case u of
        None \<Rightarrow> default_port
      | Some u \<Rightarrow> (case uri_port u of None \<Rightarrow> default_port | Some port \<Rightarrow> fst (strtoul port 0)))"

section \<open>Formatting\<close>

fun prefixes :: "uri_fields \<Rightarrow> char option" where
  "prefixes URI_PASSWORD = Some (CHR '':'')"
| "prefixes URI_PORT = Some (CHR '':'')"
| "prefixes URI_EQUERY = Some (CHR ''?'')"
| "prefixes URI_EFRAGMENT = Some (CHR ''#'')"
| "prefixes _ = None"

fun format_fields :: "uri \<Rightarrow> u32 \<Rightarrow> uri_fields list \<Rightarrow> u32 \<Rightarrow> string \<Rightarrow> (u32 \<times> string) option" where
  "format_fields u len [] used buf = Some (used, buf)"
| "format_fields u len (field # fs) used buf =
     (case uri_field u field of
        None \<Rightarrow> format_fields u len fs used buf
      | Some s \<Rightarrow>
          if field = URI_PATH \<and> uri_epath u \<noteq> None then format_fields u len fs used buf
          else
            (let prefix = (if field = URI_HOST \<and> uri_user u \<noteq> None then Some (CHR ''@'') else prefixes field)
             in do {
               (used, buf) \<leftarrow>
                 (case prefix of
                    None \<Rightarrow> Some (used, buf)
                  | Some c \<Rightarrow> do {
                      (k, buf) \<leftarrow> vssnprintf buf (unat used) (len - used) ''%c'' [Arg_int (of_int (schar c))];
                      Some (used + k, buf)
                    });
               (k, buf) \<leftarrow> uri_encode_string field s (unat used) (len - used) buf;
               let used = used + k;
               (used, buf) \<leftarrow>
                 (if field = URI_SCHEME then do {
                    (k, buf) \<leftarrow> vssnprintf buf (unat used) (len - used) '':%s''
                       [Arg_string (Some (if uri_host u \<noteq> None then ''//'' else []))];
                    Some (used + k, buf)
                  } else Some (used, buf));
               format_fields u len fs used buf
             }))"

definition format_uri :: "uri option \<Rightarrow> u32 \<Rightarrow> string \<Rightarrow> (u32 \<times> string) option" where
  "format_uri u len buf = do {
     buf \<leftarrow> (if len \<noteq> 0 then buf_put 0 NUL buf else Some buf);
     (case u of
        None \<Rightarrow> Some (0, buf)
      | Some u \<Rightarrow> format_fields u len all_fields 0 buf)
   }"

text \<open>The address of the string (0 without memory).\<close>

definition format_uri_alloc :: "nat \<Rightarrow> 'z discarder list \<Rightarrow> uri option \<Rightarrow> 'z heap_state_scheme \<Rightarrow>
    (u32 \<times> 'z heap_state_scheme) option" where
  "format_uri_alloc n D u h = do {
     (len, _) \<leftarrow> format_uri u 0 [];
     let len = len + 1;
     (p, h) \<leftarrow> malloc n D len h;
     if p = 0 then Some (0, h)
     else do {
       (_, buf) \<leftarrow> format_uri u len (map char_of (map unat (mem_read (memory h) p (unat len))));
       Some (p, mem_upd (\<lambda>m. mem_write m p (map of_char buf)) h)
     }
   }"

section \<open>Copies and resolution\<close>

text \<open>The length of a URI with copies of all its fields.\<close>

definition uri_copy_fields :: "uri \<Rightarrow> u32" where
  "uri_copy_fields u =
     fold (\<lambda>field len. case uri_field u field of None \<Rightarrow> len | Some s \<Rightarrow> len + (strlen s + 1))
       all_fields sizeof_uri"

definition uri_dup :: "nat \<Rightarrow> 'z discarder list \<Rightarrow> uri \<Rightarrow> 'z heap_state_scheme \<Rightarrow>
    (uri option \<times> 'z heap_state_scheme) option" where
  "uri_dup n D u h = do {
     (p, h) \<leftarrow> zalloc n D (uri_copy_fields u) h;
     Some (if p = 0 then None else Some u, h)
   }"

text \<open>Leading \<open>./\<close> and \<open>../\<close> elements of a relative path strip directories off the base.\<close>

fun strip_dots :: "string \<Rightarrow> string \<Rightarrow> string \<times> string" where
  "strip_dots base (c1 # c2 # c3 # s) =
     (if c1 \<noteq> CHR ''.'' then (base, c1 # c2 # c3 # s)
      else if c2 = CHR ''/'' then strip_dots base (c3 # s)
      else if c2 \<noteq> CHR ''.'' then (base, c1 # c2 # c3 # s)
      else if c3 = CHR ''/'' then strip_dots (dirname base) s
      else (base, c1 # c2 # c3 # s))"
| "strip_dots base [c1, c2] =
     (if c1 \<noteq> CHR ''.'' then (base, [c1, c2])
      else if c2 = CHR ''/'' then (base, [])
      else if c2 = CHR ''.'' then (dirname base, [])
      else (base, [c1, c2]))"
| "strip_dots base [c1] = (if c1 = CHR ''.'' then (base, []) else (base, [c1]))"
| "strip_dots base [] = (base, [])"

text \<open>The resolved path and its address (0 without memory).\<close>

definition resolved_path :: "string \<Rightarrow> string \<Rightarrow> string" where
  "resolved_path base_path relative_path =
     (if first_char relative_path = CHR ''/'' then relative_path
      else
        (let (base_tmp, rel) = strip_dots (dirname base_path) relative_path
         in base_tmp @ (if last base_tmp = CHR ''/'' then [] else ''/'') @ rel))"

definition resolve_path :: "nat \<Rightarrow> 'z discarder list \<Rightarrow> string \<Rightarrow> string \<Rightarrow> 'z heap_state_scheme \<Rightarrow>
    ((u32 \<times> string) option \<times> 'z heap_state_scheme) option" where
  "resolve_path n D base_path relative_path h =
     (if first_char relative_path = CHR ''/'' then do {
        (p, h) \<leftarrow> strdup n D relative_path h;
        Some (if p = 0 then None else Some (p, relative_path), h)
      } else do {
        (base_copy, h) \<leftarrow> strdup n D base_path h;
        if base_copy = 0 then Some (None, h)
        else
          (let (base_tmp, rel) = strip_dots (dirname base_path) relative_path in do {
             (rc, _, p, h) \<leftarrow> vasprintf n D ''%s%s%s''
                [Arg_string (Some base_tmp), Arg_string (Some (if last base_tmp = CHR ''/'' then [] else ''/'')),
                 Arg_string (Some rel)] h;
             h \<leftarrow> free base_copy h;
             Some (if rc \<noteq> OK then None else Some (p, resolved_path base_path relative_path), h)
           })
      })"

text \<open>
  The resolved URI, or \<open>None\<close> when there is no memory for it. The URI that is returned in
  place of an absolute one is a further reference to it.
\<close>

definition resolve_uri :: "nat \<Rightarrow> 'z discarder list \<Rightarrow> uri option \<Rightarrow> uri \<Rightarrow> 'z heap_state_scheme \<Rightarrow>
    (uri option \<times> 'z heap_state_scheme) option" where
  "resolve_uri n D base_uri relative_uri h =
     (case base_uri of
        None \<Rightarrow> Some (Some relative_uri, h)
      | Some base \<Rightarrow>
          if uri_is_absolute relative_uri then Some (Some relative_uri, h)
          else
            (case uri_epath relative_uri of
               Some rel \<Rightarrow> do {
                 (r, h) \<leftarrow> resolve_path n D (case uri_epath base of Some e \<Rightarrow> e | None \<Rightarrow> ''/'') rel h;
                 (case r of
                    None \<Rightarrow> Some (None, h)
                  | Some (tmp_epath, epath) \<Rightarrow> do {
                      (tmp_path, h) \<leftarrow> strdup n D epath h;
                      if tmp_path = 0 then do { h \<leftarrow> free tmp_epath h; Some (None, h) }
                      else do {
                        (u, h) \<leftarrow> uri_dup n D (base\<lparr>uri_epath := Some epath,
                            uri_path := Some (c_string (decoded epath)),
                            uri_equery := uri_equery relative_uri, uri_efragment := uri_efragment relative_uri,
                            uri_params := uri_params relative_uri\<rparr>) h;
                        h \<leftarrow> free tmp_path h;
                        h \<leftarrow> free tmp_epath h;
                        Some (u, h)
                      }
                    })
               }
             | None \<Rightarrow>
                 uri_dup n D
                   (if uri_equery relative_uri \<noteq> None then
                      base\<lparr>uri_equery := uri_equery relative_uri, uri_efragment := uri_efragment relative_uri,
                           uri_params := uri_params relative_uri\<rparr>
                    else if uri_efragment relative_uri \<noteq> None then
                      base\<lparr>uri_efragment := uri_efragment relative_uri, uri_params := uri_params relative_uri\<rparr>
                    else if uri_params relative_uri \<noteq> None then base\<lparr>uri_params := uri_params relative_uri\<rparr>
                    else base) h))"

section \<open>Specifications\<close>

text \<open>The hexadecimal digits that \<open>%02X\<close> makes of a character.\<close>

definition escape_digits :: "char \<Rightarrow> string" where
  "escape_digits c =
     (let ds = hex_digits 0 (ucast (of_int (schar c) :: u32)) [] in replicate (2 - length ds) (CHR ''0'') @ ds)"

definition encode_char :: "uri_fields \<Rightarrow> char \<Rightarrow> string" where
  "encode_char field c = (if uri_character_escaped c field then CHR ''%'' # escape_digits c else [c])"

definition encoded :: "uri_fields \<Rightarrow> string \<Rightarrow> string" where
  "encoded field s = concat (map (encode_char field) s)"

text \<open>
  What appending a string at a position of a bounded, terminated buffer leaves: the part of
  the string that fits, and a terminator.
\<close>

definition emit :: "nat \<Rightarrow> nat \<Rightarrow> string \<Rightarrow> string \<Rightarrow> string" where
  "emit len used s buf = (if used < len then patch used (take (len - used - 1) s @ [NUL]) buf else buf)"

text \<open>The string of a field, and of a URI.\<close>

definition field_prefix :: "uri \<Rightarrow> uri_fields \<Rightarrow> string" where
  "field_prefix u field =
     (case (if field = URI_HOST \<and> uri_user u \<noteq> None then Some (CHR ''@'') else prefixes field) of
        None \<Rightarrow> [] | Some c \<Rightarrow> [c])"

definition field_suffix :: "uri \<Rightarrow> uri_fields \<Rightarrow> string" where
  "field_suffix u field =
     (if field = URI_SCHEME then CHR '':'' # (if uri_host u \<noteq> None then ''//'' else []) else [])"

definition field_string :: "uri \<Rightarrow> uri_fields \<Rightarrow> string" where
  "field_string u field =
     (case uri_field u field of
        None \<Rightarrow> []
      | Some s \<Rightarrow>
          if field = URI_PATH \<and> uri_epath u \<noteq> None then []
          else field_prefix u field @ encoded field s @ field_suffix u field)"

definition uri_string :: "uri \<Rightarrow> string" where
  "uri_string u = concat (map (field_string u) all_fields)"

section \<open>Lemmas\<close>

declare uri_decode.simps [simp del]

lemma c_string_append: "NUL \<notin> set s \<Longrightarrow> c_string (s @ NUL # rest) = s"
  unfolding c_string_def by (induction s) auto

lemma c_string_id: "NUL \<notin> set s \<Longrightarrow> c_string s = s"
  unfolding c_string_def by (induction s) auto

lemma hexbuf_append: "NUL \<notin> set s \<Longrightarrow> hexbuf (s @ NUL # rest) = hexbuf s"
  by (simp add: hexbuf_def c_string_append c_string_id)

lemma decode_escape_append: "NUL \<notin> set s \<Longrightarrow> decode_escape (s @ NUL # rest) = decode_escape s"
  by (simp add: decode_escape_def hexbuf_append)

lemma decode_escape_skip: "decode_escape s = (c, skip) \<Longrightarrow> skip \<le> length s"
proof -
  assume "decode_escape s = (c, skip)"
  moreover have "length (hexbuf s) \<le> length s"
    unfolding hexbuf_def c_string_def by (metis (no_types, lifting) length_take length_takeWhile_le min.coboundedI1 min.commute)
  ultimately show ?thesis by (auto simp: decode_escape_def Let_def split: prod.splits)
qed

text \<open>
  Decoding within one buffer, the output not ahead of the input: the decoded string appears at
  the output, and what follows the input is untouched.
\<close>

lemma uri_decode_behind:
  assumes "drop enc buf = s @ NUL # rest" "NUL \<notin> set s" "out + count \<le> enc" "count + length s \<le> len"
  shows "\<exists>buf'. uri_decode enc out len count buf = Some (count + length (decoded s), buf') \<and>
    length buf' = length buf \<and> take (out + count + length (decoded s)) buf' = take (out + count) buf @ decoded s \<and>
    drop (enc + length s) buf' = NUL # rest \<and> length (decoded s) \<le> length s"
  using assms
proof (induction s arbitrary: enc count buf rule: decoded.induct)
  case 1
  then have "enc < length buf" "buf ! enc = NUL" by (auto simp: nth_via_drop intro: ccontr)
  then show ?case using 1 by (simp add: uri_decode.simps [of enc])
next
  case (2 c s)
  have enc: "enc < length buf" using "2.prems"(1) by (intro notI [THEN not_le_imp_less]) auto
  have c: "buf ! enc = c" "c \<noteq> NUL" using "2.prems"(1,2) by (auto simp: nth_via_drop)
  have tl: "drop (Suc enc) buf = s @ NUL # rest" using "2.prems"(1) by (metis append_Cons drop_Suc list.sel(3) tl_drop)
  obtain d skip where d: "(if c = CHR ''%'' then decode_escape s else (c, 0)) = (d, skip)" by fastforce
  have skip: "skip \<le> length s" using d decode_escape_skip by (auto split: if_splits)
  have dec: "decoded (c # s) = d # decoded (drop skip s)" using d by simp
  let ?buf = "buf[out + count := d]"
  have drop': "drop (Suc enc + skip) ?buf = drop skip s @ NUL # rest"
  proof -
    have "drop (Suc enc + skip) buf = drop skip (drop (Suc enc) buf)" by (simp add: add.commute)
    then show ?thesis using tl skip "2.prems"(3) by simp
  qed
  have "out + Suc count \<le> Suc enc + skip" "Suc count + length (drop skip s) \<le> len" "NUL \<notin> set (drop skip s)"
    using "2.prems"(2-4) skip by (auto dest: in_set_dropD)
  then obtain buf' where b: "uri_decode (Suc enc + skip) out len (Suc count) ?buf = Some (Suc count + length (decoded (drop skip s)), buf')"
      "length buf' = length ?buf" "take (out + Suc count + length (decoded (drop skip s))) buf' = take (out + Suc count) ?buf @ decoded (drop skip s)"
      "drop (Suc enc + skip + length (drop skip s)) buf' = NUL # rest" "length (decoded (drop skip s)) \<le> length (drop skip s)"
    using "2.IH" [OF d [symmetric] refl, of "Suc enc + skip" ?buf "Suc count"] drop' by auto
  have "uri_decode enc out len count buf = uri_decode (Suc enc + skip) out len (Suc count) ?buf"
    using enc c d tl "2.prems"(2-4) decode_escape_append [of s rest]
    by (subst uri_decode.simps) (auto split: if_splits)
  moreover have "take (out + Suc count) ?buf = take (out + count) buf @ [d]"
    using enc "2.prems"(3) by (simp add: take_Suc_conv_app_nth)
  ultimately show ?case using b skip dec enc "2.prems"(3) by (intro exI [of _ buf']) simp
qed

lemma uri_decode_inplace_decoded:
  assumes "NUL \<notin> set s"
  shows "\<exists>buf. uri_decode_inplace (s @ NUL # rest) = Some buf \<and>
    take (Suc (length (decoded s))) buf = decoded s @ [NUL] \<and> drop (Suc (length s)) buf = rest \<and>
    length (decoded s) \<le> length s"
proof -
  obtain b where b: "uri_decode 0 0 (length s) 0 (s @ NUL # rest) = Some (length (decoded s), b)"
      "length b = length s + Suc (length rest)" "take (length (decoded s)) b = decoded s"
      "drop (length s) b = NUL # rest" "length (decoded s) \<le> length s"
    using uri_decode_behind [of 0 "s @ NUL # rest" s rest 0 0 "length s"] assms by auto
  let ?b = "b[length (decoded s) := NUL]"
  have "take (Suc (length (decoded s))) ?b = decoded s @ [NUL]"
    using b(2,3,5) by (simp add: take_Suc_conv_app_nth)
  moreover have "drop (Suc (length s)) ?b = rest"
  proof -
    have "drop (Suc (length s)) b = rest" using b(4) by (metis drop_Suc list.sel(3) tl_drop)
    then show ?thesis using b(5) by simp
  qed
  ultimately show ?thesis
    using b(1,2,5) assms by (auto simp: uri_decode_inplace_def c_string_append buf_put_def)
qed

section \<open>Encoding\<close>

lemma length_hex_digits: "unat num < 16 ^ Suc k \<Longrightarrow> length (hex_digits cm num ptr) \<le> Suc k + length ptr"
proof (induction k arbitrary: num ptr)
  case 0
  have "unat (drop_bit 4 num) = unat num div 16" by (simp add: drop_bit_eq_div unat_div)
  then have "drop_bit 4 num = 0" using 0 by (simp add: unat_eq_0)
  then show ?case by (simp add: hex_digits.simps [of cm num ptr])
next
  case (Suc k)
  have "unat (drop_bit 4 num) = unat num div 16" by (simp add: drop_bit_eq_div unat_div)
  then have "unat (drop_bit 4 num) < 16 ^ Suc k" using Suc.prems by (simp add: less_mult_imp_div_less)
  from Suc.IH [OF this, of "hex_digit num cm # ptr"] show ?case
    by (simp add: hex_digits.simps [of cm num ptr] Let_def)
qed

lemma low_char_of_int: "uchar (low_char (of_int k :: u32)) = k mod 256"
  unfolding uchar_low_char by (simp add: unsigned_ucast_eq unsigned_of_int take_bit_eq_mod mod_mod_cancel)

lemma uchar_nat: "\<exists>k<256. uchar c = int k"
  unfolding uchar_def using of_nat_of_char [of c, symmetric] nat_of_char_less_256 by blast

lemma low_char_schar [simp]: "low_char (of_int (schar c) :: u32) = c"
proof -
  have "schar c mod 256 = uchar c" using uchar_nat [of c] by (auto simp: schar_def minus_mod_eq_div_mult)
  then show ?thesis using low_char_of_int [of "schar c"] by (metis uchar_inject)
qed

lemma fmt_chars: "schar (CHR ''c'') = 99" "schar (CHR ''X'') = 88" "schar (CHR ''%'') = 37" "schar (CHR ''2'') = 50" "schar (CHR ''s'') = 115"
  by (simp_all add: schar_def uchar_def)

lemmas format_evals = conversion_spec_def convert_def fmt_chars INT_LEN_def LONG_LEN_def NUL_def isdigit_def type_size_def

lemma formatted_char: "formatted ''%c'' [Arg_int (of_int (schar c))] = Some [c]"
  by (simp add: format_evals)

lemma escape_digits_hex: "format_hex (ucast (of_int (schar c) :: u32)) 2 ZPAD = Some (escape_digits c)"
proof -
  let ?ds = "hex_digits 0 (ucast (of_int (schar c) :: u32)) []"
  have "length ?ds \<le> 16"
    using length_hex_digits [of "ucast (of_int (schar c) :: u32)" 15 0 "[]"] unsigned_less [of "ucast (of_int (schar c) :: u32) :: u64"] by simp
  moreover have "nat (2 - int (length ?ds)) = 2 - length ?ds" by simp
  ultimately show ?thesis
    using pad_char [of ZPAD]
    by (simp add: format_hex_def escape_digits_def in_tmp_buf_def tmp_buf_len_def Let_def LCASE_def ZPAD_def ALT_FORM_def)
qed

lemma formatted_escape: "formatted ''%%%02X'' [Arg_int (of_int (schar c))] = Some (CHR ''%'' # escape_digits c)"
  using escape_digits_hex [of c] by (simp add: format_evals LCASE_def ZPAD_def)

lemma sint_u32:
  fixes v :: u32
  obtains k where "unat v = k" "k < 4294967296" "sint v = (if k < 2147483648 then int k else int k - 4294967296)"
proof -
  obtain k where k: "unat v = k" "k < 4294967296" using unsigned_less [of v] by simp
  have "sint v = signed_take_bit 31 (int k)" using k(1) [symmetric] by (simp add: sint_uint)
  also have "\<dots> = (int k + 2147483648) mod 4294967296 - 2147483648"
    by (simp add: signed_take_bit_eq_take_bit_shift take_bit_eq_mod)
  also have "(int k + 2147483648) mod 4294967296 = (if k < 2147483648 then int k + 2147483648 else int k - 2147483648)"
  proof (cases "k < 2147483648")
    case False
    have "(int k + 2147483648) mod 4294967296 = (int k - 2147483648 + 4294967296) mod 4294967296" by (simp add: add.commute)
    then show ?thesis using False k(2) by (simp only: mod_add_self2) simp
  qed simp
  finally show ?thesis using k that by (simp split: if_splits)
qed

lemma sint_pos:
  fixes v :: u32
  shows "0 < sint v \<longleftrightarrow> v \<noteq> 0 \<and> unat v < 2 ^ 31" "0 < sint v \<Longrightarrow> nat (sint v) = unat v"
    "sint v < 0 \<or> v = 0 \<or> 0 < sint v"
proof -
  obtain k where k: "unat v = k" "k < 4294967296" "sint v = (if k < 2147483648 then int k else int k - 4294967296)"
    by (rule sint_u32)
  moreover have "v = 0 \<longleftrightarrow> k = 0" using k(1) unat_eq_0 [of v] by simp
  ultimately show "0 < sint v \<longleftrightarrow> v \<noteq> 0 \<and> unat v < 2 ^ 31" "0 < sint v \<Longrightarrow> nat (sint v) = unat v"
    "sint v < 0 \<or> v = 0 \<or> 0 < sint v" by (auto split: if_splits)
qed

lemma vssnprintf_formatted:
  assumes "formatted fmt args = Some out" "length out < 2 ^ 32" "0 < sint ssize \<Longrightarrow> off + nat (sint ssize) \<le> length buf"
  shows "vssnprintf buf off ssize fmt args =
    Some (of_nat (length out), if 0 < sint ssize then patch off (take (nat (sint ssize) - 1) out @ [NUL]) buf else buf)"
proof (cases "0 < sint ssize")
  case True
  then have "nat (sint ssize) = unat ssize" "ssize \<noteq> 0" using sint_pos [of ssize] by auto
  then show ?thesis using vsnprintf_formatted [OF assms(1,2), of ssize off buf] assms(3) True
    by (simp add: vssnprintf_def)
next
  case False
  then have "(if sint ssize < 0 then 0 else ssize) = 0" using sint_pos(3) [of ssize] by auto
  then show ?thesis using vsnprintf_formatted [OF assms(1,2), of 0 off buf] False
    by (simp add: vssnprintf_def)
qed

lemma patch_patch:
  "off + length a < length buf \<Longrightarrow> b \<noteq> [] \<Longrightarrow> off + length a + length b \<le> length buf \<Longrightarrow>
    patch (off + length a) b (patch off (a @ [x]) buf) = patch off (a @ b) buf"
  by (cases b) (simp_all add: patch_def ac_simps)

lemma sint_diff:
  fixes v :: u32
  assumes "- (2 ^ 31) \<le> sint v - int k" "sint v - int k < 2 ^ 31"
  shows "sint (v - of_nat k) = sint v - int k"
proof -
  have "sint (of_int j :: u32) = j" if "- (2 ^ 31) \<le> j" "j < 2 ^ 31" for j
    using that by (simp add: signed_of_int signed_take_bit_int_eq_self)
  from this [OF assms] show ?thesis by simp
qed

lemma encode_char_nonempty [simp]: "encode_char field c \<noteq> []"
  by (simp add: encode_char_def)

lemma length_encode_char: "length (encode_char field c) \<le> 17"
proof -
  have "unat (ucast (of_int (schar c) :: u32) :: u64) < 16 ^ Suc 15" using unsigned_less [of "ucast (of_int (schar c) :: u32) :: u64"] by simp
  from length_hex_digits [OF this, of 0 "[]"] have "length (escape_digits c) \<le> 16"
    unfolding escape_digits_def Let_def length_append length_replicate by simp
  then show ?thesis by (simp add: encode_char_def)
qed

lemma encode_char_formatted:
  assumes "0 < sint r \<Longrightarrow> off + nat (sint r) \<le> length buf"
  shows "(if uri_character_escaped c field then vssnprintf buf off r ''%%%02X'' [Arg_int (of_int (schar c))]
          else vssnprintf buf off r ''%c'' [Arg_int (of_int (schar c))]) =
    Some (of_nat (length (encode_char field c)),
      if 0 < sint r then patch off (take (nat (sint r) - 1) (encode_char field c) @ [NUL]) buf else buf)"
proof (cases "uri_character_escaped c field")
  case True
  then show ?thesis
    using assms length_encode_char [of field c] vssnprintf_formatted [OF formatted_escape, of c r off buf]
    by (simp add: encode_char_def)
next
  case False
  then show ?thesis
    using assms vssnprintf_formatted [OF formatted_char, of c r off buf] by (simp add: encode_char_def)
qed

lemma uri_encode_loop_encoded:
  assumes "- (2 ^ 31) \<le> sint r - int (length (encoded field raw))" "0 < sint r \<Longrightarrow> off + nat (sint r) \<le> length buf"
  shows "uri_encode_loop field raw off r buf = Some (r - of_nat (length (encoded field raw)),
    if 0 < sint r \<and> raw \<noteq> [] then patch off (take (nat (sint r) - 1) (encoded field raw) @ [NUL]) buf else buf)"
  using assms
proof (induction raw arbitrary: off r buf)
  case Nil
  then show ?case by (simp add: encoded_def)
next
  case (Cons c raw)
  let ?e = "encode_char field c"
  let ?k = "length ?e"
  let ?b = "if 0 < sint r then patch off (take (nat (sint r) - 1) ?e @ [NUL]) buf else buf"
  have e: "encoded field (c # raw) = ?e @ encoded field raw" by (simp add: encoded_def)
  have k: "0 < ?k" "?k \<le> 17" using length_encode_char by simp_all
  have u: "unat (of_nat ?k :: u32) = ?k" using k by (simp add: unsigned_of_nat take_bit_nat_eq_self)
  have lt: "sint r < 2 ^ 31" using sint_lt [of r] by simp
  have s: "sint (r - of_nat ?k) = sint r - int ?k"
    using Cons.prems(1) lt k unfolding e by (intro sint_diff) auto
  have len: "length ?b = length buf" using Cons.prems(2) by (auto intro!: length_patch simp: min_def)
  have IH: "uri_encode_loop field raw (off + ?k) (r - of_nat ?k) ?b = Some (r - of_nat ?k - of_nat (length (encoded field raw)),
      if 0 < sint r - int ?k \<and> raw \<noteq> []
      then patch (off + ?k) (take (nat (sint r - int ?k) - 1) (encoded field raw) @ [NUL]) ?b else ?b)"
    using Cons.IH [of "r - of_nat ?k" "off + ?k" ?b] Cons.prems len unfolding s e by (auto simp: nat_diff_distrib)
  have step: "uri_encode_loop field (c # raw) off r buf = uri_encode_loop field raw (off + ?k) (r - of_nat ?k) ?b"
    using encode_char_formatted [OF Cons.prems(2), of c field] u by (simp only: uri_encode_loop.simps) simp
  have "patch (off + ?k) (take (nat (sint r - int ?k) - 1) (encoded field raw) @ [NUL]) ?b =
      patch off (take (nat (sint r) - 1) (?e @ encoded field raw) @ [NUL]) buf" if "int ?k < sint r"
  proof -
    have t: "take (nat (sint r) - 1) ?e = ?e" "nat (sint r - int ?k) - 1 = nat (sint r) - 1 - ?k" using that by auto
    have "off + ?k + length (take (nat (sint r) - 1 - ?k) (encoded field raw) @ [NUL]) \<le> length buf"
      using that Cons.prems(2) by auto
    then show ?thesis using that t patch_patch [of off ?e buf "take (nat (sint r) - 1 - ?k) (encoded field raw) @ [NUL]" NUL]
      by simp
  qed
  moreover have "encoded field [] = []" by (simp add: encoded_def)
  ultimately show ?case using step IH e
    by (auto simp: encoded_def not_less)
qed

lemma hex_digits_no_NUL: "cm = 0 \<or> cm = 32 \<Longrightarrow> NUL \<notin> set ptr \<Longrightarrow> NUL \<notin> set (hex_digits cm num ptr)"
proof (induction cm num ptr rule: hex_digits.induct)
  case (1 cm num ptr)
  have "digit_value (of_int (schar NUL)) = - 48" by (simp add: schar_def digit_value_def)
  moreover have "(of_nat (unat num mod 16) :: u32) \<noteq> - 48"
  proof -
    have "unat (of_nat (unat num mod 16) :: u32) < 16" by (simp add: unsigned_of_nat take_bit_nat_eq_self)
    moreover have "(- 48 :: u32) = 4294967248" by simp
    then have "unat (- 48 :: u32) = 4294967248" by (simp only:) simp
    ultimately show ?thesis by fastforce
  qed
  ultimately have "hex_digit num cm \<noteq> NUL" using hex_digit_value [OF "1.prems"(1), of num] by metis
  then show ?case using 1 by (simp add: hex_digits.simps [of cm num ptr] Let_def)
qed

lemma escape_digits_ascii:
  assumes "uchar c < 128"
  shows "length (escape_digits c) = 2" "NUL \<notin> set (escape_digits c)"
proof -
  obtain k where k: "schar c = int k" "k < 128" using assms uchar_nat [of c] by (auto simp: schar_def)
  have "unat (ucast (of_int (schar c) :: u32) :: u64) < 16 ^ Suc 1"
    using k by (simp add: unsigned_ucast_eq unsigned_of_nat take_bit_nat_eq_self)
  from length_hex_digits [OF this, of 0 "[]"] show "length (escape_digits c) = 2"
    unfolding escape_digits_def Let_def length_append length_replicate by simp
  show "NUL \<notin> set (escape_digits c)"
    using hex_digits_no_NUL [of 0 "[]"] by (auto simp: escape_digits_def NUL_def Let_def)
qed

lemma ucast_ucast_u32: "ucast (ucast v :: u64) = v" for v :: u32
  by (rule bit_word_eqI) (auto simp: bit_simps)

lemma decode_escape_digits:
  assumes "uchar c < 128"
  shows "decode_escape (escape_digits c @ s) = (c, 2)"
proof -
  have "c_string (escape_digits c @ s) = escape_digits c @ c_string s"
    unfolding c_string_def using escape_digits_ascii(2) [OF assms] by (intro takeWhile_append2) auto
  then have h: "hexbuf (escape_digits c @ s) = escape_digits c"
    using escape_digits_ascii(1) [OF assms] by (simp add: hexbuf_def)
  have "strtoul (escape_digits c) 16 = (of_int (schar c), [])"
    using strtoul_format_hex [OF escape_digits_hex, of c] by (simp add: ZPAD_def ALT_FORM_def ucast_ucast_u32)
  then show ?thesis using escape_digits_ascii(1) [OF assms] by (simp add: decode_escape_def h)
qed

lemma decoded_encoded:
  assumes "\<forall>c\<in>set s. uchar c < 128" "escaped field \<noteq> None"
  shows "decoded (encoded field s @ r) = s @ decoded r"
  using assms(1)
proof (induction s)
  case Nil
  then show ?case by (simp add: encoded_def)
next
  case (Cons c s)
  have "decoded (encode_char field c @ t) = c # decoded t" for t
  proof (cases "uri_character_escaped c field")
    case True
    then show ?thesis
      using decode_escape_digits [of c t] escape_digits_ascii [of c] Cons.prems by (simp add: encode_char_def)
  next
    case False
    then have "c \<noteq> CHR ''%''" using assms(2) by (auto simp: uri_character_escaped_def split: if_splits)
    then show ?thesis using False by (simp add: encode_char_def)
  qed
  then show ?case using Cons by (simp add: encoded_def)
qed

lemma uri_encode_encoded:
  assumes "0 < sint len \<Longrightarrow> off + nat (sint len) \<le> length buf" "- (2 ^ 31) \<le> sint len - int (length (encoded field raw))"
  shows "uri_encode field raw off len buf = Some (of_nat (length (encoded field raw)),
    if 0 < sint len then patch off (take (nat (sint len) - 1) (encoded field raw) @ [NUL]) buf else buf)"
proof (cases "0 < sint len")
  case False
  then show ?thesis using uri_encode_loop_encoded [OF assms(2), of off buf] by (simp add: uri_encode_def)
next
  case True
  then have o: "off < length buf" using assms(1) by simp
  have p: "patch off (cs @ [NUL]) (buf[off := NUL]) = patch off (cs @ [NUL]) buf" for cs
    by (simp add: patch_def)
  have "buf[off := NUL] = patch off [NUL] buf" using o by (simp add: patch_def upd_conv_take_nth_drop)
  then show ?thesis
    using uri_encode_loop_encoded [OF assms(2), of off "buf[off := NUL]"] True assms(1) o p [of "take (nat (sint len) - 1) (encoded field raw)"]
    by (auto simp: uri_encode_def buf_put_def encoded_def)
qed

section \<open>Formatting\<close>

lemma length_emit [simp]: "len \<le> length buf \<Longrightarrow> length (emit len used s buf) = length buf"
  by (auto simp: emit_def min_def intro!: length_patch)

lemma emit_emit:
  assumes "len \<le> length buf"
  shows "emit len (used + length s) t (emit len used s buf) = emit len used (s @ t) buf"
proof (cases "used + length s < len")
  case True
  have "used + length s + length (take (len - used - length s - 1) t @ [NUL]) \<le> length buf"
    using True assms by (auto simp: min_def)
  then show ?thesis
    using True assms patch_patch [of used s buf "take (len - used - length s - 1) t @ [NUL]" NUL]
    by (simp add: emit_def)
qed (simp add: emit_def)

lemma remaining_sint: "len < 2 ^ 31 \<Longrightarrow> used < 2 ^ 31 \<Longrightarrow> sint (of_nat len - of_nat used :: u32) = int len - int used"
  using sint_diff [of "of_nat len" used] by (simp add: signed_of_nat signed_take_bit_int_eq_self)

lemma vssnprintf_emit:
  assumes "formatted fmt args = Some out" "len < 2 ^ 31" "used + length out < 2 ^ 31" "len \<le> length buf"
  shows "vssnprintf buf used (of_nat len - of_nat used) fmt args = Some (of_nat (length out), emit len used out buf)"
  using vssnprintf_formatted [OF assms(1), of "of_nat len - of_nat used" used buf] assms remaining_sint [of len used]
  by (auto simp: emit_def nat_diff_distrib)

lemma uri_encode_emit:
  assumes "len < 2 ^ 31" "used + length (encoded field s) < 2 ^ 31" "len \<le> length buf"
  shows "uri_encode_string field s used (of_nat len - of_nat used) buf =
    Some (of_nat (length (encoded field s)), emit len used (encoded field s) buf)"
  using uri_encode_encoded [of "of_nat len - of_nat used" used buf field s] assms remaining_sint [of len used]
  by (auto simp: emit_def uri_encode_string_def nat_diff_distrib)

lemma formatted_suffix: "formatted '':%s'' [Arg_string (Some (if b then ''//'' else []))] = Some (CHR '':'' # (if b then ''//'' else []))"
  by (simp add: format_evals c_string_def)

lemma emit_Nil: "len \<le> length buf \<Longrightarrow> used < len \<longrightarrow> buf ! used = NUL \<Longrightarrow> emit len used [] buf = buf"
  using id_take_nth_drop [of used buf] by (auto simp: emit_def patch_def)

lemma emit_NUL: "len \<le> length buf \<Longrightarrow> used + length s < len \<longrightarrow> emit len used s buf ! (used + length s) = NUL"
  by (auto simp: emit_def patch_def nth_append)

lemma unat_small: "k < 2 ^ 31 \<Longrightarrow> unat (of_nat k :: u32) = k"
  by (simp add: unsigned_of_nat take_bit_nat_eq_self)

lemma format_prefix:
  assumes "len < 2 ^ 31" "used + length (field_prefix u field) < 2 ^ 31" "len \<le> length buf" "used < len \<longrightarrow> buf ! used = NUL"
  shows "(case (if field = URI_HOST \<and> uri_user u \<noteq> None then Some (CHR ''@'') else prefixes field) of
       None \<Rightarrow> Some (of_nat used, buf)
     | Some c \<Rightarrow> do {
         (k, buf) \<leftarrow> vssnprintf buf (unat (of_nat used :: u32)) (of_nat len - of_nat used) ''%c'' [Arg_int (of_int (schar c))];
         Some (of_nat used + k, buf)
       }) = Some (of_nat (used + length (field_prefix u field)) :: u32, emit len used (field_prefix u field) buf)"
  using assms vssnprintf_emit [OF formatted_char, where len = len and used = used and buf = buf] emit_Nil [OF assms(3,4)] unat_small [of used]
  by (auto simp: field_prefix_def split: option.splits)

lemma format_suffix:
  assumes "len < 2 ^ 31" "used + length (field_suffix u field) < 2 ^ 31" "len \<le> length buf" "used < len \<longrightarrow> buf ! used = NUL"
  shows "(if field = URI_SCHEME then do {
         (k, buf) \<leftarrow> vssnprintf buf (unat (of_nat used :: u32)) (of_nat len - of_nat used) '':%s''
            [Arg_string (Some (if uri_host u \<noteq> None then ''//'' else []))];
         Some (of_nat used + k, buf)
       } else Some (of_nat used, buf)) =
    Some (of_nat (used + length (field_suffix u field)) :: u32, emit len used (field_suffix u field) buf)"
  using assms vssnprintf_emit [OF formatted_suffix [of "uri_host u \<noteq> None"], where len = len and used = used and buf = buf] emit_Nil [OF assms(3,4)] unat_small [of used]
  by (auto simp: field_suffix_def)

lemma format_field_step:
  assumes "uri_field u field = Some s" "\<not> (field = URI_PATH \<and> uri_epath u \<noteq> None)" "len < 2 ^ 31"
    "used + length (field_prefix u field) + length (encoded field s) + length (field_suffix u field) < 2 ^ 31"
    "len \<le> length buf" "used < len \<longrightarrow> buf ! used = NUL"
  shows "format_fields u (of_nat len) (field # fs) (of_nat used) buf =
    format_fields u (of_nat len) fs (of_nat (used + length (field_prefix u field @ encoded field s @ field_suffix u field)))
      (emit len used (field_prefix u field @ encoded field s @ field_suffix u field) buf)"
proof -
  let ?p = "field_prefix u field" and ?e = "encoded field s" and ?x = "field_suffix u field"
  let ?b1 = "emit len used ?p buf"
  let ?b2 = "emit len (used + length ?p) ?e ?b1"
  have l: "len \<le> length ?b1" "len \<le> length ?b2" using assms(5) by simp_all
  have b: "used + length ?p < 2 ^ 31" "used + length ?p + length ?e < 2 ^ 31" using assms(4) by simp_all
  note n2 = emit_NUL [OF l(1), of "used + length ?p" ?e]
  have e: "uri_encode_string field s (unat (of_nat (used + length ?p) :: u32)) (of_nat len - of_nat (used + length ?p)) ?b1 =
      Some (of_nat (length ?e), ?b2)"
    using uri_encode_emit [OF assms(3) b(2) l(1)] unat_small [OF b(1)] by simp
  have all: "emit len (used + length ?p + length ?e) ?x ?b2 = emit len used (?p @ ?e @ ?x) buf"
    using emit_emit [OF assms(5), of used ?p ?e] emit_emit [OF assms(5), of used "?p @ ?e" ?x] by (simp add: add.assoc)
  have u1: "(of_nat (used + length ?p) :: u32) + of_nat (length ?e) = of_nat (used + length ?p + length ?e)" by simp
  have u2: "used + length ?p + length ?e + length ?x = used + length (?p @ ?e @ ?x)" by simp
  show ?thesis
    apply (subst format_fields.simps(2))
    apply (simp only: assms(1) option.case Let_def if_not_P [OF assms(2)])
    apply (simp only: format_prefix [OF assms(3) b(1) assms(5,6)] bind.bind_lunit prod.case)
    apply (simp only: e bind.bind_lunit prod.case u1)
    apply (simp only: format_suffix [OF assms(3,4) l(2) n2] bind.bind_lunit prod.case all u2)
    done
qed

lemma format_fields_emit:
  assumes "len < 2 ^ 31" "used + length (concat (map (field_string u) fs)) < 2 ^ 31" "len \<le> length buf"
    "used < len \<longrightarrow> buf ! used = NUL"
  shows "format_fields u (of_nat len) fs (of_nat used) buf =
    Some (of_nat (used + length (concat (map (field_string u) fs))), emit len used (concat (map (field_string u) fs)) buf)"
  using assms(2-)
proof (induction fs arbitrary: used buf)
  case Nil
  then show ?case using emit_Nil by simp
next
  case (Cons field fs)
  show ?case
  proof (cases "uri_field u field = None \<or> field = URI_PATH \<and> uri_epath u \<noteq> None")
    case True
    then have "field_string u field = []" by (auto simp: field_string_def split: option.split)
    moreover have "format_fields u l (field # fs) k b = format_fields u l fs k b" for l k b
      using True by (auto split: option.split)
    ultimately show ?thesis using Cons by simp
  next
    case False
    then obtain s where s: "uri_field u field = Some s" "\<not> (field = URI_PATH \<and> uri_epath u \<noteq> None)" by auto
    let ?all = "field_string u field"
    have fs: "?all = field_prefix u field @ encoded field s @ field_suffix u field"
      using s by (auto simp: field_string_def)
    have step: "format_fields u (of_nat len) (field # fs) (of_nat used) buf =
        format_fields u (of_nat len) fs (of_nat (used + length ?all)) (emit len used ?all buf)"
      unfolding fs using Cons.prems fs by (intro format_field_step s assms(1)) simp_all
    have IH: "format_fields u (of_nat len) fs (of_nat (used + length ?all)) (emit len used ?all buf) =
        Some (of_nat (used + length ?all + length (concat (map (field_string u) fs))),
          emit len (used + length ?all) (concat (map (field_string u) fs)) (emit len used ?all buf))"
      using Cons.prems emit_NUL [OF Cons.prems(2), of used ?all] by (intro Cons.IH) simp_all
    show ?thesis
      unfolding step IH emit_emit [OF Cons.prems(2)] by (simp add: add.assoc)
  qed
qed

end
