(* ===== verification/Nvme_Queue.thy ===== *)
theory Nvme_Queue
  imports Malloc
begin

text \<open>
  The submission and completion queues of the NVMe driver
  (\<open>src/src/drivers/block/nvme.c\<close>, structures and constants in \<open>nvme-int.h\<close>).
  Queue entries are bytes of \<open>memory\<close> at the addresses the queue structures hold. The
  controller is hardware: its registers and its bus-master accesses are a parameter of
  type \<open>nvme_env\<close>, and it runs before every read of the status register or of a
  completion entry that the driver polls. Polling loops take fuel.
\<close>

section \<open>Structures and constants\<close>

definition NVME_PAGE_SIZE :: u32 where "NVME_PAGE_SIZE = 4096"
definition NVME_SQE_SIZE :: u32 where "NVME_SQE_SIZE = 64"
definition NVME_CQE_SIZE :: u32 where "NVME_CQE_SIZE = 16"
definition NVME_CQE_DW3_P :: u32 where "NVME_CQE_DW3_P = push_bit 16 1"
definition NVME_CSTS_RDY :: u32 where "NVME_CSTS_RDY = 1"
definition NVME_CC_EN :: u32 where "NVME_CC_EN = 1"
definition NVME_SQE_SIZE_LOG :: nat where "NVME_SQE_SIZE_LOG = 6"
definition NVME_CQE_SIZE_LOG :: nat where "NVME_CQE_SIZE_LOG = 4"
definition NVME_CAP_CSS_NVME :: u64 where "NVME_CAP_CSS_NVME = push_bit 37 1"

definition NVME_SQE_OPC_ADMIN_CREATE_IO_SQ :: u8 where "NVME_SQE_OPC_ADMIN_CREATE_IO_SQ = 1"
definition NVME_SQE_OPC_ADMIN_CREATE_IO_CQ :: u8 where "NVME_SQE_OPC_ADMIN_CREATE_IO_CQ = 5"
definition NVME_SQE_OPC_ADMIN_IDENTIFY :: u8 where "NVME_SQE_OPC_ADMIN_IDENTIFY = 6"
definition NVME_SQE_OPC_IO_WRITE :: u8 where "NVME_SQE_OPC_IO_WRITE = 1"
definition NVME_SQE_OPC_IO_READ :: u8 where "NVME_SQE_OPC_IO_READ = 2"
definition NVME_ADMIN_IDENTIFY_CNS_ID_NS :: u8 where "NVME_ADMIN_IDENTIFY_CNS_ID_NS = 0"
definition NVME_ADMIN_IDENTIFY_CNS_ID_CTRL :: u8 where "NVME_ADMIN_IDENTIFY_CNS_ID_CTRL = 1"

text \<open>Byte offsets of the fields of \<open>struct nvme_reg\<close>.\<close>

definition REG_CAP :: u32 where "REG_CAP = 0x00"
definition REG_VS :: u32 where "REG_VS = 0x08"
definition REG_CC :: u32 where "REG_CC = 0x14"
definition REG_CSTS :: u32 where "REG_CSTS = 0x1c"
definition REG_AQA :: u32 where "REG_AQA = 0x24"
definition REG_ASQ :: u32 where "REG_ASQ = 0x28"
definition REG_ACQ :: u32 where "REG_ACQ = 0x30"

record nvme_queue =
  q_dbl :: u32
  q_mask :: u16

text \<open>The two queue pairs of a controller; \<open>sq->cq\<close> points at one of the two completion queues.\<close>

datatype qsel = Admin | IO

record nvme_cq =
  cq_common :: nvme_queue
  cq_cqe :: u32
  cq_head :: u16
  cq_phase :: u1

record nvme_sq =
  sq_common :: nvme_queue
  sq_sqe :: u32
  sq_cq :: qsel
  sq_head :: u16
  sq_tail :: u16

record nvme_namespace =
  ns_id :: u32
  lba_count :: u64
  block_size :: u32
  metadata_size :: u32
  max_req_size :: u32

record nvme_ctrl =
  ctrl_ns :: "nvme_namespace option"
  ctrl_reg :: u32
  doorbell_stride :: u32
  admin_sq :: nvme_sq
  admin_cq :: nvme_cq
  ns_count :: u32
  io_sq :: nvme_sq
  io_cq :: nvme_cq

fun get_sq :: "qsel \<Rightarrow> nvme_ctrl \<Rightarrow> nvme_sq" where
  "get_sq Admin c = admin_sq c"
| "get_sq IO c = io_sq c"

fun put_sq :: "qsel \<Rightarrow> nvme_sq \<Rightarrow> nvme_ctrl \<Rightarrow> nvme_ctrl" where
  "put_sq Admin q c = c\<lparr>admin_sq := q\<rparr>"
| "put_sq IO q c = c\<lparr>io_sq := q\<rparr>"

fun get_cq :: "qsel \<Rightarrow> nvme_ctrl \<Rightarrow> nvme_cq" where
  "get_cq Admin c = admin_cq c"
| "get_cq IO c = io_cq c"

fun put_cq :: "qsel \<Rightarrow> nvme_cq \<Rightarrow> nvme_ctrl \<Rightarrow> nvme_ctrl" where
  "put_cq Admin q c = c\<lparr>admin_cq := q\<rparr>"
| "put_cq IO q c = c\<lparr>io_cq := q\<rparr>"

record nvme_cqe =
  cqe_cdw0 :: u32
  cqe_res0 :: u32
  cqe_sq_head :: u16
  cqe_sq_id :: u16
  cqe_cid :: u16
  cqe_status :: u16

definition read_cqe :: "mem \<Rightarrow> u32 \<Rightarrow> nvme_cqe" where
  "read_cqe m a = \<lparr>cqe_cdw0 = rd32 m a, cqe_res0 = rd32 m (a + 4), cqe_sq_head = rd16 m (a + 8),
     cqe_sq_id = rd16 m (a + 10), cqe_cid = rd16 m (a + 12), cqe_status = rd16 m (a + 14)\<rparr>"

section \<open>The controller and the state\<close>

record 'h nvme_state = heap_state +
  nvme_hw :: 'h
  nvme_dma_buffer :: u32

text \<open>
  The environment: the reads and writes of the controller's registers by address, one
  stretch of activity of the controller on its own state and on memory by physical
  address, and the cache discarders of the heap.
\<close>

record ('h, 'w) nvme_env =
  mmio_read32 :: "u32 \<Rightarrow> 'h \<Rightarrow> u32"
  mmio_read64 :: "u32 \<Rightarrow> 'h \<Rightarrow> u64"
  mmio_write32 :: "u32 \<Rightarrow> u32 \<Rightarrow> 'h \<Rightarrow> 'h"
  mmio_write64 :: "u32 \<Rightarrow> u64 \<Rightarrow> 'h \<Rightarrow> 'h"
  device :: "'h \<times> mem \<Rightarrow> 'h \<times> mem"
  discarders :: "('w \<Rightarrow> u32 \<times> 'w) list"

definition phys_view :: "u32 \<Rightarrow> mem \<Rightarrow> mem" where
  "phys_view voff m = (\<lambda>p. m (p - voff))"

definition virt_view :: "u32 \<Rightarrow> mem \<Rightarrow> mem" where
  "virt_view voff m = (\<lambda>a. m (a + voff))"

definition run_device :: "('h, 'w) nvme_env \<Rightarrow> ('h, 'z) nvme_state_scheme \<Rightarrow>
    ('h, 'z) nvme_state_scheme" where
  "run_device env w =
     (let (h, m) = device env (nvme_hw w, phys_view (virt_offset w) (memory w)) in
      w\<lparr>memory := virt_view (virt_offset w) m, nvme_hw := h\<rparr>)"

definition reg_write32 :: "('h, 'w) nvme_env \<Rightarrow> u32 \<Rightarrow> u32 \<Rightarrow> ('h, 'z) nvme_state_scheme \<Rightarrow>
    ('h, 'z) nvme_state_scheme" where
  "reg_write32 env a v w = w\<lparr>nvme_hw := mmio_write32 env a v (nvme_hw w)\<rparr>"

definition reg_write64 :: "('h, 'w) nvme_env \<Rightarrow> u32 \<Rightarrow> u64 \<Rightarrow> ('h, 'z) nvme_state_scheme \<Rightarrow>
    ('h, 'z) nvme_state_scheme" where
  "reg_write64 env a v w = w\<lparr>nvme_hw := mmio_write64 env a v (nvme_hw w)\<rparr>"

definition dma_alloc :: "nat \<Rightarrow> ('h, ('h, 'z) nvme_state_scheme) nvme_env \<Rightarrow> u32 \<Rightarrow> u32 \<Rightarrow>
    ('h, 'z) nvme_state_scheme \<Rightarrow> (u32 \<times> ('h, 'z) nvme_state_scheme) option" where
  "dma_alloc n env len align w = malloc_phys n (discarders env) len align w"

definition dma_free :: "u32 \<Rightarrow> u32 \<Rightarrow> ('h, 'z) nvme_state_scheme \<Rightarrow>
    ('h, 'z) nvme_state_scheme option" where
  "dma_free addr len w = free_phys addr len w"

definition dma :: "('h, 'z) nvme_state_scheme \<Rightarrow> u32 \<Rightarrow> u32" where
  "dma w addr = virt_to_phys w addr"

section \<open>Queue operations\<close>

definition nvme_init_queue_common :: "nvme_ctrl \<Rightarrow> u16 \<Rightarrow> u16 \<Rightarrow> nvme_queue" where
  "nvme_init_queue_common ctrl q_idx len =
     \<lparr>q_dbl = ctrl_reg ctrl + 0x1000 + ucast q_idx * doorbell_stride ctrl, q_mask = len - 1\<rparr>"

fun nvme_wait_csts_rdy :: "nat \<Rightarrow> ('h, 'w) nvme_env \<Rightarrow> nvme_ctrl \<Rightarrow> u32 \<Rightarrow>
    ('h, 'z) nvme_state_scheme \<Rightarrow> ('h, 'z) nvme_state_scheme option" where
  "nvme_wait_csts_rdy 0 env ctrl rdy w = None"
| "nvme_wait_csts_rdy (Suc n) env ctrl rdy w =
     (let w = run_device env w;
          csts = mmio_read32 env (ctrl_reg ctrl + REG_CSTS) (nvme_hw w)
      in if rdy \<noteq> csts AND NVME_CSTS_RDY then nvme_wait_csts_rdy n env ctrl rdy w
         else Some w)"

text \<open>
  Both initialisers clear the entries before they look at the result of the allocation;
  clearing through a null pointer is undefined.
\<close>

definition nvme_init_sq :: "nat \<Rightarrow> ('h, ('h, 'z) nvme_state_scheme) nvme_env \<Rightarrow> qsel \<Rightarrow> u16 \<Rightarrow> u16 \<Rightarrow>
    qsel \<Rightarrow> nvme_ctrl \<Rightarrow> ('h, 'z) nvme_state_scheme \<Rightarrow>
    (rc \<times> nvme_ctrl \<times> ('h, 'z) nvme_state_scheme) option" where
  "nvme_init_sq n env q q_idx len cq ctrl w = do {
     (entries, w) \<leftarrow> dma_alloc n env (NVME_SQE_SIZE * ucast len) 4096 w;
     if entries = 0 then None
     else
       (let w = mem_upd (memset entries 0 (64 * unat len)) w;
            sq = \<lparr>sq_common = nvme_init_queue_common ctrl q_idx len, sq_sqe = entries, sq_cq = cq,
                  sq_head = 0, sq_tail = 0\<rparr>
        in Some (OK, put_sq q sq ctrl, w))
   }"

definition nvme_init_cq :: "nat \<Rightarrow> ('h, ('h, 'z) nvme_state_scheme) nvme_env \<Rightarrow> qsel \<Rightarrow> u16 \<Rightarrow> u16 \<Rightarrow>
    nvme_ctrl \<Rightarrow> ('h, 'z) nvme_state_scheme \<Rightarrow>
    (rc \<times> nvme_ctrl \<times> ('h, 'z) nvme_state_scheme) option" where
  "nvme_init_cq n env q q_idx len ctrl w = do {
     (entries, w) \<leftarrow> dma_alloc n env (NVME_CQE_SIZE * ucast len) 4096 w;
     if entries = 0 then None
     else
       (let w = mem_upd (memset entries 0 (16 * unat len)) w;
            cq = \<lparr>cq_common = nvme_init_queue_common ctrl q_idx len, cq_cqe = entries,
                  cq_head = 0, cq_phase = 1\<rparr>
        in Some (OK, put_cq q cq ctrl, w))
   }"

text \<open>
  The next submission entry: its address, or 0 when the queue is taken to be full. The
  entry is cleared and its command, metadata and data pointers are filled in.
\<close>

definition sqe_addr :: "nvme_sq \<Rightarrow> u32" where
  "sqe_addr sq = sq_sqe sq + ucast (sq_tail sq) * NVME_SQE_SIZE"

definition nvme_get_next_sqe :: "nvme_sq \<Rightarrow> u8 \<Rightarrow> u32 \<Rightarrow> u32 \<Rightarrow> u32 \<Rightarrow>
    ('h, 'z) nvme_state_scheme \<Rightarrow> u32 \<times> ('h, 'z) nvme_state_scheme" where
  "nvme_get_next_sqe sq opc metadata data data2 w =
     (if (sq_head sq + 1) AND q_mask (sq_common sq) = sq_tail sq then (0, w)
      else
        (let e = sqe_addr sq;
             w = mem_upd (memset e 0 64) w;
             w = mem_upd (wr32 e (ucast opc OR push_bit 16 (ucast (sq_tail sq)))) w;
             w = mem_upd (wr64 (e + 16) (ucast metadata)) w;
             w = mem_upd (wr64 (e + 24) (ucast data)) w;
             w = mem_upd (wr64 (e + 32) (ucast data2)) w
         in (e, w)))"

definition cqe_addr :: "nvme_cq \<Rightarrow> u32" where
  "cqe_addr cq = cq_cqe cq + ucast (cq_head cq) * NVME_CQE_SIZE"

definition nvme_poll_cq :: "nvme_cq \<Rightarrow> ('h, 'z) nvme_state_scheme \<Rightarrow> bool" where
  "nvme_poll_cq cq w =
     (let dw3 = rd32 (memory w) (cqe_addr cq + 12) in
      (if dw3 AND NVME_CQE_DW3_P \<noteq> 0 then 1 else 0) = cq_phase cq)"

definition nvme_is_cqe_success :: "nvme_cqe \<Rightarrow> bool" where
  "nvme_is_cqe_success cqe \<longleftrightarrow> drop_bit 1 (cqe_status cqe) AND 0xff = 0"

definition nvme_error_cqe :: nvme_cqe where
  "nvme_error_cqe = \<lparr>cqe_cdw0 = 0xffffffff, cqe_res0 = 0xffffffff, cqe_sq_head = 0xffff,
     cqe_sq_id = 0xffff, cqe_cid = 0xffff, cqe_status = 0xffff\<rparr>"

definition nvme_consume_cqe :: "('h, 'w) nvme_env \<Rightarrow> qsel \<Rightarrow> nvme_ctrl \<Rightarrow>
    ('h, 'z) nvme_state_scheme \<Rightarrow> nvme_cqe \<times> nvme_ctrl \<times> ('h, 'z) nvme_state_scheme" where
  "nvme_consume_cqe env q ctrl w =
     (let sq = get_sq q ctrl;
          w = run_device env w;
          cq = get_cq (sq_cq sq) ctrl
      in if \<not> nvme_poll_cq cq w then (nvme_error_cqe, ctrl, w)
         else
           (let cqe = read_cqe (memory w) (cqe_addr cq);
                cq_next_head = (cq_head cq + 1) AND q_mask (cq_common cq);
                cq = (if cq_next_head < cq_head cq then cq\<lparr>cq_phase := NOT (cq_phase cq)\<rparr> else cq);
                cq = cq\<lparr>cq_head := cq_next_head\<rparr>;
                sq = (if cqe_sq_head cqe \<noteq> sq_head sq then sq\<lparr>sq_head := cqe_sq_head cqe\<rparr> else sq);
                w = reg_write32 env (q_dbl (cq_common cq)) (ucast (cq_head cq)) w
            in (cqe, put_sq q sq (put_cq (sq_cq sq) cq ctrl), w)))"

definition nvme_commit_sqe :: "('h, 'w) nvme_env \<Rightarrow> qsel \<Rightarrow> nvme_ctrl \<Rightarrow>
    ('h, 'z) nvme_state_scheme \<Rightarrow> nvme_ctrl \<times> ('h, 'z) nvme_state_scheme" where
  "nvme_commit_sqe env q ctrl w =
     (let sq = get_sq q ctrl;
          sq = sq\<lparr>sq_tail := (sq_tail sq + 1) AND q_mask (sq_common sq)\<rparr>
      in (put_sq q sq ctrl, reg_write32 env (q_dbl (sq_common sq)) (ucast (sq_tail sq)) w))"

fun nvme_wait :: "nat \<Rightarrow> ('h, 'w) nvme_env \<Rightarrow> qsel \<Rightarrow> nvme_ctrl \<Rightarrow>
    ('h, 'z) nvme_state_scheme \<Rightarrow> (nvme_cqe \<times> nvme_ctrl \<times> ('h, 'z) nvme_state_scheme) option" where
  "nvme_wait 0 env q ctrl w = None"
| "nvme_wait (Suc n) env q ctrl w =
     (let w = run_device env w in
      if \<not> nvme_poll_cq (get_cq (sq_cq (get_sq q ctrl)) ctrl) w then nvme_wait n env q ctrl w
      else Some (nvme_consume_cqe env q ctrl w))"

section \<open>Lemmas\<close>

lemma phys_virt_view [simp]: "virt_view v (phys_view v m) = m" "phys_view v (virt_view v m) = m"
  by (simp_all add: phys_view_def virt_view_def)

lemma mem_read_phys_view [simp]: "mem_read (phys_view v m) (a + v) n = mem_read m a n"
  by (intro nth_equalityI) (simp_all add: phys_view_def algebra_simps)

lemma mem_write_phys_view: "mem_write (phys_view v m) (a + v) bs = phys_view v (mem_write m a bs)"
  by (rule ext) (simp add: phys_view_def mem_write_def algebra_simps)

lemma rd_phys_view [simp]:
  "rd8 (phys_view v m) (a + v) = rd8 m a"
  "rd16 (phys_view v m) (a + v) = rd16 m a"
  "rd32 (phys_view v m) (a + v) = rd32 m a"
  "rd64 (phys_view v m) (a + v) = rd64 m a"
  by (simp_all add: rd8_def rd16_def rd32_def rd64_def phys_view_def [of v m, THEN fun_cong])

lemma get_put_queue [simp]:
  "get_sq q (put_sq q' s c) = (if q = q' then s else get_sq q c)"
  "get_sq q (put_cq q' d c) = get_sq q c"
  "get_cq q (put_cq q' d c) = (if q = q' then d else get_cq q c)"
  "get_cq q (put_sq q' s c) = get_cq q c"
  by (cases q; cases q'; simp)+

end
