(* ===== verification/Nvme_Admin.thy ===== *)
theory Nvme_Admin
  imports Nvme_Queue
begin

text \<open>
  Bringing up an NVMe controller (\<open>src/src/drivers/block/nvme.c\<close>): the identify command,
  the creation of the I/O queues, the probe of a namespace and \<open>nvme_controller_enable\<close>.
  Where the code returns \<open>-1\<close> the model returns \<open>Err EFAIL\<close>.
\<close>

section \<open>Operations\<close>

text \<open>Field offsets in the data structures of the identify command.\<close>

definition ID_CTRL_MDTS :: u32 where "ID_CTRL_MDTS = 77"
definition ID_CTRL_NN :: u32 where "ID_CTRL_NN = 516"
definition ID_NS_NSZE :: u32 where "ID_NS_NSZE = 0"
definition ID_NS_NLBAF :: u32 where "ID_NS_NLBAF = 25"
definition ID_NS_FLBAS :: u32 where "ID_NS_FLBAS = 26"
definition ID_NS_LBAF :: u32 where "ID_NS_LBAF = 128"

definition sizeof_nvme_namespace :: u32 where "sizeof_nvme_namespace = 28"

definition nvme_admin_identify :: "nat \<Rightarrow> ('h, ('h, 'z) nvme_state_scheme) nvme_env \<Rightarrow> u8 \<Rightarrow> u32 \<Rightarrow>
    nvme_ctrl \<Rightarrow> ('h, 'z) nvme_state_scheme \<Rightarrow>
    (u32 \<times> nvme_ctrl \<times> ('h, 'z) nvme_state_scheme) option" where
  "nvme_admin_identify n env cns nsid ctrl w = do {
     (identify_buf, w) \<leftarrow> dma_alloc n env 4096 4096 w;
     if identify_buf = 0 then Some (0, ctrl, w)
     else
       (let w = mem_upd (memset identify_buf 0 4096) w;
            (cmd, w) = nvme_get_next_sqe (admin_sq ctrl) NVME_SQE_OPC_ADMIN_IDENTIFY 0
                         (dma w identify_buf) 0 w
        in if cmd = 0 then do {
             w \<leftarrow> dma_free identify_buf 4096 w;
             Some (0, ctrl, w)
           } else
             (let w = mem_upd (wr32 (cmd + 4) nsid) w;
                  w = mem_upd (wr32 (cmd + 40) (ucast cns)) w;
                  (ctrl, w) = nvme_commit_sqe env Admin ctrl w
              in do {
                (cqe, ctrl, w) \<leftarrow> nvme_wait n env Admin ctrl w;
                if nvme_is_cqe_success cqe then Some (identify_buf, ctrl, w)
                else do {
                  w \<leftarrow> dma_free identify_buf 4096 w;
                  Some (0, ctrl, w)
                }
              }))
   }"

definition nvme_admin_identify_ctrl where
  "nvme_admin_identify_ctrl n env ctrl w =
     nvme_admin_identify n env NVME_ADMIN_IDENTIFY_CNS_ID_CTRL 0 ctrl w"

definition nvme_admin_identify_ns where
  "nvme_admin_identify_ns n env nsid ctrl w =
     nvme_admin_identify n env NVME_ADMIN_IDENTIFY_CNS_ID_NS nsid ctrl w"

definition nvme_destroy_cq :: "qsel \<Rightarrow> nvme_ctrl \<Rightarrow> ('h, 'z) nvme_state_scheme \<Rightarrow>
    (nvme_ctrl \<times> ('h, 'z) nvme_state_scheme) option" where
  "nvme_destroy_cq q ctrl w = do {
     w \<leftarrow> free (cq_cqe (get_cq q ctrl)) w;
     Some (put_cq q ((get_cq q ctrl)\<lparr>cq_cqe := 0\<rparr>) ctrl, w)
   }"

definition nvme_destroy_sq :: "qsel \<Rightarrow> nvme_ctrl \<Rightarrow> ('h, 'z) nvme_state_scheme \<Rightarrow>
    (nvme_ctrl \<times> ('h, 'z) nvme_state_scheme) option" where
  "nvme_destroy_sq q ctrl w = do {
     w \<leftarrow> free (sq_sqe (get_sq q ctrl)) w;
     Some (put_sq q ((get_sq q ctrl)\<lparr>sq_sqe := 0\<rparr>) ctrl, w)
   }"

text \<open>The length of an I/O queue, computed in the same way for both queues of the pair.\<close>

definition io_queue_length :: "('h, 'w) nvme_env \<Rightarrow> nvme_ctrl \<Rightarrow> ('h, 'z) nvme_state_scheme \<Rightarrow> u32" where
  "io_queue_length env ctrl w =
     (let len = 1 + ucast (mmio_read64 env (ctrl_reg ctrl + REG_CAP) (nvme_hw w) AND 0xffff)
      in if NVME_PAGE_SIZE div NVME_CQE_SIZE < len then NVME_PAGE_SIZE div NVME_CQE_SIZE else len)"

definition nvme_create_io_cq :: "nat \<Rightarrow> ('h, ('h, 'z) nvme_state_scheme) nvme_env \<Rightarrow> qsel \<Rightarrow> u16 \<Rightarrow>
    nvme_ctrl \<Rightarrow> ('h, 'z) nvme_state_scheme \<Rightarrow>
    (rc \<times> nvme_ctrl \<times> ('h, 'z) nvme_state_scheme) option" where
  "nvme_create_io_cq n env q q_idx ctrl w = do {
     (rc, ctrl, w) \<leftarrow> nvme_init_cq n env q q_idx (ucast (io_queue_length env ctrl w)) ctrl w;
     if rc \<noteq> OK then Some (Err EFAIL, ctrl, w)
     else
       (let cq = get_cq q ctrl;
            (cmd, w) = nvme_get_next_sqe (admin_sq ctrl) NVME_SQE_OPC_ADMIN_CREATE_IO_CQ 0
                         (virt_to_phys w (cq_cqe cq)) 0 w
        in if cmd = 0 then do {
             (ctrl, w) \<leftarrow> nvme_destroy_cq q ctrl w;
             Some (Err EFAIL, ctrl, w)
           } else
             (let w = mem_upd (wr32 (cmd + 40)
                        (push_bit 16 (ucast (q_mask (cq_common cq))) OR ucast (drop_bit 1 q_idx))) w;
                  w = mem_upd (wr32 (cmd + 44) 1) w;
                  (ctrl, w) = nvme_commit_sqe env Admin ctrl w
              in do {
                (cqe, ctrl, w) \<leftarrow> nvme_wait n env Admin ctrl w;
                if nvme_is_cqe_success cqe then Some (OK, ctrl, w)
                else do {
                  (ctrl, w) \<leftarrow> nvme_destroy_cq q ctrl w;
                  Some (Err EFAIL, ctrl, w)
                }
              }))
   }"

definition nvme_create_io_sq :: "nat \<Rightarrow> ('h, ('h, 'z) nvme_state_scheme) nvme_env \<Rightarrow> qsel \<Rightarrow> u16 \<Rightarrow>
    qsel \<Rightarrow> nvme_ctrl \<Rightarrow> ('h, 'z) nvme_state_scheme \<Rightarrow>
    (rc \<times> nvme_ctrl \<times> ('h, 'z) nvme_state_scheme) option" where
  "nvme_create_io_sq n env q q_idx cq ctrl w = do {
     (rc, ctrl, w) \<leftarrow> nvme_init_sq n env q q_idx (ucast (io_queue_length env ctrl w)) cq ctrl w;
     if rc \<noteq> OK then Some (Err EFAIL, ctrl, w)
     else
       (let sq = get_sq q ctrl;
            (cmd, w) = nvme_get_next_sqe (admin_sq ctrl) NVME_SQE_OPC_ADMIN_CREATE_IO_SQ 0
                         (virt_to_phys w (sq_sqe sq)) 0 w
        in if cmd = 0 then do {
             (ctrl, w) \<leftarrow> nvme_destroy_sq q ctrl w;
             Some (Err EFAIL, ctrl, w)
           } else
             (let w = mem_upd (wr32 (cmd + 40)
                        (push_bit 16 (ucast (q_mask (sq_common sq))) OR ucast (drop_bit 1 q_idx))) w;
                  w = mem_upd (wr32 (cmd + 44) (push_bit 16 (ucast (drop_bit 1 q_idx)) OR 1)) w;
                  (ctrl, w) = nvme_commit_sqe env Admin ctrl w
              in do {
                (cqe, ctrl, w) \<leftarrow> nvme_wait n env Admin ctrl w;
                if nvme_is_cqe_success cqe then Some (OK, ctrl, w)
                else do {
                  (ctrl, w) \<leftarrow> nvme_destroy_sq q ctrl w;
                  Some (Err EFAIL, ctrl, w)
                }
              }))
   }"

definition nvme_create_io_queues :: "nat \<Rightarrow> ('h, ('h, 'z) nvme_state_scheme) nvme_env \<Rightarrow> nvme_ctrl \<Rightarrow>
    ('h, 'z) nvme_state_scheme \<Rightarrow> (rc \<times> nvme_ctrl \<times> ('h, 'z) nvme_state_scheme) option" where
  "nvme_create_io_queues n env ctrl w = do {
     (rc, ctrl, w) \<leftarrow> nvme_create_io_cq n env IO 3 ctrl w;
     if rc \<noteq> OK then Some (Err EFAIL, ctrl, w)
     else do {
       (rc, ctrl, w) \<leftarrow> nvme_create_io_sq n env IO 2 IO ctrl w;
       if rc \<noteq> OK then do {
         (ctrl, w) \<leftarrow> nvme_destroy_cq IO ctrl w;
         Some (Err EFAIL, ctrl, w)
       } else Some (OK, ctrl, w)
     }
   }"

text \<open>
  The namespace structure built from the identify data at \<open>ident\<close>. A shift by the width of
  the type or more is undefined. \<open>Inl\<close> is the rejection of large blocks.
\<close>

definition ns_of_identify :: "mem \<Rightarrow> u32 \<Rightarrow> u32 \<Rightarrow> u8 \<Rightarrow> (unit + nvme_namespace) option" where
  "ns_of_identify m ident nsid mdts =
     (let current_lba_format = rd8 m (ident + ID_NS_FLBAS) AND 0xf;
          fmt = ident + ID_NS_LBAF + 4 * ucast current_lba_format;
          lbads = unat (rd8 m (fmt + 2));
          bs = push_bit lbads 1
      in if 32 \<le> lbads then None
         else if NVME_PAGE_SIZE < bs then Some (Inl ())
         else if mdts \<noteq> 0 \<and> 32 \<le> unat mdts then None
         else Some (Inr \<lparr>ns_id = nsid, lba_count = rd64 m (ident + ID_NS_NSZE), block_size = bs,
                metadata_size = ucast (rd16 m fmt),
                max_req_size = (if mdts \<noteq> 0 then push_bit (unat mdts) 1 * NVME_PAGE_SIZE div bs
                                else - 1)\<rparr>))"

definition nvme_probe_ns :: "nat \<Rightarrow> ('h, ('h, 'z) nvme_state_scheme) nvme_env \<Rightarrow> u32 \<Rightarrow> u8 \<Rightarrow>
    nvme_ctrl \<Rightarrow> ('h, 'z) nvme_state_scheme \<Rightarrow> (nvme_ctrl \<times> ('h, 'z) nvme_state_scheme) option" where
  "nvme_probe_ns n env ns_idx mdts ctrl w =
     (let nsid = ns_idx + 1 in do {
        (ident, ctrl, w) \<leftarrow> nvme_admin_identify_ns n env nsid ctrl w;
        (ctrl, w) \<leftarrow>
          (if ident = 0 then Some (ctrl, w)
           else if rd8 (memory w) (ident + ID_NS_NLBAF) < rd8 (memory w) (ident + ID_NS_FLBAS) AND 0xf
           then Some (ctrl, w)
           else if rd64 (memory w) (ident + ID_NS_NSZE) = 0 then Some (ctrl, w)
           else do {
             w \<leftarrow> (if nvme_dma_buffer w = 0 then do {
                      (buf, w) \<leftarrow> dma_alloc n env NVME_PAGE_SIZE NVME_PAGE_SIZE w;
                      let w = w\<lparr>nvme_dma_buffer := buf\<rparr>;
                      Some (if buf = 0 then w else mem_upd (memset buf 0 4096) w)
                    } else Some w);
             if nvme_dma_buffer w = 0 then Some (ctrl, w)
             else do {
               (ns, w) \<leftarrow> malloc n (discarders env) sizeof_nvme_namespace w;
               if ns = 0 then Some (ctrl, w)
               else do {
                 r \<leftarrow> ns_of_identify (memory w) ident nsid mdts;
                 (case r of
                    Inl _ \<Rightarrow> do { w \<leftarrow> free ns w; Some (ctrl, w) }
                  | Inr nsr \<Rightarrow> Some (ctrl\<lparr>ctrl_ns := Some nsr\<rparr>, w))
               }
             }
           });
        w \<leftarrow> dma_free ident 4096 w;
        Some (ctrl, w)
      })"

text \<open>The error exits of \<open>nvme_controller_enable\<close>.\<close>

definition enable_error :: "nvme_ctrl \<Rightarrow> ('h, 'z) nvme_state_scheme \<Rightarrow>
    (rc \<times> nvme_ctrl \<times> ('h, 'z) nvme_state_scheme) option" where
  "enable_error ctrl w = do {
     (ctrl, w) \<leftarrow> nvme_destroy_sq Admin ctrl w;
     (ctrl, w) \<leftarrow> nvme_destroy_cq Admin ctrl w;
     Some (Err EFAIL, ctrl, w)
   }"

definition enable_registers :: "('h, 'w) nvme_env \<Rightarrow> nvme_ctrl \<Rightarrow> ('h, 'z) nvme_state_scheme \<Rightarrow>
    ('h, 'z) nvme_state_scheme" where
  "enable_registers env ctrl w =
     (let reg = ctrl_reg ctrl;
          w = reg_write32 env (reg + REG_AQA)
                (push_bit 16 (ucast (q_mask (cq_common (admin_cq ctrl)))) OR
                 ucast (q_mask (sq_common (admin_sq ctrl)))) w;
          w = reg_write64 env (reg + REG_ASQ) (ucast (dma w (sq_sqe (admin_sq ctrl)))) w;
          w = reg_write64 env (reg + REG_ACQ) (ucast (dma w (cq_cqe (admin_cq ctrl)))) w
      in reg_write32 env (reg + REG_CC)
           (NVME_CC_EN OR push_bit 20 (of_nat NVME_CQE_SIZE_LOG) OR
            push_bit 16 (of_nat NVME_SQE_SIZE_LOG)) w)"

definition nvme_controller_enable :: "nat \<Rightarrow> ('h, ('h, 'z) nvme_state_scheme) nvme_env \<Rightarrow> nvme_ctrl \<Rightarrow>
    ('h, 'z) nvme_state_scheme \<Rightarrow> (rc \<times> nvme_ctrl \<times> ('h, 'z) nvme_state_scheme) option" where
  "nvme_controller_enable n env ctrl w = do {
     let w = reg_write32 env (ctrl_reg ctrl + REG_CC) 0 w;
     w \<leftarrow> nvme_wait_csts_rdy n env ctrl 0 w;
     let cap = mmio_read64 env (ctrl_reg ctrl + REG_CAP) (nvme_hw w);
     let ctrl = ctrl\<lparr>doorbell_stride := push_bit (unat (drop_bit 32 cap AND 0xf)) 4\<rparr>;
     (_, ctrl, w) \<leftarrow> nvme_init_cq n env Admin 1 (ucast (NVME_PAGE_SIZE div NVME_CQE_SIZE)) ctrl w;
     (_, ctrl, w) \<leftarrow> nvme_init_sq n env Admin 0 (ucast (NVME_PAGE_SIZE div NVME_SQE_SIZE)) Admin ctrl w;
     let w = enable_registers env ctrl w;
     w \<leftarrow> nvme_wait_csts_rdy n env ctrl 1 w;
     (identify, ctrl, w) \<leftarrow> nvme_admin_identify_ctrl n env ctrl w;
     if identify = 0 then enable_error ctrl w
     else do {
       let ctrl = ctrl\<lparr>ns_count := rd32 (memory w) (identify + ID_CTRL_NN)\<rparr>;
       let mdts = rd8 (memory w) (identify + ID_CTRL_MDTS);
       w \<leftarrow> dma_free identify 4096 w;
       if ns_count ctrl = 0 then enable_error ctrl w
       else do {
         (rc, ctrl, w) \<leftarrow> nvme_create_io_queues n env ctrl w;
         if rc \<noteq> OK then enable_error ctrl w
         else do {
           let ctrl = ctrl\<lparr>ns_count := 1\<rparr>;
           (ctrl, w) \<leftarrow> nvme_probe_ns n env 0 mdts ctrl w;
           Some (OK, ctrl, w)
         }
       }
     }
   }"

end
