(* ===== verification/Nvme_Io.thy ===== *)
theory Nvme_Io
  imports Nvme_Queue
begin

text \<open>
  Data transfer commands of the NVMe driver (\<open>src/src/drivers/block/nvme.c\<close>):
  \<open>nvme_io_xfer\<close> and the transfer routines \<open>nvme_bounce_xfer\<close> and \<open>nvme_prpl_xfer\<close>.
  Pointers to buffers are 32-bit words, virtual or physical as the code passes them.
\<close>

section \<open>Operations\<close>

text \<open>The number of blocks transferred, or an error.\<close>

type_synonym xfer_result = "errno + u16"

text \<open>
  Filling in the command that \<open>nvme_get_next_sqe\<close> returned. The null result is not
  checked for and the write through it is undefined.
\<close>

definition io_command :: "nvme_sq \<Rightarrow> nvme_namespace \<Rightarrow> u64 \<Rightarrow> u32 \<Rightarrow> u32 \<Rightarrow> u16 \<Rightarrow> bool \<Rightarrow>
    ('h, 'z) nvme_state_scheme \<Rightarrow> ('h, 'z) nvme_state_scheme option" where
  "io_command sq ns lba prp1 prp2 count write w =
     (let (e, w) = nvme_get_next_sqe sq (if write then NVME_SQE_OPC_IO_WRITE else NVME_SQE_OPC_IO_READ)
                     0 prp1 prp2 w
      in if e = 0 then None
         else
           (let w = mem_upd (wr32 (e + 4) (ns_id ns)) w;
                w = mem_upd (wr32 (e + 40) (ucast lba)) w;
                w = mem_upd (wr32 (e + 44) (ucast (drop_bit 32 lba))) w;
                w = mem_upd (wr32 (e + 48) (push_bit 31 1 OR (ucast count - 1))) w
            in Some w))"

fun io_retry :: "nat \<Rightarrow> ('h, 'w) nvme_env \<Rightarrow> nvme_namespace \<Rightarrow> u64 \<Rightarrow> u32 \<Rightarrow> u32 \<Rightarrow> u16 \<Rightarrow> bool \<Rightarrow>
    nvme_ctrl \<Rightarrow> ('h, 'z) nvme_state_scheme \<Rightarrow>
    (xfer_result \<times> nvme_ctrl \<times> ('h, 'z) nvme_state_scheme) option" where
  "io_retry 0 env ns lba prp1 prp2 count write ctrl w = None"
| "io_retry (Suc n) env ns lba prp1 prp2 count write ctrl w = do {
     w \<leftarrow> io_command (io_sq ctrl) ns lba prp1 prp2 count write w;
     let (ctrl, w) = nvme_commit_sqe env IO ctrl w;
     (cqe, ctrl, w) \<leftarrow> nvme_wait (Suc n) env IO ctrl w;
     if nvme_is_cqe_success cqe then Some (Inr count, ctrl, w)
     else io_retry n env ns lba prp1 prp2 count write ctrl w
   }"

definition nvme_io_xfer :: "nat \<Rightarrow> ('h, 'w) nvme_env \<Rightarrow> nvme_namespace \<Rightarrow> u64 \<Rightarrow> u32 \<Rightarrow> u32 \<Rightarrow> u16 \<Rightarrow>
    bool \<Rightarrow> nvme_ctrl \<Rightarrow> ('h, 'z) nvme_state_scheme \<Rightarrow>
    (xfer_result \<times> nvme_ctrl \<times> ('h, 'z) nvme_state_scheme) option" where
  "nvme_io_xfer n env ns lba prp1 prp2 count write ctrl w =
     (if prp1 AND 3 \<noteq> 0 \<or> prp2 AND 3 \<noteq> 0 then Some (Inl EBUSY, ctrl, w)
      else io_retry n env ns lba prp1 prp2 count write ctrl w)"

definition nvme_bounce_xfer :: "nat \<Rightarrow> ('h, 'w) nvme_env \<Rightarrow> nvme_namespace \<Rightarrow> u64 \<Rightarrow> u32 \<Rightarrow> u16 \<Rightarrow>
    bool \<Rightarrow> nvme_ctrl \<Rightarrow> ('h, 'z) nvme_state_scheme \<Rightarrow>
    (xfer_result \<times> nvme_ctrl \<times> ('h, 'z) nvme_state_scheme) option" where
  "nvme_bounce_xfer n env ns lba buf count write ctrl w =
     (if block_size ns = 0 then None
      else
        (let max_blocks = ucast (NVME_PAGE_SIZE div block_size ns);
             blocks = (if count < max_blocks then count else max_blocks);
             w = (if write
                  then mem_upd (\<lambda>m. mem_copy m (nvme_dma_buffer w) buf
                         (unat (ucast blocks * block_size ns))) w
                  else w)
         in do {
           (res, ctrl, w) \<leftarrow> nvme_io_xfer n env ns lba (nvme_dma_buffer w) 0 blocks write ctrl w;
           (let w = (case res of
                       Inr r \<Rightarrow> if write then w
                         else mem_upd (\<lambda>m. mem_copy m buf (nvme_dma_buffer w)
                                (unat (ucast r * block_size ns))) w
                     | Inl _ \<Rightarrow> w)
            in Some (res, ctrl, w))
         }))"

definition NVME_MAX_PRPL_ENTRIES :: nat where "NVME_MAX_PRPL_ENTRIES = 15"

text \<open>
  The loop that stores the page list, starting at the first page (which is skipped);
  the boolean tells whether the list was completed, and not that it was too long.
\<close>

function prpl_fill :: "u32 \<Rightarrow> bool \<Rightarrow> nat \<Rightarrow> u32 \<Rightarrow> int \<Rightarrow> mem \<Rightarrow> bool \<times> mem" where
  "prpl_fill prpl first_page prpl_len base sz m =
     (if sz \<le> 0 then (True, m)
      else if first_page then prpl_fill prpl False prpl_len (base + NVME_PAGE_SIZE) (sz - 4096) m
      else if NVME_MAX_PRPL_ENTRIES \<le> prpl_len then (False, m)
      else prpl_fill prpl False (Suc prpl_len) (base + NVME_PAGE_SIZE) (sz - 4096)
             (wr64 (prpl + 8 * of_nat prpl_len) (ucast base) m))"
  by auto
termination
  by (relation "measure (\<lambda>(_, _, _, _, sz, _). nat sz)") auto

declare prpl_fill.simps [simp del]

definition nvme_prpl_xfer :: "nat \<Rightarrow> ('h, 'w) nvme_env \<Rightarrow> nvme_namespace \<Rightarrow> u64 \<Rightarrow> u32 \<Rightarrow> u16 \<Rightarrow>
    bool \<Rightarrow> nvme_ctrl \<Rightarrow> ('h, 'z) nvme_state_scheme \<Rightarrow>
    (xfer_result \<times> nvme_ctrl \<times> ('h, 'z) nvme_state_scheme) option" where
  "nvme_prpl_xfer n env ns lba buf count write ctrl w =
     (let base = buf;
          count = (if max_req_size ns < ucast count then ucast (max_req_size ns) else count);
          bytes = ucast count * block_size ns;
          single = (\<lambda>w. nvme_io_xfer n env ns lba (virt_to_phys w buf) 0 count write ctrl w);
          bounce = (\<lambda>w. nvme_bounce_xfer n env ns lba (virt_to_phys w buf) count write ctrl w)
      in if bytes + (base AND 0xfff) \<le> NVME_PAGE_SIZE then single w
         else if base AND 0xfff \<noteq> 0 then bounce w
         else if (scast bytes :: u64) AND (ucast (block_size ns) - 1) \<noteq> 0 then bounce w
         else if NVME_PAGE_SIZE * 2 < block_size ns * ucast count then
           (let prpl = nvme_dma_buffer w;
                (complete, m) = prpl_fill prpl True 0 base (sint bytes) (memory w);
                w = w\<lparr>memory := m\<rparr>
            in if complete
               then nvme_io_xfer n env ns lba (virt_to_phys w buf) (virt_to_phys w prpl) count write ctrl w
               else bounce w)
         else if NVME_PAGE_SIZE < block_size ns * ucast count then
           nvme_io_xfer n env ns lba (virt_to_phys w buf) (virt_to_phys w (buf + NVME_PAGE_SIZE))
             count write ctrl w
         else single w)"

section \<open>Commands as the controller reads them\<close>

text \<open>A command as the controller decodes it from a submission entry.\<close>

record nvme_command =
  cmd_opc :: u8
  cmd_cid :: u16
  cmd_nsid :: u32
  cmd_mptr :: u64
  cmd_prp1 :: u64
  cmd_prp2 :: u64
  cmd_dw10 :: u32
  cmd_dw11 :: u32
  cmd_dw12 :: u32
  cmd_rest :: "u32 list"

definition decode_sqe :: "mem \<Rightarrow> u32 \<Rightarrow> nvme_command" where
  "decode_sqe m a = \<lparr>cmd_opc = ucast (rd32 m a), cmd_cid = ucast (drop_bit 16 (rd32 m a)),
     cmd_nsid = rd32 m (a + 4), cmd_mptr = rd64 m (a + 16), cmd_prp1 = rd64 m (a + 24),
     cmd_prp2 = rd64 m (a + 32), cmd_dw10 = rd32 m (a + 40), cmd_dw11 = rd32 m (a + 44),
     cmd_dw12 = rd32 m (a + 48),
     cmd_rest = [rd32 m (a + 8), rd32 m (a + 12), rd32 m (a + 52), rd32 m (a + 56), rd32 m (a + 60)]\<rparr>"

definition cmd_slba :: "nvme_command \<Rightarrow> u64" where
  "cmd_slba c = ucast (cmd_dw10 c) OR push_bit 32 (ucast (cmd_dw11 c))"

definition cmd_nlb :: "nvme_command \<Rightarrow> nat" where
  "cmd_nlb c = unat (cmd_dw12 c AND 0xffff) + 1"

definition io_cmd :: "nvme_sq \<Rightarrow> nvme_namespace \<Rightarrow> u64 \<Rightarrow> u32 \<Rightarrow> u32 \<Rightarrow> u16 \<Rightarrow> bool \<Rightarrow> nvme_command" where
  "io_cmd sq ns lba prp1 prp2 count write = \<lparr>cmd_opc = (if write then NVME_SQE_OPC_IO_WRITE else NVME_SQE_OPC_IO_READ), cmd_cid = sq_tail sq,
     cmd_nsid = ns_id ns, cmd_mptr = 0, cmd_prp1 = ucast prp1, cmd_prp2 = ucast prp2,
     cmd_dw10 = ucast lba, cmd_dw11 = ucast (drop_bit 32 lba),
     cmd_dw12 = push_bit 31 1 OR (ucast count - 1), cmd_rest = [0, 0, 0, 0, 0]\<rparr>"

section \<open>Lemmas\<close>

lemma cdw0_fields:
  "ucast (ucast (opc :: u8) OR push_bit 16 (ucast (t :: u16)) :: u32) = opc"
  "ucast (drop_bit 16 (ucast (opc :: u8)) OR drop_bit 16 (push_bit 16 (ucast (t :: u16))) :: u32) = t"
  by (rule bit_eqI; auto simp: bit_simps dest: bit_imp_le_length)+

lemma io_command_decode:
  assumes "io_command sq ns lba prp1 prp2 count write w = Some w'"
  shows "decode_sqe (memory w') (sqe_addr sq) = io_cmd sq ns lba prp1 prp2 count write"
  using assms
  by (auto simp: io_command_def nvme_get_next_sqe_def Let_def decode_sqe_def io_cmd_def mem_simps cdw0_fields
      split: if_splits)


lemma lba_fields: "ucast (ucast (lba :: u64) :: u32) OR push_bit 32 (ucast (ucast (drop_bit 32 lba) :: u32)) = lba"
  by (rule bit_eqI) (auto simp: bit_simps dest: bit_imp_le_length)

lemma io_cmd_slba [simp]: "cmd_slba (io_cmd sq ns lba prp1 prp2 count write) = lba"
  by (simp add: cmd_slba_def io_cmd_def lba_fields)

lemma ucast_minus_1:
  assumes "(count :: u16) \<noteq> 0"
  shows "ucast count - 1 = (ucast (count - 1) :: u32)"
proof -
  have p: "0 < unat count" using assms by (simp add: unat_gt_0)
  then have "unat (ucast count - 1 :: u32) = unat count - 1"
    by (simp add: unat_sub_if_size word_size)
  moreover have "unat (count - 1) = unat count - 1"
    using p by (simp add: unat_sub_if_size)
  ultimately show ?thesis by (simp add: word_unat_eq_iff)
qed

lemma io_cmd_nlb:
  assumes "count \<noteq> 0"
  shows "cmd_nlb (io_cmd sq ns lba prp1 prp2 count write) = unat count"
proof -
  have "(push_bit 31 b OR (ucast (count - 1) :: u32)) AND mask 16 = ucast (count - 1)" for b
    by (rule bit_eqI) (auto simp: bit_simps dest: bit_imp_le_length)
  from this [of 1]
  have "(push_bit 31 1 OR (ucast (count - 1) :: u32)) AND 0xffff = ucast (count - 1)"
    by (simp add: mask_eq_exp_minus_1)
  moreover have "unat (count - 1) = unat count - 1" "0 < unat count"
    using assms by (simp_all add: unat_sub_if_size unat_gt_0 Suc_le_eq)
  ultimately show ?thesis
    by (simp add: cmd_nlb_def io_cmd_def ucast_minus_1 [OF assms])
qed

end
