(* ===== verification/Nvme_Ring.thy ===== *)
theory Nvme_Ring
  imports Nvme_Io
begin

text \<open>
  The I/O queue pair as a ring: what the driver relies on of the controller, the invariant
  that ties the driver's indices and phase bit to the number of commands executed, and the
  correctness of \<open>nvme_io_xfer\<close> against it.
\<close>

section \<open>The controller\<close>


record ring_view =
  rv_sq :: u32
  rv_cq :: u32
  rv_sqdbl :: u32
  rv_cqdbl :: u32
  rv_len :: nat
  rv_n :: nat

definition rv_slot :: "ring_view \<Rightarrow> nat" where "rv_slot v = rv_n v mod rv_len v"
definition rv_phase :: "ring_view \<Rightarrow> bool" where "rv_phase v \<longleftrightarrow> even (rv_n v div rv_len v)"
definition rv_next :: "ring_view \<Rightarrow> ring_view" where "rv_next v = v\<lparr>rv_n := rv_n v + 1\<rparr>"

definition cqe_bytes :: "u32 \<Rightarrow> u32 \<Rightarrow> nat \<Rightarrow> u16 \<Rightarrow> u16 \<Rightarrow> u16 \<Rightarrow> bool \<Rightarrow> u8 list" where
  "cqe_bytes dw0 dw1 sqhd sqid cid status p =
     le_bytes 4 (unat dw0) @ le_bytes 4 (unat dw1) @ le_bytes 2 sqhd @ le_bytes 2 (unat sqid) @
     le_bytes 2 (unat cid) @ le_bytes 2 (unat (push_bit 1 status OR of_bool p))"

definition sq_slot :: "ring_view \<Rightarrow> u32" where "sq_slot v = rv_sq v + 64 * of_nat (rv_slot v)"
definition cq_slot :: "ring_view \<Rightarrow> u32" where "cq_slot v = rv_cq v + 16 * of_nat (rv_slot v)"

definition phase_at :: "mem \<Rightarrow> u32 \<Rightarrow> bool" where
  "phase_at m a = bit (rd32 m (a + 12)) 16"

text \<open>A transfer that stays within the page that PRP entry 1 points into.\<close>

definition one_page :: "nat \<Rightarrow> nvme_command \<Rightarrow> bool" where
  "one_page lbs c \<longleftrightarrow> unat (cmd_prp1 c) < 2 ^ 32 \<and>
     unat (cmd_prp1 c) mod 4096 + cmd_nlb c * lbs \<le> 4096"

definition transfer :: "nat \<Rightarrow> (u64 \<Rightarrow> u8 list) \<Rightarrow> nvme_command \<Rightarrow> mem \<Rightarrow>
    (u64 \<Rightarrow> u8 list) \<times> mem" where
  "transfer lbs d c m =
     (if cmd_opc c = NVME_SQE_OPC_IO_READ then
        (d, mem_write m (ucast (cmd_prp1 c))
              (concat (map (\<lambda>i. d (cmd_slba c + of_nat i)) [0..<cmd_nlb c])))
      else if cmd_opc c = NVME_SQE_OPC_IO_WRITE then
        (\<lambda>l. if unat (l - cmd_slba c) < cmd_nlb c
             then mem_read m (ucast (cmd_prp1 c) + of_nat (unat (l - cmd_slba c) * lbs)) lbs
             else d l, m)
      else (d, m))"

text \<open>
  What the driver relies on of a controller with a created I/O queue pair. \<open>quiet\<close> says
  that no command is outstanding, \<open>view\<close> gives the registered queues with the number of
  commands executed so far, \<open>disk\<close> the blocks of the namespace and \<open>status\<close> the status
  field (without the phase tag) that a command submitted now completes with. A quiet
  controller leaves memory alone, and ringing the completion doorbell does not wake it.
  Ringing the submission doorbell with the next tail makes it fetch the command, execute
  it and post one completion entry in the next slot with the current phase tag, after
  some number of steps in which the phase tag of that slot stays as it was.
\<close>

definition controller_idle where
  "controller_idle env quiet view disk \<longleftrightarrow>
     (\<forall>h m. quiet h \<longrightarrow> (\<exists>h'. device env (h, m) = (h', m) \<and> quiet h' \<and> view h' = view h \<and> disk h' = disk h))"

definition controller_cq_doorbell where
  "controller_cq_doorbell env quiet view disk \<longleftrightarrow>
     (\<forall>h x. quiet h \<longrightarrow> (let h' = mmio_write32 env (rv_cqdbl (view h)) x h in
        quiet h' \<and> view h' = view h \<and> disk h' = disk h))"

definition command_completes where
  "command_completes env quiet view disk status lbs h m \<longleftrightarrow>
     (let v = view h; c = decode_sqe m (sq_slot v); st = status h c;
          tail = (rv_n v + 1) mod rv_len v;
          h1 = mmio_write32 env (rv_sqdbl v) (of_nat tail) h
      in \<exists>k h' m1 dw0 dw1 sqid.
           (device env ^^ Suc k) (h1, m) =
             (h', mem_write m1 (cq_slot v) (cqe_bytes dw0 dw1 tail sqid (cmd_cid c) st (rv_phase v))) \<and>
           (\<forall>j\<le>k. phase_at (snd ((device env ^^ j) (h1, m))) (cq_slot v) = phase_at m (cq_slot v)) \<and>
           quiet h' \<and> view h' = rv_next v \<and>
           (if st = 0 then (disk h', m1) = transfer lbs (disk h) c m
            else \<exists>xs. length xs \<le> cmd_nlb c * lbs \<and> m1 = mem_write m (ucast (cmd_prp1 c)) xs))"

definition controller_command where
  "controller_command env quiet view disk status lbs \<longleftrightarrow>
     (\<forall>h m. quiet h \<longrightarrow> one_page lbs (decode_sqe m (sq_slot (view h))) \<longrightarrow>
        command_completes env quiet view disk status lbs h m)"

definition nvme_controller where
  "nvme_controller env quiet view disk status lbs \<longleftrightarrow>
     controller_idle env quiet view disk \<and> controller_cq_doorbell env quiet view disk \<and>
     controller_command env quiet view disk status lbs \<and>
     (\<forall>h l. quiet h \<longrightarrow> length (disk h l) = lbs)"

text \<open>
  The driver's I/O queue pair in step with the controller's view of it: indices and phase
  are those that follow from the number of commands, the length is a power of two, the
  entries are where the controller has been told, and of the completion slots exactly
  those already filled in the current pass carry the current phase tag.
\<close>

definition ring_layout :: "nat \<Rightarrow> nvme_ctrl \<Rightarrow> bool" where
  "ring_layout len ctrl \<longleftrightarrow>
     sq_sqe (io_sq ctrl) \<noteq> 0 \<and>
     unat (sq_sqe (io_sq ctrl)) + 64 * len \<le> 2 ^ 32 \<and> unat (cq_cqe (io_cq ctrl)) + 16 * len \<le> 2 ^ 32 \<and>
     {unat (sq_sqe (io_sq ctrl)) ..< unat (sq_sqe (io_sq ctrl)) + 64 * len} \<inter>
     {unat (cq_cqe (io_cq ctrl)) ..< unat (cq_cqe (io_cq ctrl)) + 16 * len} = {}"

definition rings_ok :: "ring_view \<Rightarrow> nvme_ctrl \<Rightarrow> ('h, 'z) nvme_state_scheme \<Rightarrow> bool" where
  "rings_ok v ctrl w \<longleftrightarrow>
     (let sq = io_sq ctrl; cq = io_cq ctrl; i = rv_slot v; len = rv_len v in
      (\<exists>p. 1 \<le> p \<and> p \<le> 15 \<and> len = 2 ^ p) \<and>
      q_mask (sq_common sq) = of_nat (len - 1) \<and> q_mask (cq_common cq) = of_nat (len - 1) \<and>
      q_dbl (sq_common sq) = rv_sqdbl v \<and> q_dbl (cq_common cq) = rv_cqdbl v \<and>
      rv_sq v = virt_to_phys w (sq_sqe sq) \<and> rv_cq v = virt_to_phys w (cq_cqe cq) \<and>
      sq_cq sq = IO \<and> sq_head sq = of_nat i \<and> sq_tail sq = of_nat i \<and> cq_head cq = of_nat i \<and>
      cq_phase cq = of_bool (rv_phase v) \<and> ring_layout len ctrl \<and>
      (\<forall>s<len. phase_at (memory w) (cq_cqe cq + 16 * of_nat s) = ((s < i) = rv_phase v)))"

definition rings_region :: "nat \<Rightarrow> nvme_ctrl \<Rightarrow> u32 set" where
  "rings_region len ctrl = region (sq_sqe (io_sq ctrl)) (64 * len) \<union> region (cq_cqe (io_cq ctrl)) (16 * len)"

definition ring_ctrl :: "ring_view \<Rightarrow> nvme_ctrl \<Rightarrow> nvme_ctrl" where
  "ring_ctrl v ctrl = ctrl\<lparr>
     io_cq := (io_cq ctrl)\<lparr>cq_phase := of_bool (rv_phase v), cq_head := of_nat (rv_slot v)\<rparr>,
     io_sq := (io_sq ctrl)\<lparr>sq_tail := of_nat (rv_slot v), sq_head := of_nat (rv_slot v)\<rparr>\<rparr>"

definition disk_blocks :: "(u64 \<Rightarrow> u8 list) \<Rightarrow> u64 \<Rightarrow> nat \<Rightarrow> u8 list" where
  "disk_blocks d lba n = concat (map (\<lambda>i. d (lba + of_nat i)) [0..<n])"

definition disk_update :: "nat \<Rightarrow> mem \<Rightarrow> u32 \<Rightarrow> u64 \<Rightarrow> nat \<Rightarrow> (u64 \<Rightarrow> u8 list) \<Rightarrow> u64 \<Rightarrow> u8 list" where
  "disk_update lbs m buf lba n d =
     (\<lambda>l. if unat (l - lba) < n then mem_read m (buf + of_nat (unat (l - lba) * lbs)) lbs else d l)"

text \<open>The state after one completed round: rings one command further, buffer and disk as commanded.\<close>

definition io_done where
  "io_done quiet view disk lbs v ctrl buf lba count write ok w w' \<longleftrightarrow>
     quiet (nvme_hw w') \<and> view (nvme_hw w') = rv_next v \<and>
     rings_ok (rv_next v) (ring_ctrl (rv_next v) ctrl) w' \<and>
     w' = w\<lparr>memory := memory w', nvme_hw := nvme_hw w'\<rparr> \<and>
     same_outside (rings_region (rv_len v) ctrl \<union> region buf (unat count * lbs)) (memory w) (memory w') \<and>
     (ok \<longrightarrow>
        (if write then disk (nvme_hw w') = disk_update lbs (memory w) buf lba (unat count) (disk (nvme_hw w))
         else disk (nvme_hw w') = disk (nvme_hw w) \<and>
           mem_read (memory w') buf (unat count * lbs) = disk_blocks (disk (nvme_hw w)) lba (unat count)))"

text \<open>A controller that meets these expectations, with one step per command.\<close>

record ref_ctl =
  rc_view :: ring_view
  rc_disk :: "u64 \<Rightarrow> u8 list"
  rc_pending :: bool

definition ref_write32 :: "u32 \<Rightarrow> u32 \<Rightarrow> ref_ctl \<Rightarrow> ref_ctl" where
  "ref_write32 a x h =
     (if a = rv_sqdbl (rc_view h) \<and> x = of_nat (rv_slot (rv_next (rc_view h)))
      then h\<lparr>rc_pending := True\<rparr> else h)"

definition ref_device :: "nat \<Rightarrow> (ref_ctl \<Rightarrow> nvme_command \<Rightarrow> u16) \<Rightarrow> ref_ctl \<times> mem \<Rightarrow> ref_ctl \<times> mem" where
  "ref_device lbs status = (\<lambda>(h, m).
     (let v = rc_view h; c = decode_sqe m (sq_slot v); st = status h c;
          (d, m1) = (if st = 0 then transfer lbs (rc_disk h) c m else (rc_disk h, m)) in
      if rc_pending h
      then (h\<lparr>rc_view := rv_next v, rc_disk := d, rc_pending := False\<rparr>,
            mem_write m1 (cq_slot v) (cqe_bytes 0 0 (rv_slot (rv_next v)) 1 (cmd_cid c) st (rv_phase v)))
      else (h, m)))"

definition ref_env :: "nat \<Rightarrow> (ref_ctl \<Rightarrow> nvme_command \<Rightarrow> u16) \<Rightarrow> (ref_ctl, 'w) nvme_env" where
  "ref_env lbs status = \<lparr>mmio_read32 = (\<lambda>_ _. 1), mmio_read64 = (\<lambda>_ _. 0), mmio_write32 = ref_write32,
     mmio_write64 = (\<lambda>_ _ h. h), device = ref_device lbs status, discarders = []\<rparr>"

definition ref_quiet :: "nat \<Rightarrow> ref_ctl \<Rightarrow> bool" where
  "ref_quiet lbs h \<longleftrightarrow> \<not> rc_pending h \<and> rv_sqdbl (rc_view h) \<noteq> rv_cqdbl (rc_view h) \<and>
     (\<forall>l. length (rc_disk h l) = lbs)"

text \<open>A concrete driver and controller state for the witnesses.\<close>

definition ex_view :: ring_view where
  "ex_view = \<lparr>rv_sq = 0x1800, rv_cq = 0x2800, rv_sqdbl = 0x100, rv_cqdbl = 0x104, rv_len = 2, rv_n = 0\<rparr>"

definition ex_ctl :: ref_ctl where
  "ex_ctl = \<lparr>rc_view = ex_view, rc_disk = (\<lambda>l. replicate 512 (ucast l)), rc_pending = False\<rparr>"

definition ex_state :: "ref_ctl nvme_state" where
  "ex_state = \<lparr>memory = (\<lambda>_. 0), virt_offset = 0x800, free_blocks = [], freemem = 0, usedmem = 0,
     maxusedmem = 0, nvme_hw = ex_ctl, nvme_dma_buffer = 0x3800\<rparr>"

definition ex_ctrl :: nvme_ctrl where
  "ex_ctrl =
     (let sq = \<lparr>sq_common = \<lparr>q_dbl = 0x100, q_mask = 1\<rparr>, sq_sqe = 0x1000, sq_cq = IO, sq_head = 0, sq_tail = 0\<rparr>;
          cq = \<lparr>cq_common = \<lparr>q_dbl = 0x104, q_mask = 1\<rparr>, cq_cqe = 0x2000, cq_head = 0, cq_phase = 1\<rparr>
      in \<lparr>ctrl_ns = None, ctrl_reg = 0, doorbell_stride = 4, admin_sq = sq, admin_cq = cq, ns_count = 1,
          io_sq = sq, io_cq = cq\<rparr>)"

definition ex_ns :: nvme_namespace where
  "ex_ns = \<lparr>ns_id = 1, lba_count = 1000, block_size = 512, metadata_size = 0, max_req_size = 8\<rparr>"

abbreviation ex_env :: "u16 \<Rightarrow> (ref_ctl, ref_ctl nvme_state) nvme_env" where
  "ex_env st \<equiv> ref_env 512 (\<lambda>_ _. st)"

section \<open>Lemmas\<close>

lemma length_cqe_bytes [simp]: "length (cqe_bytes dw0 dw1 sqhd sqid cid st p) = 16"
  by (simp add: cqe_bytes_def)

lemma take_drop_cqe_bytes:
  "take 2 (drop 8 (cqe_bytes dw0 dw1 sqhd sqid cid st p)) = le_bytes 2 sqhd"
  "take 2 (drop 12 (cqe_bytes dw0 dw1 sqhd sqid cid st p)) = le_bytes 2 (unat cid)"
  "take 2 (drop 14 (cqe_bytes dw0 dw1 sqhd sqid cid st p)) = le_bytes 2 (unat (push_bit 1 st OR of_bool p))"
  "take 4 (drop 12 (cqe_bytes dw0 dw1 sqhd sqid cid st p)) =
     le_bytes 2 (unat cid) @ le_bytes 2 (unat (push_bit 1 st OR of_bool p))"
  by (simp_all add: cqe_bytes_def)

lemma read_posted_cqe:
  assumes "sqhd < 2 ^ 16"
  shows "cqe_sq_head (read_cqe (mem_write m a (cqe_bytes dw0 dw1 sqhd sqid cid st p)) a) = of_nat sqhd"
    and "cqe_cid (read_cqe (mem_write m a (cqe_bytes dw0 dw1 sqhd sqid cid st p)) a) = cid"
    and "cqe_status (read_cqe (mem_write m a (cqe_bytes dw0 dw1 sqhd sqid cid st p)) a)
      = push_bit 1 st OR of_bool p"
  using rd16_sub [of 8 "cqe_bytes dw0 dw1 sqhd sqid cid st p" m a]
    rd16_sub [of 12 "cqe_bytes dw0 dw1 sqhd sqid cid st p" m a]
    rd16_sub [of 14 "cqe_bytes dw0 dw1 sqhd sqid cid st p" m a] assms
  by (simp_all add: read_cqe_def take_drop_cqe_bytes le_val_bytes)

lemma posted_phase:
  "bit (rd32 (mem_write m a (cqe_bytes dw0 dw1 sqhd sqid cid st p)) (a + 12)) 16 = p"
proof -
  let ?s = "push_bit 1 st OR of_bool p"
  have "rd32 (mem_write m a (cqe_bytes dw0 dw1 sqhd sqid cid st p)) (a + 12)
      = of_nat (unat cid + 65536 * unat ?s)"
    using rd32_sub [of 12 "cqe_bytes dw0 dw1 sqhd sqid cid st p" m a]
    by (simp add: take_drop_cqe_bytes le_val_append le_val_bytes)
  moreover have "drop_bit 16 (unat cid + 65536 * unat ?s) = unat ?s"
    using unsigned_less [of cid, where 'a = nat] by (simp add: drop_bit_eq_div)
  then have "bit (unat cid + 65536 * unat ?s) 16 = bit (unat ?s) 0"
    by (simp only: bit_iff_odd [of _ 16] drop_bit_eq_div bit_0)
  moreover have "bit (unat (push_bit k st OR of_bool p)) 0 = p" if "0 < k" for k
    using that by (auto simp: bit_simps)
  from this [of 1] have "bit (unat ?s) 0 = p" by simp
  ultimately show ?thesis by (simp only: bit_simps) simp
qed

lemma success_posted:
  assumes "cqe_status c = push_bit 1 st OR of_bool p"
  shows "nvme_is_cqe_success c \<longleftrightarrow> st AND 0xff = 0"
proof -
  have "drop_bit k (push_bit k st OR of_bool p) AND mask 8 = st AND mask 8" if "0 < k" "k \<le> 8" for k
    using that by (intro bit_eqI) (auto simp: bit_simps)
  from this [of 1] show ?thesis
    using assms by (simp add: nvme_is_cqe_success_def mask_eq_exp_minus_1)
qed


text \<open>Index arithmetic of a ring with a power-of-two length.\<close>

lemma ring_step_index:
  assumes "len = 2 ^ p" "1 \<le> p" "p \<le> 15" "i < len"
  shows "(of_nat i + 1 :: u16) AND of_nat (len - 1) = of_nat ((i + 1) mod len)"
    and "(of_nat ((i + 1) mod len) :: u16) < of_nat i \<longleftrightarrow> i + 1 = len"
    and "(of_nat ((i + 1) mod len) :: u16) \<noteq> of_nat i"
proof -
  have l: "len \<le> 2 ^ 15" unfolding assms(1) using assms(3) by (intro power_increasing) simp_all
  have m: "of_nat (len - 1) = (mask p :: u16)"
    by (simp add: assms(1) mask_eq_exp_minus_1)
  have t: "unat (take_bit p x) = unat x mod 2 ^ p" for x :: u16
    unfolding unsigned_take_bit_eq by (simp only: take_bit_eq_mod)
  have "unat (of_nat i + 1 :: u16) = i + 1"
    using l assms(4) by (simp add: unat_word_ariths unat_of_nat)
  then have "unat ((of_nat i + 1 :: u16) AND mask p) = (i + 1) mod len"
    by (simp only: take_bit_eq_mask [symmetric] t assms(1))
  then have "(of_nat i + 1 :: u16) AND mask p = of_nat ((i + 1) mod len)"
    by (metis of_nat_unat ucast_id)
  then show "(of_nat i + 1 :: u16) AND of_nat (len - 1) = of_nat ((i + 1) mod len)"
    by (simp only: m)
  have u: "unat (of_nat x :: u16) = x" if "x < len" for x
    using that l by (simp add: unat_of_nat take_bit_nat_eq_self)
  have "2 \<le> len" using assms(1,2) power_increasing [of 1 p "2 :: nat"] by simp
  then have ne: "(i + 1) mod len \<noteq> i" using assms(4) by (cases "i + 1 = len") auto
  have lt: "(i + 1) mod len < len" using assms(4) by simp
  show "(of_nat ((i + 1) mod len) :: u16) < of_nat i \<longleftrightarrow> i + 1 = len"
    using assms(4) u [OF lt] u [OF assms(4)] \<open>2 \<le> len\<close>
    by (cases "i + 1 = len") (auto simp: word_less_nat_alt)
  show "(of_nat ((i + 1) mod len) :: u16) \<noteq> of_nat i"
    using ne u [OF lt] u [OF assms(4)] by metis
qed


lemma phase_at_same:
  "same_outside R m m' \<Longrightarrow> region a 16 \<inter> R = {} \<Longrightarrow> phase_at m' a = phase_at m a"
proof -
  assume a: "same_outside R m m'" "region a 16 \<inter> R = {}"
  have "region (a + 12) 4 \<subseteq> region a 16"
    by (auto simp: region_def) unat_arith
  then have "mem_read m' (a + 12) 4 = mem_read m (a + 12) 4"
    using a by (intro mem_read_same) auto
  then show ?thesis by (simp add: phase_at_def rd32_def)
qed

lemma io_command_frame:
  assumes "io_command sq ns lba prp1 prp2 count write w = Some w'"
  shows "w' = w\<lparr>memory := memory w'\<rparr>" "same_outside (region (sqe_addr sq) 64) (memory w) (memory w')"
proof -
  show "w' = w\<lparr>memory := memory w'\<rparr>"
    using assms by (auto simp: io_command_def nvme_get_next_sqe_def mem_upd_def Let_def split: if_splits)
  show "same_outside (region (sqe_addr sq) 64) (memory w) (memory w')"
    using assms unfolding io_command_def nvme_get_next_sqe_def Let_def
    by (auto split: if_splits simp: same_outside_wr region_sub region_mono)
qed

lemma run_device_iter:
  "(run_device env ^^ j) w =
     (let (h, m) = (device env ^^ j) (nvme_hw w, phys_view (virt_offset w) (memory w)) in
      w\<lparr>memory := virt_view (virt_offset w) m, nvme_hw := h\<rparr>)"
  by (induction j) (auto simp: run_device_def Let_def split: prod.splits)

lemma nvme_wait_polls:
  assumes "\<forall>j. 1 \<le> j \<and> j \<le> k \<longrightarrow> \<not> nvme_poll_cq (get_cq (sq_cq (get_sq q ctrl)) ctrl) ((run_device env ^^ j) w)"
    and "nvme_poll_cq (get_cq (sq_cq (get_sq q ctrl)) ctrl) ((run_device env ^^ Suc k) w)" and "k < n"
  shows "nvme_wait n env q ctrl w = Some (nvme_consume_cqe env q ctrl ((run_device env ^^ Suc k) w))"
  using assms
proof (induction k arbitrary: n w)
  case 0
  then show ?case by (cases n) (auto simp: Let_def)
next
  case (Suc k)
  obtain n' where n: "n = Suc n'" using Suc.prems(3) by (cases n) auto
  have sw: "(run_device env ^^ j) (run_device env w) = (run_device env ^^ Suc j) w" for j
    by (simp add: funpow_swap1)
  have "\<not> nvme_poll_cq (get_cq (sq_cq (get_sq q ctrl)) ctrl) (run_device env w)"
    using Suc.prems(1) [rule_format, of 1] by simp
  moreover have "nvme_wait n' env q ctrl (run_device env w) =
     Some (nvme_consume_cqe env q ctrl ((run_device env ^^ Suc k) (run_device env w)))"
    using Suc.prems n by (intro Suc.IH) (simp_all only: sw, auto)
  ultimately show ?case by (simp only: n nvme_wait.simps Let_def sw) simp
qed

lemma poll_phase: "nvme_poll_cq cq w \<longleftrightarrow> of_bool (phase_at (memory w) (cqe_addr cq)) = cq_phase cq"
proof -
  have "x AND NVME_CQE_DW3_P \<noteq> 0 \<longleftrightarrow> bit x 16" for x :: u32
  proof -
    have p: "NVME_CQE_DW3_P = 2 ^ 16" by (simp add: NVME_CQE_DW3_P_def)
    show ?thesis unfolding p and_exp_eq_0_iff_not_bit by simp
  qed
  then show ?thesis by (simp add: nvme_poll_cq_def phase_at_def Let_def)
qed

lemma ucast_up_down: "ucast (ucast (x :: u32) :: u64) = x"
  by (rule bit_eqI) (simp add: bit_simps)

lemma rd_phys_view_off:
  "rd16 (phys_view v m) (a + v + c) = rd16 m (a + c)"
  "rd32 (phys_view v m) (a + v + c) = rd32 m (a + c)"
  "rd64 (phys_view v m) (a + v + c) = rd64 m (a + c)"
proof -
  have e: "a + v + c = a + c + v" by simp
  show "rd16 (phys_view v m) (a + v + c) = rd16 m (a + c)" unfolding e by simp
  show "rd32 (phys_view v m) (a + v + c) = rd32 m (a + c)" unfolding e by simp
  show "rd64 (phys_view v m) (a + v + c) = rd64 m (a + c)" unfolding e by simp
qed

lemma decode_phys_view [simp]: "decode_sqe (phys_view v m) (a + v) = decode_sqe m a"
  by (simp add: decode_sqe_def rd_phys_view_off)

lemma phase_at_phys_view [simp]: "phase_at (phys_view v m) (a + v) = phase_at m a"
  by (simp add: phase_at_def rd_phys_view_off)

lemma phase_at_virt_view [simp]: "phase_at (virt_view v m) a = phase_at m (a + v)"
  using phase_at_phys_view [of v "virt_view v m" a] by simp

lemma rv_next_simps [simp]:
  "rv_sq (rv_next v) = rv_sq v" "rv_cq (rv_next v) = rv_cq v" "rv_len (rv_next v) = rv_len v"
  "rv_sqdbl (rv_next v) = rv_sqdbl v" "rv_cqdbl (rv_next v) = rv_cqdbl v"
  by (simp_all add: rv_next_def)

lemma rv_slot_next: "rv_slot (rv_next v) = (rv_slot v + 1) mod rv_len v"
  by (simp add: rv_slot_def rv_next_def mod_Suc_eq)

lemma rv_tail: "(rv_n v + 1) mod rv_len v = rv_slot (rv_next v)"
  by (simp add: rv_slot_def rv_next_def)

lemma rv_phase_next:
  assumes "0 < rv_len v"
  shows "rv_phase (rv_next v) = (if rv_slot v + 1 = rv_len v then \<not> rv_phase v else rv_phase v)"
proof (cases "Suc (rv_n v) mod rv_len v = 0")
  case True
  then have "rv_slot v + 1 = rv_len v"
    using assms by (simp add: rv_slot_def mod_Suc split: if_splits)
  moreover have "Suc (rv_n v) div rv_len v = Suc (rv_n v div rv_len v)"
    using True assms by (simp add: div_Suc)
  ultimately show ?thesis by (simp add: rv_phase_def rv_next_def)
next
  case False
  then have "rv_slot v + 1 \<noteq> rv_len v" by (auto simp: rv_slot_def mod_Suc split: if_splits)
  moreover have "Suc (rv_n v) div rv_len v = rv_n v div rv_len v" using False by (simp add: div_Suc)
  ultimately show ?thesis by (simp add: rv_phase_def rv_next_def)
qed

lemma ucast_of_nat_u16: "i < 2 ^ 16 \<Longrightarrow> (ucast (of_nat i :: u16) :: u32) = of_nat i"
  by (simp add: word_unat_eq_iff unat_of_nat take_bit_nat_eq_self)

text \<open>The facts that the invariant gives about the slots of the current command.\<close>

lemma rings_ok_slot:
  assumes "rings_ok v ctrl w"
  shows "rv_slot v < rv_len v" "2 \<le> rv_len v" "rv_len v \<le> 2 ^ 15"
    and "sq_slot v = sqe_addr (io_sq ctrl) + virt_offset w"
    and "cq_slot v = cqe_addr (io_cq ctrl) + virt_offset w"
    and "sqe_addr (io_sq ctrl) = sq_sqe (io_sq ctrl) + 64 * of_nat (rv_slot v)"
    and "cqe_addr (io_cq ctrl) = cq_cqe (io_cq ctrl) + 16 * of_nat (rv_slot v)"
    and "sqe_addr (io_sq ctrl) \<noteq> 0"
proof -
  from assms obtain p where p: "1 \<le> p" "p \<le> 15" "rv_len v = 2 ^ p" by (auto simp: rings_ok_def Let_def)
  show l: "2 \<le> rv_len v" "rv_len v \<le> 2 ^ 15"
    unfolding p(3) using p(1,2) power_increasing [of 1 p "2 :: nat"] power_increasing [of p 15 "2 :: nat"] by simp_all
  then show s: "rv_slot v < rv_len v" by (simp add: rv_slot_def)
  then have "rv_slot v < 2 ^ 16" using l by simp
  note u = ucast_of_nat_u16 [OF this]
  show a: "sqe_addr (io_sq ctrl) = sq_sqe (io_sq ctrl) + 64 * of_nat (rv_slot v)"
    "cqe_addr (io_cq ctrl) = cq_cqe (io_cq ctrl) + 16 * of_nat (rv_slot v)"
    using assms u by (simp_all add: rings_ok_def Let_def sqe_addr_def cqe_addr_def NVME_SQE_SIZE_def NVME_CQE_SIZE_def)
  show "sq_slot v = sqe_addr (io_sq ctrl) + virt_offset w"
    "cq_slot v = cqe_addr (io_cq ctrl) + virt_offset w"
    using assms a by (simp_all add: rings_ok_def Let_def sq_slot_def cq_slot_def virt_to_phys_def user_to_phys_def)
  have o: "unat (64 * of_nat (rv_slot v) :: u32) = 64 * rv_slot v"
    using s l by (simp add: unat_word_ariths unat_of_nat)
  have "unat (sq_sqe (io_sq ctrl)) + 64 * rv_slot v < 2 ^ 32" "0 < unat (sq_sqe (io_sq ctrl))"
    using assms s by (auto simp: rings_ok_def Let_def ring_layout_def unat_gt_0)
  then show "sqe_addr (io_sq ctrl) \<noteq> 0"
    unfolding a using unat_add_no_wrap [of "sq_sqe (io_sq ctrl)" "64 * of_nat (rv_slot v)"] o
    by (metis add_is_0 less_numeral_extra(3) unat_0)
qed

lemma rings_ok_command:
  assumes "rings_ok v ctrl w"
  shows "\<exists>w1. io_command (io_sq ctrl) ns lba prp1 prp2 count write w = Some w1"
    and "nvme_commit_sqe env IO ctrl w1 =
      (ctrl\<lparr>io_sq := (io_sq ctrl)\<lparr>sq_tail := of_nat (rv_slot (rv_next v))\<rparr>\<rparr>,
       reg_write32 env (rv_sqdbl v) (of_nat (rv_slot (rv_next v))) w1)"
proof -
  note sl = rings_ok_slot [OF assms]
  from assms obtain p where p: "rv_len v = 2 ^ p" "1 \<le> p" "p \<le> 15" by (auto simp: rings_ok_def Let_def)
  note st = ring_step_index [OF p sl(1)]
  have "rv_slot (rv_next v) < rv_len v" using sl(2) by (simp add: rv_slot_next)
  then have "rv_slot (rv_next v) < 2 ^ 16" using sl(3) by simp
  note u = ucast_of_nat_u16 [OF this]
  show "\<exists>w1. io_command (io_sq ctrl) ns lba prp1 prp2 count write w = Some w1"
    using assms st(1,3) sl(8)
    by (simp add: rings_ok_def Let_def io_command_def nvme_get_next_sqe_def)
  show "nvme_commit_sqe env IO ctrl w1 =
      (ctrl\<lparr>io_sq := (io_sq ctrl)\<lparr>sq_tail := of_nat (rv_slot (rv_next v))\<rparr>\<rparr>,
       reg_write32 env (rv_sqdbl v) (of_nat (rv_slot (rv_next v))) w1)"
    using assms st(1) u by (simp add: rings_ok_def Let_def nvme_commit_sqe_def rv_slot_next)
qed


lemma unat_scale: "s < len \<Longrightarrow> c * len \<le> 2 ^ 32 \<Longrightarrow> unat (of_nat c * of_nat s :: u32) = c * s"
proof -
  assume "s < len" "c * len \<le> 2 ^ 32"
  then have "c * s < 2 ^ 32 \<or> c = 0" by (cases "c = 0") (auto intro: less_le_trans [of _ "c * len"])
  then show ?thesis using unat_of_nat_u32 [of "c * s"] by auto
qed

lemma slot_region_sub:
  assumes "s < len" "c * len \<le> 2 ^ 32"
  shows "region (a + of_nat c * of_nat s) c \<subseteq> region a (c * len)"
proof (rule region_sub)
  have "c * s + c * 1 \<le> c * len" using assms(1) unfolding distrib_left [symmetric] by (intro mult_le_mono2) simp
  then show "unat (of_nat c * of_nat s :: u32) + c \<le> c * len" using unat_scale [OF assms] by simp
qed (rule assms)

lemma slot_region_div:
  assumes "x \<in> region (a + of_nat c * of_nat s) c" "s < len" "c * len \<le> 2 ^ 32"
  shows "unat (x - a) div c = s"
proof -
  let ?y = "x - (a + of_nat c * of_nat s)"
  have y: "unat ?y < c" using assms(1) by (simp add: region_def)
  have "c * s + c \<le> 2 ^ 32" using assms(2,3) mult_le_mono2 [of "s + 1" len c] by simp
  then have "unat (?y + of_nat c * of_nat s) = unat ?y + c * s"
    using y unat_scale [OF assms(2,3)] unat_add_no_wrap [of ?y "of_nat c * of_nat s"] by simp
  then have "unat (x - a) = unat ?y + c * s" by (simp add: algebra_simps)
  then show ?thesis using y by simp
qed

lemma slot_regions_disjoint:
  "s < len \<Longrightarrow> t < len \<Longrightarrow> c * len \<le> 2 ^ 32 \<Longrightarrow> s \<noteq> t \<Longrightarrow>
   region (a + of_nat c * of_nat s) c \<inter> region (a + of_nat c * of_nat t) c = {}"
  using slot_region_div by blast

lemma rings_ok_regions:
  assumes "rings_ok v ctrl w"
  shows "region (sqe_addr (io_sq ctrl)) 64 \<subseteq> region (sq_sqe (io_sq ctrl)) (64 * rv_len v)"
    and "s < rv_len v \<Longrightarrow> region (cq_cqe (io_cq ctrl) + 16 * of_nat s) 16 \<subseteq> region (cq_cqe (io_cq ctrl)) (16 * rv_len v)"
    and "s < rv_len v \<Longrightarrow> s \<noteq> rv_slot v \<Longrightarrow>
      region (cq_cqe (io_cq ctrl) + 16 * of_nat s) 16 \<inter> region (cqe_addr (io_cq ctrl)) 16 = {}"
    and "region (sq_sqe (io_sq ctrl)) (64 * rv_len v) \<inter> region (cq_cqe (io_cq ctrl)) (16 * rv_len v) = {}"
proof -
  note sl = rings_ok_slot [OF assms]
  have b: "64 * rv_len v \<le> 2 ^ 32" "16 * rv_len v \<le> 2 ^ 32" using sl(3) by simp_all
  show "region (sqe_addr (io_sq ctrl)) 64 \<subseteq> region (sq_sqe (io_sq ctrl)) (64 * rv_len v)"
    using slot_region_sub [OF sl(1) b(1), of "sq_sqe (io_sq ctrl)"] by (simp only: sl(6) of_nat_numeral)
  show "region (cq_cqe (io_cq ctrl) + 16 * of_nat s) 16 \<subseteq> region (cq_cqe (io_cq ctrl)) (16 * rv_len v)"
    if "s < rv_len v"
    using slot_region_sub [OF that b(2), of "cq_cqe (io_cq ctrl)"] by (simp only: of_nat_numeral)
  show "region (cq_cqe (io_cq ctrl) + 16 * of_nat s) 16 \<inter> region (cqe_addr (io_cq ctrl)) 16 = {}"
    if "s < rv_len v" "s \<noteq> rv_slot v"
    using slot_regions_disjoint [OF that(1) sl(1) b(2) that(2), of "cq_cqe (io_cq ctrl)"]
    by (simp only: sl(7) of_nat_numeral)
  have l: "unat (sq_sqe (io_sq ctrl)) + 64 * rv_len v \<le> 2 ^ 32" "unat (cq_cqe (io_cq ctrl)) + 16 * rv_len v \<le> 2 ^ 32"
    "{unat (sq_sqe (io_sq ctrl)) ..< unat (sq_sqe (io_sq ctrl)) + 64 * rv_len v} \<inter>
     {unat (cq_cqe (io_cq ctrl)) ..< unat (cq_cqe (io_cq ctrl)) + 16 * rv_len v} = {}"
    using assms by (simp_all add: rings_ok_def Let_def ring_layout_def)
  show "region (sq_sqe (io_sq ctrl)) (64 * rv_len v) \<inter> region (cq_cqe (io_cq ctrl)) (16 * rv_len v) = {}"
    unfolding region_nat [OF l(1)] region_nat [OF l(2)] using l(3) by auto
qed

lemma rings_ok_next:
  assumes ok: "rings_ok v ctrl w" and off: "virt_offset w' = virt_offset w"
    and new: "phase_at (memory w') (cqe_addr (io_cq ctrl)) = rv_phase v"
    and old: "\<And>s. s < rv_len v \<Longrightarrow> s \<noteq> rv_slot v \<Longrightarrow>
      phase_at (memory w') (cq_cqe (io_cq ctrl) + 16 * of_nat s) = phase_at (memory w) (cq_cqe (io_cq ctrl) + 16 * of_nat s)"
  shows "rings_ok (rv_next v) (ring_ctrl (rv_next v) ctrl) w'"
proof -
  note sl = rings_ok_slot [OF ok]
  have ph: "rv_phase (rv_next v) = (if rv_slot v + 1 = rv_len v then \<not> rv_phase v else rv_phase v)"
    using sl(2) by (intro rv_phase_next) simp
  have nx: "rv_slot (rv_next v) = (if rv_slot v + 1 = rv_len v then 0 else rv_slot v + 1)"
    using sl(1) by (simp add: rv_slot_next)
  have "phase_at (memory w') (cq_cqe (io_cq ctrl) + 16 * of_nat s) = ((s < rv_slot (rv_next v)) = rv_phase (rv_next v))"
    if s: "s < rv_len v" for s
  proof (cases "s = rv_slot v")
    case True
    with new sl(7) ph nx show ?thesis by auto
  next
    case False
    have "phase_at (memory w) (cq_cqe (io_cq ctrl) + 16 * of_nat s) = ((s < rv_slot v) = rv_phase v)"
      using ok s by (simp add: rings_ok_def Let_def)
    with old [OF s False] False s ph nx show ?thesis by auto
  qed
  with ok off show ?thesis
    unfolding rings_ok_def Let_def ring_ctrl_def ring_layout_def by (simp add: virt_to_phys_def user_to_phys_def)
qed


lemma consume_posted:
  assumes idle: "controller_idle env quiet view disk" and cqd: "controller_cq_doorbell env quiet view disk"
    and q: "quiet (nvme_hw w3)" and v: "view (nvme_hw w3) = rv_next v"
    and ok: "rings_ok v ctrl w"
    and m: "memory w3 = mem_write m (cqe_addr (io_cq ctrl))
              (cqe_bytes dw0 dw1 (rv_slot (rv_next v)) sqid cid st (rv_phase v))"
  shows "\<exists>cqe h. nvme_consume_cqe env IO (ctrl\<lparr>io_sq := (io_sq ctrl)\<lparr>sq_tail := of_nat (rv_slot (rv_next v))\<rparr>\<rparr>) w3
      = (cqe, ring_ctrl (rv_next v) ctrl, w3\<lparr>nvme_hw := h\<rparr>) \<and>
    quiet h \<and> view h = rv_next v \<and> disk h = disk (nvme_hw w3) \<and>
    cqe_status cqe = push_bit 1 st OR of_bool (rv_phase v) \<and> cqe_cid cqe = cid"
proof -
  note sl = rings_ok_slot [OF ok]
  from ok obtain p where p: "rv_len v = 2 ^ p" "1 \<le> p" "p \<le> 15" by (auto simp: rings_ok_def Let_def)
  note st = ring_step_index [OF p sl(1)]
  obtain h1 where h1: "device env (nvme_hw w3, phys_view (virt_offset w3) (memory w3)) = (h1, phys_view (virt_offset w3) (memory w3))"
      "quiet h1" "view h1 = rv_next v" "disk h1 = disk (nvme_hw w3)"
    using idle q v unfolding controller_idle_def by metis
  then have r: "run_device env w3 = w3\<lparr>nvme_hw := h1\<rparr>" by (simp add: run_device_def)
  define h where "h = mmio_write32 env (rv_cqdbl v) (of_nat (rv_slot (rv_next v))) h1"
  have h: "quiet h" "view h = rv_next v" "disk h = disk (nvme_hw w3)"
    using cqd h1 unfolding controller_cq_doorbell_def h_def by (metis rv_next_simps(5))+
  have "rv_slot (rv_next v) < rv_len v" using sl(2) by (simp add: rv_slot_next)
  then have b: "rv_slot (rv_next v) < 2 ^ 16" using sl(3) by simp
  note u = ucast_of_nat_u16 [OF b]
  let ?cqe = "read_cqe (memory w3) (cqe_addr (io_cq ctrl))"
  note c = read_posted_cqe [OF b, of m "cqe_addr (io_cq ctrl)" dw0 dw1 sqid cid st "rv_phase v", folded m]
  have poll: "nvme_poll_cq (io_cq ctrl) (w3\<lparr>nvme_hw := h1\<rparr>)"
    using posted_phase [of m "cqe_addr (io_cq ctrl)" dw0 dw1 "rv_slot (rv_next v)" sqid cid st "rv_phase v", folded m] ok
    by (simp add: poll_phase phase_at_def rings_ok_def Let_def)
  have f: "sq_cq (io_sq ctrl) = IO" "sq_head (io_sq ctrl) = of_nat (rv_slot v)"
      "cq_phase (io_cq ctrl) = of_bool (rv_phase v)" "q_dbl (cq_common (io_cq ctrl)) = rv_cqdbl v"
      "cq_head (io_cq ctrl) + 1 AND q_mask (cq_common (io_cq ctrl)) = of_nat (rv_slot (rv_next v))"
      "of_nat (rv_slot (rv_next v)) < cq_head (io_cq ctrl) \<longleftrightarrow> rv_slot v + 1 = rv_len v"
      "of_nat (rv_slot (rv_next v)) \<noteq> (of_nat (rv_slot v) :: u16)"
    using ok st unfolding rv_slot_next by (auto simp: rings_ok_def Let_def)
  have same: "(io_cq ctrl)\<lparr>cq_phase := of_bool (rv_phase v)\<rparr> = io_cq ctrl"
    by (simp add: f(3) [symmetric])
  have flip: "NOT (cq_phase (io_cq ctrl)) = of_bool (\<not> rv_phase v)"
    unfolding f(3) by (cases "rv_phase v") simp_all
  have ph: "rv_phase (rv_next v) = (if rv_slot v + 1 = rv_len v then \<not> rv_phase v else rv_phase v)"
    using sl(2) by (intro rv_phase_next) simp
  have "nvme_consume_cqe env IO (ctrl\<lparr>io_sq := (io_sq ctrl)\<lparr>sq_tail := of_nat (rv_slot (rv_next v))\<rparr>\<rparr>) w3
      = (?cqe, ring_ctrl (rv_next v) ctrl, w3\<lparr>nvme_hw := h\<rparr>)"
    by (cases "rv_slot v + 1 = rv_len v")
      (simp_all add: nvme_consume_cqe_def r Let_def poll f(1,2,4-7) flip c(1) u ph same reg_write32_def h_def ring_ctrl_def)
  with h c show ?thesis by blast
qed


lemma length_disk_blocks: "(\<And>l. length (d l) = lbs) \<Longrightarrow> length (disk_blocks d lba n) = n * lbs"
  by (induction n) (simp_all add: disk_blocks_def)

lemma virt_view_write: "virt_view v (mem_write m (a + v) bs) = mem_write (virt_view v m) a bs"
  by (rule ext) (simp add: virt_view_def mem_write_def algebra_simps)

lemma mem_read_phys_off: "mem_read (phys_view v m) (a + v + c) n = mem_read m (a + c) n"
proof -
  have e: "a + v + c = a + c + v" by simp
  show ?thesis unfolding e by simp
qed

lemma command_virt:
  assumes ctl: "nvme_controller env quiet view disk status lbs" and q: "quiet h" and v: "view h = v"
    and c: "decode_sqe m e = c" "sq_slot v = e + voff" "cq_slot v = f + voff"
      "cmd_prp1 c = ucast (buf + voff)" "one_page lbs c"
  defines "h1 \<equiv> mmio_write32 env (rv_sqdbl v) (of_nat (rv_slot (rv_next v))) h"
  shows "\<exists>k h' xs dw0 dw1 sqid.
     (device env ^^ Suc k) (h1, phys_view voff m) =
       (h', phys_view voff (mem_write (mem_write m buf xs) f
          (cqe_bytes dw0 dw1 (rv_slot (rv_next v)) sqid (cmd_cid c) (status h c) (rv_phase v)))) \<and>
     (\<forall>j\<le>k. phase_at (virt_view voff (snd ((device env ^^ j) (h1, phys_view voff m)))) f = phase_at m f) \<and>
     quiet h' \<and> view h' = rv_next v \<and> length xs \<le> cmd_nlb c * lbs \<and>
     (status h c = 0 \<longrightarrow>
       (cmd_opc c = NVME_SQE_OPC_IO_READ \<longrightarrow>
          disk h' = disk h \<and> xs = disk_blocks (disk h) (cmd_slba c) (cmd_nlb c)) \<and>
       (cmd_opc c = NVME_SQE_OPC_IO_WRITE \<longrightarrow>
          disk h' = disk_update lbs m buf (cmd_slba c) (cmd_nlb c) (disk h)))"
proof -
  let ?m = "phys_view voff m"
  have d: "decode_sqe ?m (sq_slot v) = c" using c by simp
  have len: "length (disk h l) = lbs" for l using ctl q by (auto simp: nvme_controller_def)
  have p: "ucast (cmd_prp1 c) = buf + voff" unfolding c(4) by (rule ucast_up_down)
  from ctl have "controller_command env quiet view disk status lbs" by (simp add: nvme_controller_def)
  from this [unfolded controller_command_def command_completes_def Let_def, rule_format, OF q, of ?m,
      unfolded v d, OF c(5)]
  obtain k h' m1 dw0 dw1 sqid where
    it: "(device env ^^ Suc k) (h1, ?m) = (h', mem_write m1 (cq_slot v)
        (cqe_bytes dw0 dw1 (rv_slot (rv_next v)) sqid (cmd_cid c) (status h c) (rv_phase v)))"
    and ph: "\<forall>j\<le>k. phase_at (snd ((device env ^^ j) (h1, ?m))) (cq_slot v) = phase_at ?m (cq_slot v)"
    and h': "quiet h'" "view h' = rv_next v"
    and eff: "if status h c = 0 then (disk h', m1) = transfer lbs (disk h) c ?m
      else \<exists>xs. length xs \<le> cmd_nlb c * lbs \<and> m1 = mem_write ?m (ucast (cmd_prp1 c)) xs"
    unfolding h1_def rv_tail by blast
  obtain xs where xs: "m1 = mem_write ?m (buf + voff) xs" "length xs \<le> cmd_nlb c * lbs"
      "status h c = 0 \<longrightarrow>
       (cmd_opc c = NVME_SQE_OPC_IO_READ \<longrightarrow>
          disk h' = disk h \<and> xs = disk_blocks (disk h) (cmd_slba c) (cmd_nlb c)) \<and>
       (cmd_opc c = NVME_SQE_OPC_IO_WRITE \<longrightarrow>
          disk h' = disk_update lbs m buf (cmd_slba c) (cmd_nlb c) (disk h))"
  proof (cases "status h c = 0")
    case True
    define ys where "ys = (if cmd_opc c = NVME_SQE_OPC_IO_READ then disk_blocks (disk h) (cmd_slba c) (cmd_nlb c) else [])"
    have "m1 = mem_write ?m (buf + voff) ys" "length ys \<le> cmd_nlb c * lbs"
      using eff True length_disk_blocks [of "disk h" lbs, OF len]
      by (auto simp: transfer_def ys_def p disk_blocks_def split: if_splits)
    then show ?thesis
      using eff True
      by (intro that [of ys]) (auto simp: transfer_def ys_def p disk_update_def mem_read_phys_off
          NVME_SQE_OPC_IO_READ_def NVME_SQE_OPC_IO_WRITE_def split: if_splits)
  next
    case False
    with eff obtain ys where "length ys \<le> cmd_nlb c * lbs" "m1 = mem_write ?m (buf + voff) ys"
      unfolding p by auto
    with False show ?thesis by (intro that [of ys]) auto
  qed
  show ?thesis
    using it ph h' xs by (intro exI [of _ k] exI [of _ h'] exI [of _ xs])
      (auto simp: c(3) mem_write_phys_view)
qed


lemma disk_update_cong:
  assumes "same_outside R m m'" "region buf (n * lbs) \<inter> R = {}" "n * lbs \<le> 2 ^ 32"
  shows "disk_update lbs m' buf lba n d = disk_update lbs m buf lba n d"
proof (rule ext)
  fix l
  have "mem_read m' (buf + of_nat (i * lbs)) lbs = mem_read m (buf + of_nat (i * lbs)) lbs" if "i < n" for i
  proof (cases "lbs = 0")
    case False
    have b: "i * lbs + lbs \<le> n * lbs" using that mult_le_mono1 [of "i + 1" n lbs] by simp
    then have "i * lbs < 2 ^ 32" using False assms(3) by linarith
    then have "region (buf + of_nat (i * lbs)) lbs \<subseteq> region buf (n * lbs)"
      using b assms(3) unat_of_nat_u32 [of "i * lbs"] by (intro region_sub) auto
    moreover have "lbs \<le> 2 ^ 32" using b assms(3) by linarith
    ultimately show ?thesis using assms(1,2) by (intro mem_read_same) auto
  qed (simp add: mem_read_def)
  then show "disk_update lbs m' buf lba n d l = disk_update lbs m buf lba n d l"
    unfolding disk_update_def by (cases "unat (l - lba) < n") (simp_all only: if_True if_False)
qed

lemma io_round_memory:
  assumes ok: "rings_ok v ctrl w"
    and dis: "region buf n \<inter> rings_region (rv_len v) ctrl = {}" and n: "length xs \<le> n" "n \<le> 2 ^ 32"
    and w1: "same_outside (region (sqe_addr (io_sq ctrl)) 64) (memory w) m1"
    and bs: "length bs = 16"
  defines "m3 \<equiv> mem_write (mem_write m1 buf xs) (cqe_addr (io_cq ctrl)) bs"
  shows "same_outside (rings_region (rv_len v) ctrl \<union> region buf n) (memory w) m3"
    and "s < rv_len v \<Longrightarrow> s \<noteq> rv_slot v \<Longrightarrow>
      phase_at m3 (cq_cqe (io_cq ctrl) + 16 * of_nat s) = phase_at (memory w) (cq_cqe (io_cq ctrl) + 16 * of_nat s)"
    and "length xs = n \<Longrightarrow> mem_read m3 buf n = xs"
proof -
  note rg = rings_ok_regions [OF ok] and sl = rings_ok_slot [OF ok]
  let ?Q = "region (sqe_addr (io_sq ctrl)) 64" and ?C = "region (cqe_addr (io_cq ctrl)) 16"
  have C: "?C \<subseteq> region (cq_cqe (io_cq ctrl)) (16 * rv_len v)" using rg(2) [OF sl(1)] unfolding sl(7) .
  have "same_outside (?Q \<union> region buf n) (memory w) (mem_write m1 buf xs)"
    by (rule same_outside_trans [OF w1 same_outside_write [OF n(1) order.refl]]) simp
  then have so: "same_outside (?Q \<union> region buf n \<union> ?C) (memory w) m3"
    unfolding m3_def
    by (rule same_outside_trans [OF _ same_outside_write [of bs 16, OF _ order.refl]]) (simp_all add: bs)
  show "same_outside (rings_region (rv_len v) ctrl \<union> region buf n) (memory w) m3"
    using so rg(1) C by (elim same_outside_mono) (auto simp: rings_region_def)
  show "phase_at m3 (cq_cqe (io_cq ctrl) + 16 * of_nat s) = phase_at (memory w) (cq_cqe (io_cq ctrl) + 16 * of_nat s)"
    if "s < rv_len v" "s \<noteq> rv_slot v"
    using rg(1) rg(2) [OF that(1)] rg(3) [OF that] rg(4) dis
    by (intro phase_at_same [OF so]) (auto simp: rings_region_def)
  show "mem_read m3 buf n = xs" if l: "length xs = n"
  proof -
    have "same_outside ?C (mem_write m1 buf xs) m3"
      unfolding m3_def using bs by (intro same_outside_write) auto
    then have "mem_read m3 buf n = mem_read (mem_write m1 buf xs) buf n"
      using dis C n(2) by (intro mem_read_same [where R = ?C]) (auto simp: rings_region_def)
    also have "\<dots> = xs" using l n(2) by (simp add: mem_read_write_same)
    finally show ?thesis .
  qed
qed


lemma wait_posted:
  assumes ci: "controller_idle env quiet view disk" "controller_cq_doorbell env quiet view disk"
    and ok: "rings_ok v ctrl w" and off: "virt_offset w2 = voff"
    and old: "phase_at (memory w2) (cqe_addr (io_cq ctrl)) = (\<not> rv_phase v)"
    and it: "(device env ^^ Suc k) (nvme_hw w2, phys_view voff (memory w2)) = (h', phys_view voff m3)"
    and m3: "m3 = mem_write m (cqe_addr (io_cq ctrl)) (cqe_bytes dw0 dw1 (rv_slot (rv_next v)) sqid cid st (rv_phase v))"
    and ph: "\<forall>j\<le>k. phase_at (virt_view voff (snd ((device env ^^ j) (nvme_hw w2, phys_view voff (memory w2)))))
        (cqe_addr (io_cq ctrl)) = phase_at (memory w2) (cqe_addr (io_cq ctrl))"
    and h': "quiet h'" "view h' = rv_next v"
  shows "\<exists>cqe h. (\<forall>n>k. nvme_wait n env IO (ctrl\<lparr>io_sq := (io_sq ctrl)\<lparr>sq_tail := of_nat (rv_slot (rv_next v))\<rparr>\<rparr>) w2
        = Some (cqe, ring_ctrl (rv_next v) ctrl, w2\<lparr>memory := m3, nvme_hw := h\<rparr>)) \<and>
      quiet h \<and> view h = rv_next v \<and> disk h = disk h' \<and> cqe_status cqe = push_bit 1 st OR of_bool (rv_phase v)"
proof -
  let ?c1 = "ctrl\<lparr>io_sq := (io_sq ctrl)\<lparr>sq_tail := of_nat (rv_slot (rv_next v))\<rparr>\<rparr>"
  let ?w3 = "w2\<lparr>memory := m3, nvme_hw := h'\<rparr>"
  have w3: "(run_device env ^^ Suc k) w2 = ?w3"
    using it unfolding run_device_iter off by simp
  have "memory ?w3 = mem_write m (cqe_addr (io_cq ctrl))
      (cqe_bytes dw0 dw1 (rv_slot (rv_next v)) sqid cid st (rv_phase v))"
    by (simp add: m3)
  from consume_posted [OF ci _ _ ok this] h' obtain cqe h where
    cons: "nvme_consume_cqe env IO ?c1 ?w3 = (cqe, ring_ctrl (rv_next v) ctrl, w2\<lparr>memory := m3, nvme_hw := h\<rparr>)"
      "quiet h" "view h = rv_next v" "disk h = disk h'" "cqe_status cqe = push_bit 1 st OR of_bool (rv_phase v)"
    by auto
  have cq: "get_cq (sq_cq (get_sq IO ?c1)) ?c1 = io_cq ctrl" "cq_phase (io_cq ctrl) = of_bool (rv_phase v)"
    using ok by (simp_all add: rings_ok_def Let_def)
  have "\<not> nvme_poll_cq (io_cq ctrl) ((run_device env ^^ j) w2)" if "j \<le> k" for j
    using ph [rule_format, OF that] old off
    by (simp add: poll_phase run_device_iter cq(2) case_prod_beta Let_def)
  moreover have "phase_at m3 (cqe_addr (io_cq ctrl)) = rv_phase v" unfolding m3 phase_at_def by (rule posted_phase)
  then have "nvme_poll_cq (io_cq ctrl) ?w3" by (simp add: poll_phase cq(2))
  ultimately have "nvme_wait n env IO ?c1 w2 =
      Some (cqe, ring_ctrl (rv_next v) ctrl, w2\<lparr>memory := m3, nvme_hw := h\<rparr>)" if "k < n" for n
    using nvme_wait_polls [of k IO ?c1 env w2 n] that unfolding cq(1) w3 cons(1) by simp
  with cons(2-5) show ?thesis by blast
qed

lemma io_round:
  assumes ctl: "nvme_controller env quiet view disk status lbs"
    and q: "quiet (nvme_hw w)" and v: "view (nvme_hw w) = v" and ok: "rings_ok v ctrl w"
    and c: "c = io_cmd (io_sq ctrl) ns lba (virt_to_phys w buf) prp2 count write" and nz: "count \<noteq> 0"
    and page: "one_page lbs c"
    and dis: "region buf (unat count * lbs) \<inter> rings_region (rv_len v) ctrl = {}"
  shows "\<exists>k w1 cqe w'. io_command (io_sq ctrl) ns lba (virt_to_phys w buf) prp2 count write w = Some w1 \<and>
    (\<forall>n>k. (case nvme_commit_sqe env IO ctrl w1 of (ctrl1, w2) \<Rightarrow> nvme_wait n env IO ctrl1 w2)
        = Some (cqe, ring_ctrl (rv_next v) ctrl, w')) \<and>
    (nvme_is_cqe_success cqe \<longleftrightarrow> status (nvme_hw w) c AND 0xff = 0) \<and>
    io_done quiet view disk lbs v ctrl buf lba count write (status (nvme_hw w) c = 0) w w'"
proof -
  note sl = rings_ok_slot [OF ok]
  let ?voff = "virt_offset w" and ?f = "cqe_addr (io_cq ctrl)"
  have nlb: "cmd_nlb c = unat count" unfolding c by (rule io_cmd_nlb [OF nz])
  have n: "unat count * lbs \<le> 2 ^ 32" using page unfolding one_page_def nlb by simp
  obtain w1 where w1: "io_command (io_sq ctrl) ns lba (virt_to_phys w buf) prp2 count write w = Some w1"
    using rings_ok_command(1) [OF ok] by blast
  note fr = io_command_frame [OF w1]
  define w2 where "w2 = reg_write32 env (rv_sqdbl v) (of_nat (rv_slot (rv_next v))) w1"
  have w2: "virt_offset w2 = ?voff" "memory w2 = memory w1"
      "nvme_hw w2 = mmio_write32 env (rv_sqdbl v) (of_nat (rv_slot (rv_next v))) (nvme_hw w)"
      "w2\<lparr>memory := m, nvme_hw := h\<rparr> = w\<lparr>memory := m, nvme_hw := h\<rparr>" for m h
    unfolding w2_def reg_write32_def by (simp, subst fr(1), simp)+
  have cp: "cmd_prp1 c = ucast (buf + ?voff)" "cmd_opc c = (if write then NVME_SQE_OPC_IO_WRITE else NVME_SQE_OPC_IO_READ)"
    by (simp_all add: c io_cmd_def virt_to_phys_def user_to_phys_def)
  note cv = command_virt [OF ctl q v io_command_decode [OF w1, folded c] sl(4,5) cp(1) page, folded w2(2,3)]
  obtain k h' xs dw0 dw1 sqid m3 where
    m3: "m3 = mem_write (mem_write (memory w2) buf xs) ?f
          (cqe_bytes dw0 dw1 (rv_slot (rv_next v)) sqid (cmd_cid c) (status (nvme_hw w) c) (rv_phase v))"
    and it: "(device env ^^ Suc k) (nvme_hw w2, phys_view ?voff (memory w2)) = (h', phys_view ?voff m3)"
    and ph: "\<forall>j\<le>k. phase_at (virt_view ?voff (snd ((device env ^^ j) (nvme_hw w2, phys_view ?voff (memory w2))))) ?f
        = phase_at (memory w2) ?f"
    and h': "quiet h'" "view h' = rv_next v" "length xs \<le> unat count * lbs"
    and eff: "status (nvme_hw w) c = 0 \<longrightarrow>
       (cmd_opc c = NVME_SQE_OPC_IO_READ \<longrightarrow> disk h' = disk (nvme_hw w) \<and>
          xs = disk_blocks (disk (nvme_hw w)) (cmd_slba c) (unat count)) \<and>
       (cmd_opc c = NVME_SQE_OPC_IO_WRITE \<longrightarrow>
          disk h' = disk_update lbs (memory w2) buf (cmd_slba c) (unat count) (disk (nvme_hw w)))"
    using cv [unfolded nlb] by blast
  note mm = io_round_memory [OF ok dis h'(3) n fr(2) length_cqe_bytes [of dw0 dw1 "rv_slot (rv_next v)" sqid
      "cmd_cid c" "status (nvme_hw w) c" "rv_phase v"], folded w2(2), folded m3]
  have old: "phase_at (memory w2) ?f = (\<not> rv_phase v)"
  proof -
    have "region ?f 16 \<inter> region (sqe_addr (io_sq ctrl)) 64 = {}"
      using rings_ok_regions(1,2,4) [OF ok] sl(1) unfolding sl(7) by blast
    then have "phase_at (memory w1) ?f = phase_at (memory w) ?f" by (rule phase_at_same [OF fr(2)])
    also have "\<dots> = (\<not> rv_phase v)" using ok sl(1,7) by (simp add: rings_ok_def Let_def)
    finally show ?thesis unfolding w2(2) .
  qed
  have ci: "controller_idle env quiet view disk" "controller_cq_doorbell env quiet view disk"
    and len: "length (disk (nvme_hw w) l) = lbs" for l
    using ctl q by (simp_all add: nvme_controller_def)
  from wait_posted [OF ci ok w2(1) old it m3 ph h'(1,2)] obtain cqe h where
    wt: "\<forall>n>k. nvme_wait n env IO (ctrl\<lparr>io_sq := (io_sq ctrl)\<lparr>sq_tail := of_nat (rv_slot (rv_next v))\<rparr>\<rparr>) w2
        = Some (cqe, ring_ctrl (rv_next v) ctrl, w\<lparr>memory := m3, nvme_hw := h\<rparr>)"
    and h: "quiet h" "view h = rv_next v" "disk h = disk h'"
    and st: "cqe_status cqe = push_bit 1 (status (nvme_hw w) c) OR of_bool (rv_phase v)"
    unfolding w2(4) by blast
  let ?w' = "w\<lparr>memory := m3, nvme_hw := h\<rparr>"
  have "phase_at m3 ?f = rv_phase v" unfolding m3 phase_at_def by (rule posted_phase)
  then have rok: "rings_ok (rv_next v) (ring_ctrl (rv_next v) ctrl) ?w'"
    using mm(2) by (intro rings_ok_next [OF ok]) simp_all
  have du: "disk_update lbs (memory w1) buf lba (unat count) d = disk_update lbs (memory w) buf lba (unat count) d" for d
    using dis rings_ok_regions(1) [OF ok] n
    by (intro disk_update_cong [OF fr(2)]) (auto simp: rings_region_def)
  have "io_done quiet view disk lbs v ctrl buf lba count write (status (nvme_hw w) c = 0) w ?w'"
    using h rok mm(1,3) eff du length_disk_blocks [of "disk (nvme_hw w)" lbs, OF len]
    unfolding io_done_def cp(2) w2(2) by (auto simp: c NVME_SQE_OPC_IO_READ_def NVME_SQE_OPC_IO_WRITE_def)
  then show ?thesis
    using w1 wt success_posted [OF st] rings_ok_command(2) [OF ok, of env w1, folded w2_def]
    by (intro exI [of _ k] exI [of _ w1] exI [of _ cqe] exI [of _ ?w']) simp
qed

lemma length_transfer: "(\<And>l. length (d l) = lbs) \<Longrightarrow> length (fst (transfer lbs d c m) l) = lbs"
  by (simp add: transfer_def)

lemma ref_controller:
  assumes "\<And>h c p. status (h\<lparr>rc_pending := p\<rparr>) c = status h c"
  shows "nvme_controller (ref_env lbs status) (ref_quiet lbs) rc_view rc_disk status lbs"
  unfolding nvme_controller_def
proof (intro conjI)
  show "controller_idle (ref_env lbs status) (ref_quiet lbs) rc_view rc_disk"
    by (auto simp: controller_idle_def ref_env_def ref_device_def ref_quiet_def Let_def split: prod.splits)
  show "controller_cq_doorbell (ref_env lbs status) (ref_quiet lbs) rc_view rc_disk"
    by (auto simp: controller_cq_doorbell_def ref_env_def ref_write32_def ref_quiet_def Let_def)
  show "\<forall>h l. ref_quiet lbs h \<longrightarrow> length (rc_disk h l) = lbs" by (simp add: ref_quiet_def)
  show "controller_command (ref_env lbs status) (ref_quiet lbs) rc_view rc_disk status lbs"
    unfolding controller_command_def
  proof (intro allI impI)
    fix h :: ref_ctl and m :: mem
    define v where "v = rc_view h"
    define c where "c = decode_sqe m (sq_slot v)"
    define T where "T = (if status h c = 0 then transfer lbs (rc_disk h) c m else (rc_disk h, m))"
    define h' where "h' = h\<lparr>rc_view := rv_next v, rc_disk := fst T, rc_pending := False\<rparr>"
    assume q: "ref_quiet lbs h"
    have "(device (ref_env lbs status) ^^ Suc 0) (mmio_write32 (ref_env lbs status) (rv_sqdbl v) (of_nat (rv_slot (rv_next v))) h, m)
       = (h', mem_write (snd T) (cq_slot v) (cqe_bytes 0 0 (rv_slot (rv_next v)) 1 (cmd_cid c) (status h c) (rv_phase v)))"
      by (simp add: ref_env_def ref_write32_def ref_device_def v_def [symmetric] c_def [symmetric] assms T_def h'_def
          case_prod_beta Let_def)
    moreover have "ref_quiet lbs h'"
      using q length_transfer [of "rc_disk h" lbs c m] by (auto simp: ref_quiet_def h'_def T_def v_def)
    ultimately show "command_completes (ref_env lbs status) (ref_quiet lbs) rc_view rc_disk status lbs h m"
      unfolding command_completes_def Let_def rv_tail v_def [symmetric] c_def [symmetric]
      by (intro exI [of _ 0] exI [of _ h'] exI [of _ "snd T"] exI [of _ "0 :: u32"] exI [of _ "1 :: u16"])
        (auto simp: h'_def T_def v_def intro!: exI [of _ "[]"])
  qed
qed

lemma one_page_io_cmd:
  assumes "count \<noteq> 0" "unat prp1 mod 4096 + unat count * lbs \<le> 4096"
  shows "one_page lbs (io_cmd sq ns lba prp1 prp2 count write)"
proof -
  have "unat (ucast prp1 :: u64) = unat prp1"
    using unat_u32_less [of prp1] by (simp add: unsigned_ucast_eq take_bit_nat_eq_self)
  then show ?thesis
    using assms unat_u32_less [of prp1] by (simp add: one_page_def io_cmd_nlb) (simp add: io_cmd_def)
qed

lemma nvme_wait_mono: "nvme_wait n env q ctrl w = Some r \<Longrightarrow> n \<le> n' \<Longrightarrow> nvme_wait n' env q ctrl w = Some r"
proof (induction n arbitrary: n' w)
  case (Suc n)
  then show ?case by (cases n') (auto simp: Let_def split: if_splits)
qed simp

text \<open>One turn of the retry loop: with enough fuel it is the round above, with less it may run out.\<close>

lemma io_retry_round:
  assumes "nvme_controller env quiet view disk status lbs"
    and "quiet (nvme_hw w)" and "view (nvme_hw w) = v" and "rings_ok v ctrl w"
    and nz: "count \<noteq> 0" and page: "unat (virt_to_phys w buf) mod 4096 + unat count * lbs \<le> 4096"
    and "region buf (unat count * lbs) \<inter> rings_region (rv_len v) ctrl = {}"
    and st: "st = status (nvme_hw w) (io_cmd (io_sq ctrl) ns lba (virt_to_phys w buf) prp2 count write)"
  shows "\<exists>k w'. io_done quiet view disk lbs v ctrl buf lba count write (st = 0) w w' \<and>
    (\<forall>n. io_retry (Suc n) env ns lba (virt_to_phys w buf) prp2 count write ctrl w =
       (if st AND 0xff = 0 then Some (Inr count, ring_ctrl (rv_next v) ctrl, w')
        else io_retry n env ns lba (virt_to_phys w buf) prp2 count write (ring_ctrl (rv_next v) ctrl) w') \<or>
       n < k \<and> io_retry (Suc n) env ns lba (virt_to_phys w buf) prp2 count write ctrl w = None)"
proof -
  from io_round [OF assms(1-4) refl nz one_page_io_cmd [OF nz page] assms(7), of ns lba prp2 "write"]
  obtain k w1 cqe w' where
    r: "io_command (io_sq ctrl) ns lba (virt_to_phys w buf) prp2 count write w = Some w1"
      "\<forall>n>k. (case nvme_commit_sqe env IO ctrl w1 of (ctrl1, w2) \<Rightarrow> nvme_wait n env IO ctrl1 w2)
         = Some (cqe, ring_ctrl (rv_next v) ctrl, w')"
      "nvme_is_cqe_success cqe \<longleftrightarrow> st AND 0xff = 0"
      "io_done quiet view disk lbs v ctrl buf lba count write (st = 0) w w'"
    unfolding st by blast
  obtain c1 w2 where cm: "nvme_commit_sqe env IO ctrl w1 = (c1, w2)" by fastforce
  have w: "nvme_wait n env IO c1 w2 = Some (cqe, ring_ctrl (rv_next v) ctrl, w') \<or>
      n \<le> k \<and> nvme_wait n env IO c1 w2 = None" for n
  proof (cases "k < n")
    case True
    with r(2) cm show ?thesis by auto
  next
    case False
    with r(2) [rule_format, of "Suc k"] nvme_wait_mono [of n env IO c1 w2 _ "Suc k"] cm
    show ?thesis by (cases "nvme_wait n env IO c1 w2") auto
  qed
  have "io_retry (Suc n) env ns lba (virt_to_phys w buf) prp2 count write ctrl w =
       (if st AND 0xff = 0 then Some (Inr count, ring_ctrl (rv_next v) ctrl, w')
        else io_retry n env ns lba (virt_to_phys w buf) prp2 count write (ring_ctrl (rv_next v) ctrl) w') \<or>
       n < k \<and> io_retry (Suc n) env ns lba (virt_to_phys w buf) prp2 count write ctrl w = None" for n
    using w [of "Suc n"] r(1,3) cm by auto
  with r(4) show ?thesis by blast
qed

lemma io_xfer_correct:
  assumes "nvme_controller env quiet view disk status lbs"
    and "quiet (nvme_hw w)" and "rings_ok (view (nvme_hw w)) ctrl w"
    and "count \<noteq> 0" and "virt_to_phys w buf AND 3 = 0"
    and "unat (virt_to_phys w buf) mod 4096 + unat count * lbs \<le> 4096"
    and "region buf (unat count * lbs) \<inter> rings_region (rv_len (view (nvme_hw w))) ctrl = {}"
    and "status (nvme_hw w) (io_cmd (io_sq ctrl) ns lba (virt_to_phys w buf) 0 count write) = 0"
  shows "\<exists>k w'. io_done quiet view disk lbs (view (nvme_hw w)) ctrl buf lba count write True w w' \<and>
    (\<forall>n>k. nvme_io_xfer n env ns lba (virt_to_phys w buf) 0 count write ctrl w =
       Some (Inr count, ring_ctrl (rv_next (view (nvme_hw w))) ctrl, w'))"
proof -
  let ?st = "status (nvme_hw w) (io_cmd (io_sq ctrl) ns lba (virt_to_phys w buf) 0 count write)"
  obtain k w' where k: "io_done quiet view disk lbs (view (nvme_hw w)) ctrl buf lba count write (?st = 0) w w'"
      "\<forall>n. io_retry (Suc n) env ns lba (virt_to_phys w buf) 0 count write ctrl w =
         (if ?st AND 0xff = 0 then Some (Inr count, ring_ctrl (rv_next (view (nvme_hw w))) ctrl, w')
          else io_retry n env ns lba (virt_to_phys w buf) 0 count write (ring_ctrl (rv_next (view (nvme_hw w))) ctrl) w') \<or>
         n < k \<and> io_retry (Suc n) env ns lba (virt_to_phys w buf) 0 count write ctrl w = None"
    using io_retry_round [OF assms(1,2) refl assms(3,4,6,7) refl, of lba "write" ns 0] by blast
  have "nvme_io_xfer n env ns lba (virt_to_phys w buf) 0 count write ctrl w =
       Some (Inr count, ring_ctrl (rv_next (view (nvme_hw w))) ctrl, w')" if n: "k < n" for n
  proof -
    obtain j where "n = Suc j" "k \<le> j" using n by (cases n) auto
    then show ?thesis
      using k(2) [rule_format, of j] assms(5,8) by (simp add: nvme_io_xfer_def del: io_retry.simps)
  qed
  with k(1) assms(8) show ?thesis by auto
qed

text \<open>
  C2. A transfer within one page through \<open>nvme_io_xfer\<close> returns, for every large enough
  fuel, with the requested block count. After a read the buffer holds exactly the blocks of
  the disk from the requested address on and the disk is unchanged; after a write the
  blocks on the disk are those of the buffer. The rings and their phase bits are again in
  step with the controller, one command further, and no byte outside the rings and the
  buffer has changed. The controller is any that meets \<open>nvme_controller\<close> and completes the
  command with status zero.
\<close>

theorem nvme_io_xfer_correct:
  assumes "nvme_controller env quiet view disk status lbs"
    and "quiet (nvme_hw w)" and "rings_ok (view (nvme_hw w)) ctrl w"
    and "count \<noteq> 0" and "virt_to_phys w buf AND 3 = 0"
    and "unat (virt_to_phys w buf) mod 4096 + unat count * lbs \<le> 4096"
    and "region buf (unat count * lbs) \<inter> rings_region (rv_len (view (nvme_hw w))) ctrl = {}"
    and "status (nvme_hw w) (io_cmd (io_sq ctrl) ns lba (virt_to_phys w buf) 0 count write) = 0"
  shows "\<exists>k w'. io_done quiet view disk lbs (view (nvme_hw w)) ctrl buf lba count write True w w' \<and>
    (\<forall>n>k. nvme_io_xfer n env ns lba (virt_to_phys w buf) 0 count write ctrl w =
       Some (Inr count, ring_ctrl (rv_next (view (nvme_hw w))) ctrl, w'))"
  using assms by (rule io_xfer_correct)

text \<open>
  C20. A command that the controller keeps failing is retried without end:
  \<open>nvme_io_xfer\<close> never returns, whatever the fuel, although the code after the retry
  means to return an error.
\<close>

theorem nvme_io_xfer_retries_forever:
  assumes "nvme_controller env quiet view disk status lbs"
    and fail: "\<And>h c. quiet h \<Longrightarrow> status h c AND 0xff \<noteq> 0"
    and "quiet (nvme_hw w)" and "rings_ok (view (nvme_hw w)) ctrl w"
    and "count \<noteq> 0" and "virt_to_phys w buf AND 3 = 0"
    and "unat (virt_to_phys w buf) mod 4096 + unat count * lbs \<le> 4096"
    and "region buf (unat count * lbs) \<inter> rings_region (rv_len (view (nvme_hw w))) ctrl = {}"
  shows "nvme_io_xfer n env ns lba (virt_to_phys w buf) 0 count write ctrl w = None"
proof -
  have "io_retry n env ns lba (virt_to_phys w buf) 0 count write ctrl w = None"
    using assms(3,4,7,8)
  proof (induction n arbitrary: w ctrl)
    case (Suc n)
    let ?v = "view (nvme_hw w)"
    let ?st = "status (nvme_hw w) (io_cmd (io_sq ctrl) ns lba (virt_to_phys w buf) 0 count write)"
    obtain k w' where k: "io_done quiet view disk lbs ?v ctrl buf lba count write (?st = 0) w w'"
      "\<forall>n. io_retry (Suc n) env ns lba (virt_to_phys w buf) 0 count write ctrl w =
         (if ?st AND 0xff = 0 then Some (Inr count, ring_ctrl (rv_next ?v) ctrl, w')
          else io_retry n env ns lba (virt_to_phys w buf) 0 count write (ring_ctrl (rv_next ?v) ctrl) w') \<or>
         n < k \<and> io_retry (Suc n) env ns lba (virt_to_phys w buf) 0 count write ctrl w = None"
      using io_retry_round [OF assms(1) Suc.prems(1) refl Suc.prems(2) assms(5) Suc.prems(3,4) refl, of lba "write" ns 0]
      by blast
    have w': "quiet (nvme_hw w')" "view (nvme_hw w') = rv_next ?v" "rings_ok (rv_next ?v) (ring_ctrl (rv_next ?v) ctrl) w'"
        "virt_offset w' = virt_offset w"
      using k(1) unfolding io_done_def by (auto dest!: arg_cong [where f = virt_offset])
    have "io_retry n env ns lba (virt_to_phys w' buf) 0 count write (ring_ctrl (rv_next ?v) ctrl) w' = None"
      using Suc.prems w'
      by (intro Suc.IH) (simp_all add: virt_to_phys_def user_to_phys_def rings_region_def ring_ctrl_def)
    then show ?case
      using k(2) [rule_format, of n] w'(4) fail [OF Suc.prems(1)]
      by (auto simp: virt_to_phys_def user_to_phys_def simp del: io_retry.simps)
  qed simp
  with assms(6) show ?thesis by (simp add: nvme_io_xfer_def)
qed

lemma ex_quiet: "ref_quiet 512 (nvme_hw ex_state)"
  by (simp add: ref_quiet_def ex_state_def ex_ctl_def ex_view_def)

lemma ex_rings: "rings_ok (rc_view (nvme_hw ex_state)) ex_ctrl ex_state"
proof -
  have "phase_at (\<lambda>_. 0) a = False" for a
    by (simp add: phase_at_def rd32_def get32_def mem_read_def map_replicate_const)
  moreover have "\<exists>p. 1 \<le> p \<and> p \<le> 15 \<and> (2 :: nat) = 2 ^ p" by (intro exI [of _ 1]) simp
  ultimately show ?thesis
    by (simp add: rings_ok_def ring_layout_def ex_state_def ex_ctl_def ex_view_def ex_ctrl_def Let_def
        rv_slot_def rv_phase_def virt_to_phys_def user_to_phys_def)
qed

lemma ex_region: "region 0x3000 512 \<inter> rings_region (rv_len (rc_view (nvme_hw ex_state))) ex_ctrl = {}"
proof -
  have "region 0x3000 512 \<inter> region 0x1000 128 = {}" "region 0x3000 512 \<inter> region 0x2000 32 = {}"
    by (auto simp: region_nat)
  then show ?thesis by (simp add: rings_region_def ex_state_def ex_ctl_def ex_view_def ex_ctrl_def Let_def Int_Un_distrib)
qed

theorem nvme_io_xfer_correct_witness:
  "\<exists>k w'. mem_read (memory w') 0x3000 512 = replicate 512 7 \<and>
     (\<forall>n>k. nvme_io_xfer n (ex_env 0) ex_ns 7 0x3800 0 1 False ex_ctrl ex_state =
        Some (Inr 1, ring_ctrl (rv_next ex_view) ex_ctrl, w'))"
proof -
  have o: "virt_to_phys ex_state 0x3000 = 0x3800" by (simp add: virt_to_phys_def user_to_phys_def ex_state_def)
  have v: "rc_view (nvme_hw ex_state) = ex_view" "rc_disk (nvme_hw ex_state) 7 = replicate 512 7"
    by (simp_all add: ex_state_def ex_ctl_def)
  show ?thesis
    using nvme_io_xfer_correct [OF ref_controller ex_quiet ex_rings, of "\<lambda>_ _. 0" 1 "0x3000" ex_ns 7 False]
      ex_region unfolding o v io_done_def by (auto simp: disk_blocks_def v)
qed

theorem nvme_io_xfer_retries_forever_witness:
  "\<forall>n. nvme_io_xfer n (ex_env 1) ex_ns 7 0x3800 0 1 False ex_ctrl ex_state = None"
proof -
  have o: "virt_to_phys ex_state 0x3000 = 0x3800" by (simp add: virt_to_phys_def user_to_phys_def ex_state_def)
  have "nvme_io_xfer n (ex_env 1) ex_ns 7 (virt_to_phys ex_state 0x3000) 0 1 False ex_ctrl ex_state = None" for n
    by (rule nvme_io_xfer_retries_forever [OF ref_controller _ ex_quiet ex_rings]) (use ex_region o in simp_all)
  then show ?thesis by (simp add: o)
qed

lemma disk_blocks_Suc: "disk_blocks f lba (Suc n) = f lba @ disk_blocks f (lba + 1) n"
proof -
  have "[0..<Suc n] = 0 # map Suc [0..<n]" by (simp add: upt_conv_Cons map_Suc_upt del: upt_Suc)
  then show ?thesis by (simp add: disk_blocks_def comp_def algebra_simps del: upt_Suc)
qed

end
