(* ===== verification/World.thy ===== *)
theory World
  imports Uri Nvme_Admin Nvme_Ring
begin

text \<open>
  The state of the whole program above the NVMe queues, in one record: reference counts,
  object interfaces, the process run queue, retry timers, the NVMe and SAN devices and the
  INT 13 emulation. Objects, interfaces and processes are named by what contains them
  (\<open>struct nvme_device\<close>, \<open>struct san_device\<close> and \<open>struct san_path\<close>); devices are numbered.
\<close>

section \<open>Names of objects, interfaces and processes\<close>

text \<open>The reference-counted objects. The count is the first field of both structures.\<close>

datatype obj = Nvme_obj nat | San_obj nat

text \<open>
  \<open>Null_intf\<close> is \<open>null_intf\<close> of \<open>core/interface.c\<close>, \<open>Dummy_intf\<close> the static \<open>dummy\<close> of
  \<open>drivers/block/nvme.c\<close>, \<open>Nvme_block\<close> the \<open>block\<close> interface of an NVMe device,
  \<open>San_command\<close> and \<open>San_block\<close> the \<open>command\<close> interface of a SAN device and the \<open>block\<close>
  interface of one of its paths.
\<close>

datatype intf_id = Null_intf | Dummy_intf | Nvme_block nat | San_command nat | San_block nat nat

datatype intf_desc = Null_desc | Nvme_block_desc | San_command_desc | San_block_desc

text \<open>\<open>None\<close> is the null pointer.\<close>

record interface =
  intf_dest :: "intf_id option"
  intf_refcnt :: "obj option"
  intf_desc :: "intf_desc option"
  intf_original :: "intf_desc option"

datatype proc_id = Nvme_process nat | San_process nat nat | Retry_process | Other_process nat

record retry_timer =
  timer_running :: bool
  timer_timeout :: u32
  timer_min :: u32
  timer_max :: u32
  timer_start :: u32
  timer_count :: u32

section \<open>Devices\<close>

record block_device_capacity =
  blocks :: u64
  blksize :: u32
  max_count :: u32

record nvme_device =
  nvme_opened :: bool
  nvme_ctrl_ptr :: "nvme_ctrl option"

record int13_data =
  natural_drive :: u32
  cylinders :: u32
  heads :: u32
  sectors_per_track :: u32
  boot_catalog :: u32
  last_status :: int

record san_path =
  path_uri :: "uri option"
  path_rc :: rc

record san_device =
  drive :: u32
  san_flags :: u32
  san_timer :: retry_timer
  command_rc :: rc
  capacity :: block_device_capacity
  blksize_shift :: nat
  is_cdrom :: bool
  priv :: int13_data
  san_paths :: "san_path list"
  active :: "nat option"
  opened :: "nat list"
  closed :: "nat list"

section \<open>Real-mode registers\<close>

record segoff =
  seg_offset :: u16
  seg_segment :: u16

text \<open>
  The registers of \<open>struct i386_all_regs\<close> that the INT 13 code uses, the general ones as
  their two low bytes.
\<close>

record i386_all_regs =
  r_al :: u8
  r_ah :: u8
  r_bl :: u8
  r_bh :: u8
  r_cl :: u8
  r_ch :: u8
  r_dl :: u8
  r_dh :: u8
  r_si :: u16
  r_di :: u16
  r_ds :: u16
  r_es :: u16
  r_flags :: u32

definition word16 :: "u8 \<Rightarrow> u8 \<Rightarrow> u16" where
  "word16 lo hi = ucast lo OR push_bit 8 (ucast hi)"

section \<open>The state\<close>

record 'h world = "'h nvme_state" +
  obj_addr :: "obj \<Rightarrow> u32"
  refcnts :: "obj \<Rightarrow> int"
  freed :: "obj list"
  intfs :: "intf_id \<Rightarrow> interface"
  run_queue :: "proc_id list"
  timers :: "nat list"
  now :: u32
  nvme_devs :: "nat \<Rightarrow> nvme_device"
  nvme_devices :: "nat list"
  busy :: bool
  sandevs :: "nat \<Rightarrow> san_device"
  san_devices :: "nat list"
  next_sandev :: nat
  san_retries :: u32
  equipment_word :: u16
  num_fdds :: u8
  num_drives :: u8
  int13_vector :: segoff
  hooked_bios_interrupts :: int
  device_keep_count :: int
  xbftab_used :: u32

text \<open>
  What the program runs on: the NVMe controller and the cache discarders, the number of
  ticks that pass before each reading of the timer, the register base that mapping the BAR
  of a controller yields (0 when it fails), what a freshly allocated controller structure
  holds, the steps of the other permanent processes, the openers of other URI schemes and
  the quiescers, the ACPI tables to install: hardware, uninitialised memory and tables
  filled at link time. \<open>bios_int13\<close> is the handler that was installed before, and
  \<open>bootsector\<close> what running a boot sector does. The layout holds the addresses that
  linking and relocation choose for objects the real-mode code shares.
\<close>

record rom_layout =
  rm_cs :: u16
  rm_ds :: u16
  int13_wrapper_off :: u16
  int13_fdd_params_off :: u16
  eltorito_cmd_off :: u16
  eltorito_address_off :: u16
  xbftab_addr :: u32

record 'h rom_env =
  layout :: rom_layout
  nvme_if :: "('h, 'h world) nvme_env"
  elapsed :: "'h world \<Rightarrow> u32"
  pci_map :: "nat \<Rightarrow> 'h \<Rightarrow> u32 \<times> 'h"
  uninit_ctrl :: "u32 \<Rightarrow> nvme_ctrl"
  other_step :: "nat \<Rightarrow> 'h world \<Rightarrow> 'h world"
  other_openers :: "(string \<times> (intf_id \<Rightarrow> uri \<Rightarrow> 'h world \<Rightarrow> (rc \<times> 'h world) option)) list"
  bios_int13 :: "i386_all_regs \<Rightarrow> 'h world \<Rightarrow> (i386_all_regs \<times> 'h world) option"
  bootsector :: "u16 \<Rightarrow> u16 \<Rightarrow> u32 \<Rightarrow> 'h world \<Rightarrow> (rc \<times> 'h world) option"
  acpi_tables :: "'h world \<Rightarrow> u8 list list"
  quiescers :: "(('h world \<Rightarrow> 'h world) \<times> ('h world \<Rightarrow> 'h world)) list"

definition upd_sandev :: "nat \<Rightarrow> (san_device \<Rightarrow> san_device) \<Rightarrow> 'h world \<Rightarrow> 'h world" where
  "upd_sandev s f w = w\<lparr>sandevs := (sandevs w)(s := f (sandevs w s))\<rparr>"

definition upd_intf :: "intf_id \<Rightarrow> (interface \<Rightarrow> interface) \<Rightarrow> 'h world \<Rightarrow> 'h world" where
  "upd_intf i f w = w\<lparr>intfs := (intfs w)(i := f (intfs w i))\<rparr>"

definition upd_nvme :: "nat \<Rightarrow> (nvme_device \<Rightarrow> nvme_device) \<Rightarrow> 'h world \<Rightarrow> 'h world" where
  "upd_nvme d f w = w\<lparr>nvme_devs := (nvme_devs w)(d := f (nvme_devs w d))\<rparr>"

definition upd_path :: "nat \<Rightarrow> (san_path \<Rightarrow> san_path) \<Rightarrow> san_device \<Rightarrow> san_device" where
  "upd_path p f s = s\<lparr>san_paths := (san_paths s)[p := f (san_paths s ! p)]\<rparr>"

section \<open>A concrete state\<close>

text \<open>
  The state after an NVMe drive of 1000 blocks has been hooked as drive 0x80 and an earlier
  command has completed, on the concrete controller of \<open>Nvme_Ring\<close>: the path of SAN device 0
  is open and plugged into NVMe device 0.
\<close>

definition ex_intfs :: "intf_id \<Rightarrow> interface" where
  "ex_intfs i =
     (case i of
        Null_intf \<Rightarrow> \<lparr>intf_dest = Some Null_intf, intf_refcnt = None, intf_desc = Some Null_desc,
                      intf_original = Some Null_desc\<rparr>
      | Dummy_intf \<Rightarrow> \<lparr>intf_dest = Some Null_intf, intf_refcnt = None, intf_desc = Some Null_desc,
                       intf_original = None\<rparr>
      | Nvme_block d \<Rightarrow> \<lparr>intf_dest = Some (if d = 0 then San_block 0 0 else Null_intf), intf_refcnt = Some (Nvme_obj d),
                         intf_desc = Some Nvme_block_desc, intf_original = Some Nvme_block_desc\<rparr>
      | San_command s \<Rightarrow> \<lparr>intf_dest = Some Null_intf, intf_refcnt = Some (San_obj s),
                          intf_desc = Some San_command_desc, intf_original = Some San_command_desc\<rparr>
      | San_block s p \<Rightarrow> \<lparr>intf_dest = Some (if s = 0 \<and> p = 0 then Nvme_block 0 else Null_intf), intf_refcnt = Some (San_obj s),
                          intf_desc = Some San_block_desc, intf_original = Some San_block_desc\<rparr>)"

definition ex_sandev :: san_device where
  "ex_sandev =
     \<lparr>drive = 0x80, san_flags = 0,
      san_timer = \<lparr>timer_running = False, timer_timeout = 0, timer_min = 0, timer_max = 0,
                   timer_start = 0, timer_count = 0\<rparr>,
      command_rc = OK, capacity = \<lparr>blocks = 1000, blksize = 512, max_count = 1\<rparr>,
      blksize_shift = 0, is_cdrom = False,
      priv = \<lparr>natural_drive = 0x80, cylinders = 10, heads = 10, sectors_per_track = 10,
              boot_catalog = 0, last_status = 0\<rparr>,
      san_paths = [\<lparr>path_uri = Some (uri_empty\<lparr>uri_scheme := Some ''nvme'', uri_opaque := Some ''0''\<rparr>), path_rc = OK\<rparr>],
      active = Some 0, opened = [0], closed = []\<rparr>"

text \<open>
  The BIOS data area counts one hard disk, interrupt vector 0x13 is 9000:0100, and 0000:0500
  holds a disk address packet for block 5.
\<close>

definition ex_memory :: mem where
  "ex_memory = mem_write (mem_write (mem_write (\<lambda>_. 0) 0xfffffc75 [1]) 0xfffff84c [0, 1, 0, 0x90])
     0xfffffd00 [16, 0, 1, 0, 0, 0x7c, 0, 0, 5, 0, 0, 0, 0, 0, 0, 0]"

definition ex_world :: "ref_ctl world" where
  "ex_world =
     \<lparr>memory = ex_memory, virt_offset = 0x800, free_blocks = [], freemem = 0, usedmem = 0,
      maxusedmem = 0, nvme_hw = ex_ctl, nvme_dma_buffer = 0x3800,
      obj_addr = (\<lambda>_. 0x8000), refcnts = (\<lambda>_. 1), freed = [], intfs = ex_intfs,
      run_queue = [Retry_process], timers = [], now = 0,
      nvme_devs = (\<lambda>_. \<lparr>nvme_opened = True, nvme_ctrl_ptr = Some (ex_ctrl\<lparr>ctrl_ns := Some ex_ns\<rparr>)\<rparr>),
      nvme_devices = [0], busy = False, sandevs = (\<lambda>_. ex_sandev), san_devices = [0],
      next_sandev = 1, san_retries = 10, equipment_word = 0, num_fdds = 0, num_drives = 1,
      int13_vector = \<lparr>seg_offset = 0x1234, seg_segment = 0xf000\<rparr>, hooked_bios_interrupts = 1,
      device_keep_count = 1, xbftab_used = 0\<rparr>"

definition ex_rom :: "ref_ctl rom_env" where
  "ex_rom =
     \<lparr>layout = \<lparr>rm_cs = 0x9000, rm_ds = 0x9100, int13_wrapper_off = 0x100, int13_fdd_params_off = 0x200,
                eltorito_cmd_off = 0x300, eltorito_address_off = 0x320, xbftab_addr = 0x9000\<rparr>,
      nvme_if = ref_env 512 (\<lambda>_ _. 0), elapsed = (\<lambda>_. 1), pci_map = (\<lambda>_ h. (0x100, h)),
      uninit_ctrl = (\<lambda>_. ex_ctrl), other_step = (\<lambda>_ w. w), other_openers = [],
      bios_int13 = (\<lambda>r w. Some (r\<lparr>r_ah := 1\<rparr>, w)), bootsector = (\<lambda>_ _ _ w. Some (OK, w)),
      acpi_tables = (\<lambda>_. []), quiescers = []\<rparr>"

text \<open>A call with the given function, drive number and \<open>%bx\<close>.\<close>

definition ex_regs :: "u8 \<Rightarrow> u8 \<Rightarrow> i386_all_regs" where
  "ex_regs ah0 dl0 = \<lparr>r_al = 1, r_ah = ah0, r_bl = 0xaa, r_bh = 0x55, r_cl = 1, r_ch = 0, r_dl = dl0,
     r_dh = 0, r_si = 0, r_di = 0, r_ds = 0, r_es = 0, r_flags = 0\<rparr>"

end
