(* ===== verification/Interface.thy ===== *)
theory Interface
  imports World
begin

text \<open>
  Reference counts (\<open>src/src/core/refcnt.c\<close>) and object interfaces
  (\<open>src/src/core/interface.c\<close>). A vanishing reference frees the memory of its object and
  is recorded in \<open>freed\<close>. A close operation runs a method of the destination object; the
  methods are an argument, indexed by the interface descriptor, so that the components that
  provide them come later. Following a null \<open>dest\<close> or \<open>desc\<close> pointer is undefined.
\<close>

section \<open>Reference counts\<close>

definition ref_increment :: "obj option \<Rightarrow> 'h world \<Rightarrow> 'h world" where
  "ref_increment r w =
     (case r of None \<Rightarrow> w | Some ob \<Rightarrow> w\<lparr>refcnts := (refcnts w)(ob := refcnts w ob + 1)\<rparr>)"

definition ref_decrement :: "obj option \<Rightarrow> 'h world \<Rightarrow> 'h world option" where
  "ref_decrement r w =
     (case r of
        None \<Rightarrow> Some w
      | Some ob \<Rightarrow>
          (let count = refcnts w ob - 1;
               w = w\<lparr>refcnts := (refcnts w)(ob := count)\<rparr>
           in if 0 \<le> count then Some w
              else if count < - 1 then Some w
              else free (obj_addr w ob) (w\<lparr>freed := ob # freed w\<rparr>)))"

section \<open>Interfaces\<close>

definition intf_init :: "intf_id \<Rightarrow> intf_desc \<Rightarrow> obj option \<Rightarrow> 'h world \<Rightarrow> 'h world" where
  "intf_init i desc r w =
     upd_intf i (\<lambda>_. \<lparr>intf_dest = Some Null_intf, intf_refcnt = r, intf_desc = Some desc,
                     intf_original = Some desc\<rparr>) w"

definition intf_reinit :: "intf_id \<Rightarrow> 'h world \<Rightarrow> 'h world" where
  "intf_reinit i w = upd_intf i (\<lambda>f. f\<lparr>intf_desc := intf_original f\<rparr>) w"

definition intf_get :: "intf_id \<Rightarrow> 'h world \<Rightarrow> 'h world" where
  "intf_get i w = ref_increment (intf_refcnt (intfs w i)) w"

definition intf_put :: "intf_id \<Rightarrow> 'h world \<Rightarrow> 'h world option" where
  "intf_put i w = ref_decrement (intf_refcnt (intfs w i)) w"

definition set_dest :: "intf_id \<Rightarrow> intf_id \<Rightarrow> 'h world \<Rightarrow> 'h world" where
  "set_dest i d w = upd_intf i (\<lambda>f. f\<lparr>intf_dest := Some d\<rparr>) w"

definition intf_plug :: "intf_id \<Rightarrow> intf_id \<Rightarrow> 'h world \<Rightarrow> 'h world option" where
  "intf_plug i d w =
     (if i = Null_intf then Some w
      else
        (let w = intf_get d w in do {
           old \<leftarrow> intf_dest (intfs w i);
           w \<leftarrow> intf_put old w;
           Some (set_dest i d w)
         }))"

definition intf_plug_plug :: "intf_id \<Rightarrow> intf_id \<Rightarrow> 'h world \<Rightarrow> 'h world option" where
  "intf_plug_plug a b w = do {
     w \<leftarrow> intf_plug a b w;
     intf_plug b a w
   }"

definition intf_unplug :: "intf_id \<Rightarrow> 'h world \<Rightarrow> 'h world option" where
  "intf_unplug i w = do {
     old \<leftarrow> intf_dest (intfs w i);
     w \<leftarrow> intf_put old w;
     Some (set_dest i Null_intf w)
   }"

definition intf_nullify :: "intf_id \<Rightarrow> 'h world \<Rightarrow> 'h world" where
  "intf_nullify i w = upd_intf i (\<lambda>f. f\<lparr>intf_desc := Some Null_desc\<rparr>) w"

text \<open>
  The destination of a pointer to an interface, with a reference taken, and its
  descriptor. No interface of the program has a pass-through.
\<close>

definition intf_get_dest_op :: "intf_id option \<Rightarrow> 'h world \<Rightarrow>
    (intf_id \<times> intf_desc \<times> 'h world) option" where
  "intf_get_dest_op p w = do {
     d \<leftarrow> p;
     let w = intf_get d w;
     ds \<leftarrow> intf_desc (intfs w d);
     Some (d, ds, w)
   }"

type_synonym 'h close_fn = "intf_id \<Rightarrow> rc \<Rightarrow> 'h world \<Rightarrow> 'h world option"
type_synonym 'h closer = "intf_desc \<Rightarrow> 'h close_fn option"

text \<open>
  \<open>intf_close\<close>, given the \<open>dest\<close> pointer of the interface. The method that restarts the
  destination when it has no close operation of its own is passed in.
\<close>

definition intf_close_to :: "'h closer \<Rightarrow> 'h close_fn \<Rightarrow> intf_id option \<Rightarrow> rc \<Rightarrow> 'h world \<Rightarrow>
    'h world option" where
  "intf_close_to H restart p rc w = do {
     (d, ds, w) \<leftarrow> intf_get_dest_op p w;
     w \<leftarrow> (case H ds of Some m \<Rightarrow> m d rc w | None \<Rightarrow> restart d rc w);
     intf_put d w
   }"

text \<open>
  \<open>intf_shutdown\<close>: the \<open>dest\<close> pointer moves to a temporary interface, through which the
  close is sent and which is then unplugged. The fuel bounds the chain of default restarts.
\<close>

fun intf_shutdown :: "nat \<Rightarrow> 'h closer \<Rightarrow> 'h close_fn" where
  "intf_shutdown 0 H i rc w = None"
| "intf_shutdown (Suc n) H i rc w =
     (let w = intf_nullify i w;
          tmp = intf_dest (intfs w i);
          w = set_dest i Null_intf w
      in do {
        w \<leftarrow> intf_close_to H (\<lambda>d rc w. do {
               w \<leftarrow> intf_shutdown n H d rc w;
               Some (intf_reinit d w)
             }) tmp rc w;
        d \<leftarrow> tmp;
        intf_put d w
      })"

definition intf_restart :: "nat \<Rightarrow> 'h closer \<Rightarrow> 'h close_fn" where
  "intf_restart n H i rc w = do {
     w \<leftarrow> intf_shutdown n H i rc w;
     Some (intf_reinit i w)
   }"

definition intf_close :: "nat \<Rightarrow> 'h closer \<Rightarrow> 'h close_fn" where
  "intf_close n H i rc w = intf_close_to H (intf_restart n H) (intf_dest (intfs w i)) rc w"

fun shutdown_each :: "nat \<Rightarrow> 'h closer \<Rightarrow> intf_id list \<Rightarrow> rc \<Rightarrow> 'h world \<Rightarrow> 'h world option" where
  "shutdown_each n H [] rc w = Some w"
| "shutdown_each n H (i # is) rc w = do {
     w \<leftarrow> intf_shutdown n H i rc w;
     shutdown_each n H is rc w
   }"

definition intfs_shutdown :: "nat \<Rightarrow> 'h closer \<Rightarrow> rc \<Rightarrow> intf_id list \<Rightarrow> 'h world \<Rightarrow> 'h world option" where
  "intfs_shutdown n H rc is w = shutdown_each n H is rc (fold intf_nullify is w)"

definition intfs_restart :: "nat \<Rightarrow> 'h closer \<Rightarrow> rc \<Rightarrow> intf_id list \<Rightarrow> 'h world \<Rightarrow> 'h world option" where
  "intfs_restart n H rc is w = do {
     w \<leftarrow> intfs_shutdown n H rc is w;
     Some (fold intf_reinit is w)
   }"

definition intf_insert :: "intf_id \<Rightarrow> intf_id \<Rightarrow> intf_id \<Rightarrow> 'h world \<Rightarrow> 'h world option" where
  "intf_insert i upper lower w = do {
     d \<leftarrow> intf_dest (intfs w i);
     let w = intf_get d w;
     w \<leftarrow> intf_plug_plug i upper w;
     w \<leftarrow> intf_plug_plug lower d w;
     intf_put d w
   }"

section \<open>Lemmas\<close>

end
