(* ===== verification/Process.thy ===== *)
theory Process
  imports Interface
begin

text \<open>
  Processes (\<open>src/src/core/process.c\<close>), retry timers (\<open>src/src/net/retry.c\<close>) and the
  sleep of \<open>src/src/core/timer.c\<close>. The step methods of the processes and the expiry method
  of the timers are arguments. All retry timers of the program are the command timers of
  SAN devices, so a timer is named by its device.
\<close>

section \<open>Processes\<close>

fun proc_refcnt :: "proc_id \<Rightarrow> obj option" where
  "proc_refcnt (Nvme_process d) = Some (Nvme_obj d)"
| "proc_refcnt (San_process s p) = Some (San_obj s)"
| "proc_refcnt Retry_process = None"
| "proc_refcnt (Other_process k) = None"

text \<open>The \<open>reschedule\<close> field of the process descriptors.\<close>

fun proc_reschedule :: "proc_id \<Rightarrow> bool" where
  "proc_reschedule (Nvme_process d) = False"
| "proc_reschedule (San_process s p) = False"
| "proc_reschedule Retry_process = True"
| "proc_reschedule (Other_process k) = True"

definition process_running :: "proc_id \<Rightarrow> 'h world \<Rightarrow> bool" where
  "process_running p w \<longleftrightarrow> p \<in> set (run_queue w)"

definition process_add :: "proc_id \<Rightarrow> 'h world \<Rightarrow> 'h world" where
  "process_add p w =
     (if \<not> process_running p w
      then (ref_increment (proc_refcnt p) w)\<lparr>run_queue := run_queue w @ [p]\<rparr>
      else w)"

definition process_del :: "proc_id \<Rightarrow> 'h world \<Rightarrow> 'h world option" where
  "process_del p w =
     (if process_running p w
      then ref_decrement (proc_refcnt p) (w\<lparr>run_queue := remove1 p (run_queue w)\<rparr>)
      else Some w)"

type_synonym 'h stepper = "proc_id \<Rightarrow> 'h world \<Rightarrow> 'h world option"

definition step :: "'h stepper \<Rightarrow> 'h world \<Rightarrow> 'h world option" where
  "step S w =
     (case run_queue w of
        [] \<Rightarrow> Some w
      | p # ps \<Rightarrow>
          (let w = ref_increment (proc_refcnt p) w in do {
             w \<leftarrow> (if proc_reschedule p then Some (w\<lparr>run_queue := ps @ [p]\<rparr>) else process_del p w);
             w \<leftarrow> S p w;
             ref_decrement (proc_refcnt p) w
           }))"

section \<open>Timers\<close>

definition TICKS_PER_SEC :: u32 where "TICKS_PER_SEC = 1024"
definition MIN_TIMEOUT :: u32 where "MIN_TIMEOUT = 7"
definition DEFAULT_MIN_TIMEOUT :: u32 where "DEFAULT_MIN_TIMEOUT = TICKS_PER_SEC div 4"
definition DEFAULT_MAX_TIMEOUT :: u32 where "DEFAULT_MAX_TIMEOUT = 10 * TICKS_PER_SEC"

definition currticks :: "'h rom_env \<Rightarrow> 'h world \<Rightarrow> u32 \<times> 'h world" where
  "currticks env w = (let t = now w + elapsed env w in (t, w\<lparr>now := t\<rparr>))"

definition upd_timer :: "nat \<Rightarrow> (retry_timer \<Rightarrow> retry_timer) \<Rightarrow> 'h world \<Rightarrow> 'h world" where
  "upd_timer s f w = upd_sandev s (\<lambda>d. d\<lparr>san_timer := f (san_timer d)\<rparr>) w"

definition start_timer_fixed :: "'h rom_env \<Rightarrow> nat \<Rightarrow> u32 \<Rightarrow> 'h world \<Rightarrow> 'h world" where
  "start_timer_fixed env s timeout w =
     (let w = (if \<not> timer_running (san_timer (sandevs w s))
               then upd_timer s (\<lambda>t. t\<lparr>timer_running := True\<rparr>)
                      (ref_increment (Some (San_obj s)) (w\<lparr>timers := s # timers w\<rparr>))
               else w);
          (t, w) = currticks env w
      in upd_timer s (\<lambda>r. r\<lparr>timer_start := t, timer_timeout := timeout\<rparr>) w)"

definition start_timer :: "'h rom_env \<Rightarrow> nat \<Rightarrow> 'h world \<Rightarrow> 'h world" where
  "start_timer env s w =
     (let timer = san_timer (sandevs w s);
          timeout = timer_timeout timer;
          tmin = (if timer_min timer \<noteq> 0 then timer_min timer else DEFAULT_MIN_TIMEOUT);
          tmin = (if tmin < MIN_TIMEOUT then MIN_TIMEOUT else tmin);
          timeout = (if timeout < tmin then tmin else timeout)
      in start_timer_fixed env s timeout w)"

definition stop_timer :: "'h rom_env \<Rightarrow> nat \<Rightarrow> 'h world \<Rightarrow> 'h world option" where
  "stop_timer env s w =
     (let (t, w) = currticks env w;
          timer = san_timer (sandevs w s)
      in if \<not> timer_running timer then Some w
         else
           (let runtime = t - timer_start timer;
                w = w\<lparr>timers := remove1 s (timers w)\<rparr>;
                w = upd_timer s (\<lambda>r. r\<lparr>timer_running := False\<rparr>) w;
                w = (if timer_count timer \<noteq> 0
                     then upd_timer s (\<lambda>r. r\<lparr>timer_count := timer_count r - 1\<rparr>) w
                     else upd_timer s (\<lambda>r. r\<lparr>timer_timeout :=
                            timer_timeout r - drop_bit 3 (timer_timeout r) + drop_bit 1 runtime\<rparr>) w)
            in ref_decrement (Some (San_obj s)) w))"

type_synonym 'h expiry = "nat \<Rightarrow> 'h world \<Rightarrow> 'h world option"

definition timer_expired :: "'h expiry \<Rightarrow> nat \<Rightarrow> 'h world \<Rightarrow> 'h world option" where
  "timer_expired X s w =
     (let timer = san_timer (sandevs w s);
          tmax = (if timer_max timer \<noteq> 0 then timer_max timer else DEFAULT_MAX_TIMEOUT);
          timeout = push_bit 1 (timer_timeout timer);
          w = w\<lparr>timers := remove1 s (timers w)\<rparr>;
          w = upd_timer s (\<lambda>r. r\<lparr>timer_running := False, timer_count := timer_count r + 1,
                timer_timeout := (if tmax < timeout then tmax else timeout)\<rparr>) w
      in do {
        w \<leftarrow> X s w;
        ref_decrement (Some (San_obj s)) w
      })"

definition timer_due :: "u32 \<Rightarrow> 'h world \<Rightarrow> nat \<Rightarrow> bool" where
  "timer_due t w s \<longleftrightarrow>
     timer_timeout (san_timer (sandevs w s)) \<le> t - timer_start (san_timer (sandevs w s))"

definition retry_poll :: "'h rom_env \<Rightarrow> 'h expiry \<Rightarrow> 'h world \<Rightarrow> 'h world option" where
  "retry_poll env X w =
     (let (t, w) = currticks env w in
      case find (timer_due t w) (timers w) of
        None \<Rightarrow> Some w
      | Some s \<Rightarrow> timer_expired X s w)"

text \<open>
  \<open>sleep_fixed\<close>: the inner loop waits for one second to pass, running processes; its fuel
  is the number of turns.
\<close>

fun sleep_second :: "nat \<Rightarrow> 'h rom_env \<Rightarrow> 'h stepper \<Rightarrow> u32 \<Rightarrow> 'h world \<Rightarrow> (u32 \<times> 'h world) option" where
  "sleep_second 0 env S start w = None"
| "sleep_second (Suc n) env S start w =
     (let (t, w) = currticks env w in
      if t - start < TICKS_PER_SEC then do {
        w \<leftarrow> step S w;
        sleep_second n env S start w
      } else Some (t, w))"

fun sleep_loop :: "nat \<Rightarrow> 'h rom_env \<Rightarrow> 'h stepper \<Rightarrow> nat \<Rightarrow> u32 \<Rightarrow> 'h world \<Rightarrow> 'h world option" where
  "sleep_loop n env S 0 start w = Some w"
| "sleep_loop n env S (Suc secs) start w = do {
     (t, w) \<leftarrow> sleep_second n env S start w;
     sleep_loop n env S secs t w
   }"

definition sleep_fixed :: "nat \<Rightarrow> 'h rom_env \<Rightarrow> 'h stepper \<Rightarrow> nat \<Rightarrow> 'h world \<Rightarrow> 'h world option" where
  "sleep_fixed n env S secs w =
     (let (start, w) = currticks env w in sleep_loop n env S secs start w)"

section \<open>Lemmas\<close>

end
