(* ===== verification/Nvme_Block.thy ===== *)
theory Nvme_Block
  imports Process
begin

text \<open>
  The block device that the NVMe driver offers (\<open>src/src/drivers/block/nvme.c\<close>), the
  dispatch of block operations to it (\<open>src/src/core/blockdev.c\<close>, \<open>src/src/core/edd.c\<close>) and
  the opening of its URIs (\<open>src/src/core/open.c\<close>). The methods of the interface
  descriptors are the functions on \<open>intf_desc\<close> below; a descriptor with no method for an
  operation takes the default of the dispatcher.
\<close>

section \<open>Operations\<close>

text \<open>Sizes of the structures the driver allocates, in the 32-bit build.\<close>

definition sizeof_nvme_device :: u32 where "sizeof_nvme_device = 200"
definition sizeof_nvme_ctrl :: u32 where "sizeof_nvme_ctrl = 96"

definition nvme_close :: "nat \<Rightarrow> 'h closer \<Rightarrow> nat \<Rightarrow> rc \<Rightarrow> 'h world \<Rightarrow> 'h world option" where
  "nvme_close n H d rc w = do {
     w \<leftarrow> intf_shutdown n H (Nvme_block d) (Err ENODEV) w;
     Some (upd_nvme d (\<lambda>v. v\<lparr>nvme_opened := False\<rparr>) w)
   }"

definition nvme_step :: "nat \<Rightarrow> 'h closer \<Rightarrow> nat \<Rightarrow> 'h world \<Rightarrow> 'h world option" where
  "nvme_step n H d w = do {
     w \<leftarrow> intfs_shutdown n H OK [Dummy_intf] w;
     w \<leftarrow> process_del (Nvme_process d) w;
     w \<leftarrow> ref_decrement (Some (Nvme_obj d)) w;
     Some (w\<lparr>busy := False\<rparr>)
   }"

text \<open>The common end of the three commands: the data interface is plugged into \<open>dummy\<close>.\<close>

definition nvme_ref_get :: "nat \<Rightarrow> 'h world \<Rightarrow> 'h world" where
  "nvme_ref_get d w = ref_increment (Some (Nvme_obj d)) w"

definition nvme_start :: "nat \<Rightarrow> intf_id \<Rightarrow> 'h world \<Rightarrow> 'h world option" where
  "nvme_start d block w = do {
     w \<leftarrow> intf_plug_plug Dummy_intf block (process_add (Nvme_process d) w);
     Some ((nvme_ref_get d w)\<lparr>busy := True\<rparr>)
   }"

text \<open>The data is copied out of the bounce buffer whatever \<open>nvme_io_xfer\<close> returned.\<close>

definition nvme_read :: "nat \<Rightarrow> 'h rom_env \<Rightarrow> nat \<Rightarrow> intf_id \<Rightarrow> u64 \<Rightarrow> u32 \<Rightarrow> u32 \<Rightarrow> u32 \<Rightarrow>
    'h world \<Rightarrow> (rc \<times> 'h world) option" where
  "nvme_read n env d block lba count buffer len w =
     (if busy w then Some (Err EBUSY, w)
      else do {
        ctrl \<leftarrow> nvme_ctrl_ptr (nvme_devs w d);
        (case ctrl_ns ctrl of
           None \<Rightarrow> Some (Err EBUSY, nvme_ref_get d w)
         | Some ns \<Rightarrow>
             if count \<noteq> 1 then Some (Err EBUSY, nvme_ref_get d w)
             else if block_size ns = 0 then None
             else if len mod block_size ns \<noteq> 0 then Some (Err EBUSY, nvme_ref_get d w)
             else do {
               (res, ctrl, w) \<leftarrow> nvme_io_xfer n (nvme_if env) ns lba
                  (virt_to_phys w (nvme_dma_buffer w)) 0 1 False ctrl w;
               let w = upd_nvme d (\<lambda>v. v\<lparr>nvme_ctrl_ptr := Some ctrl\<rparr>) w;
               let w = mem_upd (\<lambda>m. mem_copy m buffer (nvme_dma_buffer w) 512) w;
               w \<leftarrow> nvme_start d block w;
               Some (OK, w)
             })
      })"

definition nvme_write :: "nat \<Rightarrow> intf_id \<Rightarrow> u64 \<Rightarrow> u32 \<Rightarrow> u32 \<Rightarrow> u32 \<Rightarrow> 'h world \<Rightarrow>
    (rc \<times> 'h world) option" where
  "nvme_write d block lba count buffer len w = do {
     w \<leftarrow> nvme_start d block w;
     Some (OK, w)
   }"

section \<open>Block operations through an interface\<close>

text \<open>
  \<open>block_capacity\<close>, with the destination's method: only the command interface of a SAN
  device has one.
\<close>

definition sandev_command_capacity :: "nat \<Rightarrow> block_device_capacity \<Rightarrow> 'h world \<Rightarrow> 'h world" where
  "sandev_command_capacity s cap w = upd_sandev s (\<lambda>d. d\<lparr>capacity := cap\<rparr>) w"

fun block_capacity_method :: "intf_desc \<Rightarrow> intf_id \<Rightarrow> block_device_capacity \<Rightarrow> 'h world \<Rightarrow> 'h world" where
  "block_capacity_method San_command_desc (San_command s) cap w = sandev_command_capacity s cap w"
| "block_capacity_method _ _ cap w = w"

definition block_capacity :: "intf_id \<Rightarrow> block_device_capacity \<Rightarrow> 'h world \<Rightarrow> 'h world option" where
  "block_capacity i cap w = do {
     (d, ds, w) \<leftarrow> intf_get_dest_op (intf_dest (intfs w i)) w;
     intf_put d (block_capacity_method ds d cap w)
   }"

definition nvme_read_capacity :: "nat \<Rightarrow> intf_id \<Rightarrow> 'h world \<Rightarrow> (rc \<times> 'h world) option" where
  "nvme_read_capacity d block w = do {
     ctrl \<leftarrow> nvme_ctrl_ptr (nvme_devs w d);
     (case ctrl_ns ctrl of
        None \<Rightarrow> Some (Err EBUSY, nvme_ref_get d w)
      | Some ns \<Rightarrow> do {
          w \<leftarrow> intf_plug_plug Dummy_intf block (process_add (Nvme_process d) w);
          w \<leftarrow> block_capacity Dummy_intf \<lparr>blocks = lba_count ns, blksize = block_size ns,
                 max_count = 1\<rparr> w;
          Some (OK, nvme_ref_get d w)
        })
   }"

fun block_read_method :: "nat \<Rightarrow> 'h rom_env \<Rightarrow> intf_desc \<Rightarrow> intf_id \<Rightarrow> intf_id \<Rightarrow> u64 \<Rightarrow> u32 \<Rightarrow> u32 \<Rightarrow>
    u32 \<Rightarrow> 'h world \<Rightarrow> (rc \<times> 'h world) option" where
  "block_read_method n env Nvme_block_desc (Nvme_block d) data lba count buffer len w =
     nvme_read n env d data lba count buffer len w"
| "block_read_method n env _ _ data lba count buffer len w = Some (Err EOPNOTSUPP, w)"

fun block_write_method :: "nat \<Rightarrow> 'h rom_env \<Rightarrow> intf_desc \<Rightarrow> intf_id \<Rightarrow> intf_id \<Rightarrow> u64 \<Rightarrow> u32 \<Rightarrow> u32 \<Rightarrow>
    u32 \<Rightarrow> 'h world \<Rightarrow> (rc \<times> 'h world) option" where
  "block_write_method n env Nvme_block_desc (Nvme_block d) data lba count buffer len w =
     nvme_write d data lba count buffer len w"
| "block_write_method n env _ _ data lba count buffer len w = Some (Err EOPNOTSUPP, w)"

fun block_read_capacity_method :: "intf_desc \<Rightarrow> intf_id \<Rightarrow> intf_id \<Rightarrow> 'h world \<Rightarrow>
    (rc \<times> 'h world) option" where
  "block_read_capacity_method Nvme_block_desc (Nvme_block d) data w = nvme_read_capacity d data w"
| "block_read_capacity_method _ _ data w = Some (Err EOPNOTSUPP, w)"

definition block_read :: "nat \<Rightarrow> 'h rom_env \<Rightarrow> intf_id \<Rightarrow> intf_id \<Rightarrow> u64 \<Rightarrow> u32 \<Rightarrow> u32 \<Rightarrow> u32 \<Rightarrow>
    'h world \<Rightarrow> (rc \<times> 'h world) option" where
  "block_read n env control data lba count buffer len w = do {
     (d, ds, w) \<leftarrow> intf_get_dest_op (intf_dest (intfs w control)) w;
     (rc, w) \<leftarrow> block_read_method n env ds d data lba count buffer len w;
     w \<leftarrow> intf_put d w;
     Some (rc, w)
   }"

definition block_write :: "nat \<Rightarrow> 'h rom_env \<Rightarrow> intf_id \<Rightarrow> intf_id \<Rightarrow> u64 \<Rightarrow> u32 \<Rightarrow> u32 \<Rightarrow> u32 \<Rightarrow>
    'h world \<Rightarrow> (rc \<times> 'h world) option" where
  "block_write n env control data lba count buffer len w = do {
     (d, ds, w) \<leftarrow> intf_get_dest_op (intf_dest (intfs w control)) w;
     (rc, w) \<leftarrow> block_write_method n env ds d data lba count buffer len w;
     w \<leftarrow> intf_put d w;
     Some (rc, w)
   }"

definition block_read_capacity :: "intf_id \<Rightarrow> intf_id \<Rightarrow> 'h world \<Rightarrow> (rc \<times> 'h world) option" where
  "block_read_capacity control data w = do {
     (d, ds, w) \<leftarrow> intf_get_dest_op (intf_dest (intfs w control)) w;
     (rc, w) \<leftarrow> block_read_capacity_method ds d data w;
     w \<leftarrow> intf_put d w;
     Some (rc, w)
   }"

text \<open>
  \<open>edd_describe\<close>: the interface type on success. The NVMe method sets the type to RAID and
  leaves the device path alone.
\<close>

definition EDD_INTF_TYPE_RAID :: u64 where "EDD_INTF_TYPE_RAID = 0x2020202044494152"

definition nvme_edd_describe :: "nat \<Rightarrow> rc \<times> u64 option" where
  "nvme_edd_describe d = (OK, Some EDD_INTF_TYPE_RAID)"

fun edd_describe_method :: "intf_desc \<Rightarrow> intf_id \<Rightarrow> rc \<times> u64 option" where
  "edd_describe_method Nvme_block_desc (Nvme_block d) = nvme_edd_describe d"
| "edd_describe_method _ _ = (Err ENOTSUP, None)"

definition edd_describe :: "intf_id \<Rightarrow> 'h world \<Rightarrow> (rc \<times> u64 option \<times> 'h world) option" where
  "edd_describe i w = do {
     (d, ds, w) \<leftarrow> intf_get_dest_op (intf_dest (intfs w i)) w;
     let (rc, type) = edd_describe_method ds d;
     w \<leftarrow> intf_put d w;
     Some (rc, type, w)
   }"

text \<open>
  \<open>xfer_window\<close>: the block interface of a SAN path answers 0; the NVMe interface has no
  method and the default is the largest size.
\<close>

fun xfer_window_method :: "intf_desc \<Rightarrow> u32" where
  "xfer_window_method San_block_desc = 0"
| "xfer_window_method _ = - 1"

definition xfer_window :: "intf_id \<Rightarrow> 'h world \<Rightarrow> (u32 \<times> 'h world) option" where
  "xfer_window i w = do {
     (d, ds, w) \<leftarrow> intf_get_dest_op (intf_dest (intfs w i)) w;
     w \<leftarrow> intf_put d w;
     Some (xfer_window_method ds, w)
   }"

section \<open>Opening\<close>

definition nvme_find :: "'h world \<Rightarrow> string \<Rightarrow> nat option" where
  "nvme_find w name = (case nvme_devices w of [] \<Rightarrow> None | d # _ \<Rightarrow> Some d)"


text \<open>The device structure's controller pointer is followed without a check for null.\<close>

definition nvme_open_uri :: "nat \<Rightarrow> 'h rom_env \<Rightarrow> intf_id \<Rightarrow> uri \<Rightarrow> 'h world \<Rightarrow>
    (rc \<times> 'h world) option" where
  "nvme_open_uri n env parent u w =
     (case uri_opaque u of
        None \<Rightarrow> Some (Err EINVAL, w)
      | Some name \<Rightarrow>
     (case nvme_find w name of
        None \<Rightarrow> Some (Err ENOENT, w)
      | Some d \<Rightarrow>
        if nvme_opened (nvme_devs w d) then Some (Err EBUSY, w)
        else do {
          let w = intf_init (Nvme_block d) Nvme_block_desc (Some (Nvme_obj d)) w;
          w \<leftarrow> intf_plug_plug (Nvme_block d) parent w;
          let (reg, hw) = pci_map env d (nvme_hw w);
          let w = w\<lparr>nvme_hw := hw\<rparr>;
          if reg = 0 then Some (Err EBUSY, w)
          else do {
            (p, w) \<leftarrow> malloc n (discarders (nvme_if env)) sizeof_nvme_ctrl w;
            if p = 0 then None
            else do {
              let ctrl = (uninit_ctrl env p)\<lparr>ctrl_reg := reg\<rparr>;
              let w = upd_nvme d (\<lambda>v. v\<lparr>nvme_ctrl_ptr := Some ctrl\<rparr>) w;
              if NOT (mmio_read64 (nvme_if env) (reg + REG_CAP) (nvme_hw w)) AND NVME_CAP_CSS_NVME \<noteq> 0
              then Some (Err EBUSY, w)
              else do {
                (rc, ctrl, w) \<leftarrow> nvme_controller_enable n (nvme_if env) ctrl w;
                let w = upd_nvme d (\<lambda>v. v\<lparr>nvme_ctrl_ptr := Some ctrl\<rparr>) w;
                if rc \<noteq> OK then Some (Err EBUSY, w)
                else Some (OK, upd_nvme d (\<lambda>v. v\<lparr>nvme_opened := True\<rparr>) w)
              }
            }
          }
        }))"

definition nvme_probe :: "nat \<Rightarrow> 'h rom_env \<Rightarrow> nat \<Rightarrow> 'h world \<Rightarrow> (rc \<times> 'h world) option" where
  "nvme_probe n env d w = do {
     (p, w) \<leftarrow> zalloc n (discarders (nvme_if env)) sizeof_nvme_device w;
     if p = 0 then Some (Err ENOMEM, w)
     else
       (let w = w\<lparr>obj_addr := (obj_addr w)(Nvme_obj d := p),
                  refcnts := (refcnts w)(Nvme_obj d := 0)\<rparr>;
            w = upd_nvme d (\<lambda>_. \<lparr>nvme_opened = False, nvme_ctrl_ptr = None\<rparr>) w;
            w = upd_intf (Nvme_block d) (\<lambda>_. \<lparr>intf_dest = None, intf_refcnt = None,
                  intf_desc = None, intf_original = None\<rparr>) w
        in Some (OK, w\<lparr>nvme_devices := nvme_devices w @ [d]\<rparr>))
   }"

text \<open>
  No current working URI is ever set, so \<open>resolve_uri\<close> returns its argument; a URI without
  a scheme makes the search for an opener read a null pointer. The NVMe opener
  stands first in the table of openers.
\<close>

definition xfer_uri_opener :: "nat \<Rightarrow> 'h rom_env \<Rightarrow> string \<Rightarrow>
    (intf_id \<Rightarrow> uri \<Rightarrow> 'h world \<Rightarrow> (rc \<times> 'h world) option) option" where
  "xfer_uri_opener n env scheme =
     map_option snd (find (\<lambda>(s, _). strcasecmp scheme s = 0)
       ((''nvme'', nvme_open_uri n env) # other_openers env))"

definition xfer_open_uri :: "nat \<Rightarrow> 'h rom_env \<Rightarrow> intf_id \<Rightarrow> uri \<Rightarrow> 'h world \<Rightarrow>
    (rc \<times> 'h world) option" where
  "xfer_open_uri n env i u w = do {
     scheme \<leftarrow> uri_scheme u;
     (case xfer_uri_opener n env scheme of
        None \<Rightarrow> Some (Err ENOTSUP, w)
      | Some opener \<Rightarrow> opener i u w)
   }"

section \<open>Lemmas\<close>

end
