(* ===== verification/Sanboot.thy ===== *)
theory Sanboot
  imports Nvme_Block
begin

text \<open>
  SAN devices (\<open>src/src/core/sanboot.c\<close>): paths, commands with retries and timeout, reads
  and writes in fragments, registration. The mutually recursive part of the program, in
  which closing an interface runs the close methods of devices that close further
  interfaces, is tied together by \<open>close_method\<close>, whose fuel bounds the nesting of close
  calls. No block interface has an \<open>acpi_describe\<close> method, so the ACPI descriptor of a path
  is always null and the branches on it are left out. The remaining fuel bounds loops that
  wait for an event, for which not returning is \<open>None\<close>.
\<close>

section \<open>Paths and the command interface\<close>

definition SAN_COMMAND_TIMEOUT :: u32 where "SAN_COMMAND_TIMEOUT = 15 * TICKS_PER_SEC"
definition SAN_DEFAULT_RETRIES :: u32 where "SAN_DEFAULT_RETRIES = 10"
definition SAN_REOPEN_DELAY_SECS :: nat where "SAN_REOPEN_DELAY_SECS = 5"

definition sandev_find :: "u32 \<Rightarrow> 'h world \<Rightarrow> nat option" where
  "sandev_find drv w = find (\<lambda>s. drive (sandevs w s) = drv) (san_devices w)"

definition sandev_command_close :: "nat \<Rightarrow> 'h rom_env \<Rightarrow> 'h closer \<Rightarrow> nat \<Rightarrow> rc \<Rightarrow> 'h world \<Rightarrow>
    'h world option" where
  "sandev_command_close n env H s rc w = do {
     w \<leftarrow> stop_timer env s w;
     w \<leftarrow> intf_restart n H (San_command s) rc w;
     Some (upd_sandev s (\<lambda>d. d\<lparr>command_rc := rc\<rparr>) w)
   }"

definition sandev_command_expired :: "nat \<Rightarrow> 'h rom_env \<Rightarrow> 'h closer \<Rightarrow> nat \<Rightarrow> 'h world \<Rightarrow>
    'h world option" where
  "sandev_command_expired n env H s w = sandev_command_close n env H s (Err ETIMEDOUT) w"

definition sanpath_open :: "nat \<Rightarrow> 'h rom_env \<Rightarrow> nat \<Rightarrow> nat \<Rightarrow> 'h world \<Rightarrow> (rc \<times> 'h world) option" where
  "sanpath_open n env s p w = do {
     u \<leftarrow> path_uri (san_paths (sandevs w s) ! p);
     (rc, w) \<leftarrow> xfer_open_uri n env (San_block s p) u w;
     if rc \<noteq> OK then Some (rc, w)
     else
       (let w = process_add (San_process s p) w;
            w = upd_sandev s (\<lambda>d. d\<lparr>opened := remove1 p (opened d) @ [p], closed := remove1 p (closed d)\<rparr>) w
        in Some (OK, upd_sandev s (upd_path p (\<lambda>q. q\<lparr>path_rc := Err EINPROGRESS\<rparr>)) w))
   }"

definition sanpath_close :: "nat \<Rightarrow> 'h rom_env \<Rightarrow> 'h closer \<Rightarrow> nat \<Rightarrow> nat \<Rightarrow> rc \<Rightarrow> 'h world \<Rightarrow>
    'h world option" where
  "sanpath_close n env H s p rc w =
     (let w = upd_sandev s (upd_path p (\<lambda>q. q\<lparr>path_rc := rc\<rparr>)) w;
          w = upd_sandev s (\<lambda>d. d\<lparr>opened := remove1 p (opened d), closed := remove1 p (closed d) @ [p]\<rparr>) w
      in do {
        w \<leftarrow> process_del (San_process s p) w;
        if active (sandevs w s) = Some p then do {
          w \<leftarrow> intfs_restart n H rc [San_command s, San_block s p] w;
          let w = upd_sandev s (\<lambda>d. d\<lparr>active := None\<rparr>) w;
          sandev_command_close n env H s rc w
        } else intf_restart n H (San_block s p) rc w
      })"

definition sanpath_block_close :: "nat \<Rightarrow> 'h rom_env \<Rightarrow> 'h closer \<Rightarrow> nat \<Rightarrow> nat \<Rightarrow> rc \<Rightarrow> 'h world \<Rightarrow>
    'h world option" where
  "sanpath_block_close n env H s p rc w =
     sanpath_close n env H s p (if rc = OK then Err ENOTCONN else rc) w"

definition sanpath_step :: "nat \<Rightarrow> 'h rom_env \<Rightarrow> 'h closer \<Rightarrow> nat \<Rightarrow> nat \<Rightarrow> 'h world \<Rightarrow>
    'h world option" where
  "sanpath_step n env H s p w =
     (if active (sandevs w s) = Some p then Some w
      else do {
        (win, w) \<leftarrow> xfer_window (San_block s p) w;
        if win = 0 then Some w
        else
          (let w = upd_sandev s (upd_path p (\<lambda>q. q\<lparr>path_rc := OK\<rparr>)) w
           in if active (sandevs w s) = None
              then Some (upd_sandev s (\<lambda>d. d\<lparr>active := Some p\<rparr>) w)
              else sanpath_close n env H s p OK w)
      })"

section \<open>Close methods and process steps\<close>

text \<open>
  The close method of each descriptor. Each level of nesting uses one unit of fuel; the
  same fuel bounds the default restarts within it.
\<close>

fun close_method :: "nat \<Rightarrow> 'h rom_env \<Rightarrow> 'h closer" where
  "close_method 0 env ds = Some (\<lambda>i rc w. None)"
| "close_method (Suc n) env Null_desc = Some (\<lambda>i rc w. Some w)"
| "close_method (Suc n) env Nvme_block_desc = Some (\<lambda>i rc w.
     case i of Nvme_block d \<Rightarrow> nvme_close n (close_method n env) d rc w | _ \<Rightarrow> None)"
| "close_method (Suc n) env San_command_desc = Some (\<lambda>i rc w.
     case i of San_command s \<Rightarrow> sandev_command_close n env (close_method n env) s rc w | _ \<Rightarrow> None)"
| "close_method (Suc n) env San_block_desc = Some (\<lambda>i rc w.
     case i of San_block s p \<Rightarrow> sanpath_block_close n env (close_method n env) s p rc w | _ \<Rightarrow> None)"

fun proc_step :: "nat \<Rightarrow> 'h rom_env \<Rightarrow> 'h stepper" where
  "proc_step n env (Nvme_process d) w = nvme_step n (close_method n env) d w"
| "proc_step n env (San_process s p) w = sanpath_step n env (close_method n env) s p w"
| "proc_step n env Retry_process w =
     retry_poll env (sandev_command_expired n env (close_method n env)) w"
| "proc_step n env (Other_process k) w = Some (other_step env k w)"

section \<open>Commands\<close>

definition quiesce :: "'h rom_env \<Rightarrow> 'h world \<Rightarrow> 'h world" where
  "quiesce env w = fold fst (quiescers env) w"

definition unquiesce :: "'h rom_env \<Rightarrow> 'h world \<Rightarrow> 'h world" where
  "unquiesce env w = fold snd (quiescers env) w"

fun restart_paths :: "nat \<Rightarrow> 'h rom_env \<Rightarrow> nat \<Rightarrow> rc \<Rightarrow> 'h world \<Rightarrow> 'h world option" where
  "restart_paths 0 env s rc w = None"
| "restart_paths (Suc n) env s rc w =
     (case opened (sandevs w s) of
        [] \<Rightarrow> Some w
      | p # _ \<Rightarrow> do {
          w \<leftarrow> sanpath_close n env (close_method n env) s p rc w;
          restart_paths n env s rc w
        })"

definition sandev_restart :: "nat \<Rightarrow> 'h rom_env \<Rightarrow> nat \<Rightarrow> rc \<Rightarrow> 'h world \<Rightarrow> 'h world option" where
  "sandev_restart n env s rc w = do {
     w \<leftarrow> restart_paths n env s rc w;
     let w = upd_sandev s (\<lambda>d. d\<lparr>active := None\<rparr>) w;
     sandev_command_close n env (close_method n env) s rc w
   }"

fun open_paths :: "nat \<Rightarrow> 'h rom_env \<Rightarrow> nat \<Rightarrow> 'h world \<Rightarrow> (rc \<times> 'h world) option" where
  "open_paths 0 env s w = None"
| "open_paths (Suc n) env s w =
     (case closed (sandevs w s) of
        [] \<Rightarrow> Some (OK, w)
      | p # _ \<Rightarrow> do {
          (rc, w) \<leftarrow> sanpath_open n env s p w;
          if rc \<noteq> OK then Some (rc, w) else open_paths n env s w
        })"

text \<open>
  Waiting for a path to become active: \<open>None\<close> when one did, the status of the first closed
  path when no path is left open.
\<close>

fun wait_active :: "nat \<Rightarrow> 'h rom_env \<Rightarrow> nat \<Rightarrow> 'h world \<Rightarrow> (rc option \<times> 'h world) option" where
  "wait_active 0 env s w = None"
| "wait_active (Suc n) env s w =
     (if active (sandevs w s) \<noteq> None then Some (None, w)
      else do {
        w \<leftarrow> step (proc_step n env) w;
        if opened (sandevs w s) = [] then
          Some (Some (case closed (sandevs w s) of
                        [] \<Rightarrow> Err ENODEV
                      | p # _ \<Rightarrow> path_rc (san_paths (sandevs w s) ! p)), w)
        else wait_active n env s w
      })"

definition sandev_reopen :: "nat \<Rightarrow> 'h rom_env \<Rightarrow> nat \<Rightarrow> 'h world \<Rightarrow> (rc \<times> 'h world) option" where
  "sandev_reopen n env s w = do {
     w \<leftarrow> sandev_restart n env s (Err ECONNRESET) (unquiesce env w);
     (rc, w) \<leftarrow> open_paths n env s w;
     if rc \<noteq> OK then do {
       w \<leftarrow> sandev_restart n env s rc w;
       Some (rc, w)
     } else do {
       (failed, w) \<leftarrow> wait_active n env s w;
       (case failed of
          None \<Rightarrow> Some (OK, w)
        | Some rc \<Rightarrow> do {
            w \<leftarrow> sandev_restart n env s rc w;
            Some (rc, w)
          })
     }
   }"

datatype block_rw = Block_read | Block_write

record san_command_rw_params =
  rw_op :: block_rw
  rw_buffer :: u32
  rw_lba :: u64
  rw_count :: u32

datatype san_command = Command_rw san_command_rw_params | Command_read_capacity

text \<open>The active path is asserted not to be null before it is used.\<close>

definition sandev_command_rw :: "nat \<Rightarrow> 'h rom_env \<Rightarrow> nat \<Rightarrow> san_command_rw_params \<Rightarrow> 'h world \<Rightarrow>
    (rc \<times> 'h world) option" where
  "sandev_command_rw n env s params w = do {
     p \<leftarrow> active (sandevs w s);
     let len = rw_count params * blksize (capacity (sandevs w s));
     (case rw_op params of
        Block_read \<Rightarrow> block_read n env (San_block s p) (San_command s) (rw_lba params)
                        (rw_count params) (rw_buffer params) len w
      | Block_write \<Rightarrow> block_write n env (San_block s p) (San_command s) (rw_lba params)
                         (rw_count params) (rw_buffer params) len w)
   }"

definition sandev_command_read_capacity :: "nat \<Rightarrow> 'h world \<Rightarrow> (rc \<times> 'h world) option" where
  "sandev_command_read_capacity s w = do {
     p \<leftarrow> active (sandevs w s);
     block_read_capacity (San_block s p) (San_command s) w
   }"

fun sandev_initiate :: "nat \<Rightarrow> 'h rom_env \<Rightarrow> nat \<Rightarrow> san_command \<Rightarrow> 'h world \<Rightarrow>
    (rc \<times> 'h world) option" where
  "sandev_initiate n env s (Command_rw params) w = sandev_command_rw n env s params w"
| "sandev_initiate n env s Command_read_capacity w = sandev_command_read_capacity s w"

fun wait_command :: "nat \<Rightarrow> 'h rom_env \<Rightarrow> nat \<Rightarrow> 'h world \<Rightarrow> 'h world option" where
  "wait_command 0 env s w = None"
| "wait_command (Suc n) env s w =
     (if timer_running (san_timer (sandevs w s)) then do {
        w \<leftarrow> step (proc_step n env) w;
        wait_command n env s w
      } else Some w)"

text \<open>
  One turn of the retry loop: the status, and whether the turn counts as a retry when it
  failed.
\<close>

definition command_attempt :: "nat \<Rightarrow> 'h rom_env \<Rightarrow> nat \<Rightarrow> san_command \<Rightarrow> 'h world \<Rightarrow>
    (rc \<times> bool \<times> 'h world) option" where
  "command_attempt n env s cmd w = do {
     (rc, w) \<leftarrow> (if active (sandevs w s) = None then sandev_reopen n env s w else Some (OK, w));
     if rc \<noteq> OK then do {
       w \<leftarrow> sleep_fixed n env (proc_step n env) SAN_REOPEN_DELAY_SECS w;
       Some (rc, length (san_paths (sandevs w s)) \<le> 1, w)
     } else do {
       (rc, w) \<leftarrow> sandev_initiate n env s cmd w;
       if rc \<noteq> OK then Some (rc, True, w)
       else do {
         w \<leftarrow> wait_command n env s (start_timer_fixed env s SAN_COMMAND_TIMEOUT w);
         Some (command_rc (sandevs w s), True, w)
       }
     }
   }"

fun command_loop :: "nat \<Rightarrow> 'h rom_env \<Rightarrow> nat \<Rightarrow> san_command \<Rightarrow> u32 \<Rightarrow> 'h world \<Rightarrow>
    (rc \<times> 'h world) option" where
  "command_loop 0 env s cmd retries w = None"
| "command_loop (Suc n) env s cmd retries w = do {
     (rc, counted, w) \<leftarrow> command_attempt n env s cmd w;
     if rc = OK then Some (OK, w)
     else
       (let retries = (if counted then retries + 1 else retries)
        in if retries \<le> san_retries w then command_loop n env s cmd retries w
           else Some (rc, w))
   }"

definition sandev_command :: "nat \<Rightarrow> 'h rom_env \<Rightarrow> nat \<Rightarrow> san_command \<Rightarrow> 'h world \<Rightarrow>
    (rc \<times> 'h world) option" where
  "sandev_command n env s cmd w = command_loop n env s cmd 0 (unquiesce env w)"

definition sandev_reset :: "nat \<Rightarrow> 'h rom_env \<Rightarrow> nat \<Rightarrow> 'h world \<Rightarrow> (rc \<times> 'h world) option" where
  "sandev_reset n env s w = sandev_reopen n env s w"

section \<open>Reading and writing\<close>

text \<open>
  The command is passed as an argument, so that the splitting into fragments can be
  studied on its own.
\<close>

fun rw_loop :: "nat \<Rightarrow> (san_command_rw_params \<Rightarrow> 'w \<Rightarrow> (rc \<times> 'w) option) \<Rightarrow> ('w \<Rightarrow> u32) \<Rightarrow>
    san_command_rw_params \<Rightarrow> u32 \<Rightarrow> 'w \<Rightarrow> (rc \<times> 'w) option" where
  "rw_loop 0 command bsize params remaining w = None"
| "rw_loop (Suc n) command bsize params remaining w =
     (if remaining = 0 then Some (OK, w)
      else
        (let params = (if remaining < rw_count params then params\<lparr>rw_count := remaining\<rparr> else params)
         in do {
           (rc, w) \<leftarrow> command params w;
           if rc \<noteq> OK then Some (rc, w)
           else
             (let frag_len = bsize w * rw_count params
              in rw_loop n command bsize
                   (params\<lparr>rw_buffer := rw_buffer params + frag_len,
                           rw_lba := rw_lba params + ucast (rw_count params)\<rparr>)
                   (remaining - rw_count params) w)
         }))"

definition sandev_rw :: "nat \<Rightarrow> 'h rom_env \<Rightarrow> nat \<Rightarrow> u64 \<Rightarrow> u32 \<Rightarrow> u32 \<Rightarrow> block_rw \<Rightarrow> 'h world \<Rightarrow>
    (rc \<times> 'h world) option" where
  "sandev_rw n env s lba count buffer op w =
     (let shift = blksize_shift (sandevs w s) in
      if 32 \<le> shift then None
      else rw_loop n (\<lambda>params. sandev_command n env s (Command_rw params))
             (\<lambda>w. blksize (capacity (sandevs w s)))
             \<lparr>rw_op = op, rw_buffer = buffer, rw_lba = push_bit shift lba,
              rw_count = max_count (capacity (sandevs w s))\<rparr>
             (push_bit shift count) w)"

definition sandev_read :: "nat \<Rightarrow> 'h rom_env \<Rightarrow> nat \<Rightarrow> u64 \<Rightarrow> u32 \<Rightarrow> u32 \<Rightarrow> 'h world \<Rightarrow>
    (rc \<times> 'h world) option" where
  "sandev_read n env s lba count buffer w = sandev_rw n env s lba count buffer Block_read w"

definition sandev_write :: "nat \<Rightarrow> 'h rom_env \<Rightarrow> nat \<Rightarrow> u64 \<Rightarrow> u32 \<Rightarrow> u32 \<Rightarrow> 'h world \<Rightarrow>
    (rc \<times> 'h world) option" where
  "sandev_write n env s lba count buffer w = do {
     (rc, w) \<leftarrow> sandev_rw n env s lba count buffer Block_write w;
     if rc \<noteq> OK then Some (rc, w) else Some (OK, quiesce env w)
   }"

section \<open>Registration\<close>

text \<open>
  With all descriptors null, the first turn of the loop of \<open>sandev_describe\<close> succeeds.
\<close>

definition sandev_describe :: "nat \<Rightarrow> 'h rom_env \<Rightarrow> nat \<Rightarrow> 'h world \<Rightarrow> (rc \<times> 'h world) option" where
  "sandev_describe n env s w = do {
     w \<leftarrow> step (proc_step n env) w;
     Some (OK, w)
   }"

definition ISO9660_BLKSIZE :: u32 where "ISO9660_BLKSIZE = 2048"
definition ISO9660_PRIMARY_LBA :: u32 where "ISO9660_PRIMARY_LBA = 16"

text \<open>The type 1 and the identifier \<open>CD001\<close> at the start of a primary volume descriptor.\<close>

definition primary_check :: "u8 list" where
  "primary_check = [0x01, 0x43, 0x44, 0x30, 0x30, 0x31]"

text \<open>The shift that takes the block size to 2048; a block size of 0 never gets there.\<close>

fun cdrom_shift :: "nat \<Rightarrow> u32 \<Rightarrow> nat \<Rightarrow> (u32 \<times> nat) option" where
  "cdrom_shift 0 bs shift = None"
| "cdrom_shift (Suc n) bs shift =
     (if bs < ISO9660_BLKSIZE then cdrom_shift n (push_bit 1 bs) (Suc shift) else Some (bs, shift))"

definition sandev_parse_iso9660 :: "nat \<Rightarrow> 'h rom_env \<Rightarrow> nat \<Rightarrow> 'h world \<Rightarrow> (rc \<times> 'h world) option" where
  "sandev_parse_iso9660 n env s w = do {
     (bs, shift) \<leftarrow> cdrom_shift n (blksize (capacity (sandevs w s))) 0;
     if ISO9660_BLKSIZE < bs then Some (OK, w)
     else do {
       (scratch, w) \<leftarrow> malloc n (discarders (nvme_if env)) ISO9660_BLKSIZE w;
       if scratch = 0 then Some (Err ENOMEM, w)
       else do {
         (rc, w) \<leftarrow> sandev_read n env s (ucast (push_bit shift ISO9660_PRIMARY_LBA)) (push_bit shift 1)
                     scratch w;
         let w = (if rc = OK \<and> mem_read (memory w) scratch (length primary_check) = primary_check
                  then upd_sandev s (\<lambda>d. d\<lparr>blksize_shift := shift, is_cdrom := True\<rparr>) w
                  else w);
         w \<leftarrow> free scratch w;
         Some (rc, w)
       }
     }
   }"

definition sizeof_san_device :: u32 where "sizeof_san_device = 136"
definition sizeof_san_path :: u32 where "sizeof_san_path = 60"

definition int13_zero :: int13_data where
  "int13_zero = \<lparr>natural_drive = 0, cylinders = 0, heads = 0, sectors_per_track = 0,
     boot_catalog = 0, last_status = 0\<rparr>"

definition timer_zero :: retry_timer where
  "timer_zero = \<lparr>timer_running = False, timer_timeout = 0, timer_min = 0, timer_max = 0,
     timer_start = 0, timer_count = 0\<rparr>"

definition new_sandev :: "uri option list \<Rightarrow> san_device" where
  "new_sandev uris = \<lparr>drive = 0, san_flags = 0, san_timer = timer_zero, command_rc = OK,
     capacity = \<lparr>blocks = 0, blksize = 0, max_count = 0\<rparr>, blksize_shift = 0, is_cdrom = False,
     priv = int13_zero, san_paths = map (\<lambda>u. \<lparr>path_uri = u, path_rc = Err EINPROGRESS\<rparr>) uris,
     active = None, opened = [], closed = [0..<length uris]\<rparr>"

definition alloc_sandev :: "nat \<Rightarrow> 'h rom_env \<Rightarrow> uri option list \<Rightarrow> u32 \<Rightarrow> 'h world \<Rightarrow>
    (nat option \<times> 'h world) option" where
  "alloc_sandev n env uris priv_size w = do {
     (a, w) \<leftarrow> zalloc n (discarders (nvme_if env))
               (sizeof_san_device + of_nat (length uris) * sizeof_san_path + priv_size) w;
     if a = 0 then Some (None, w)
     else
       (let s = next_sandev w;
            w = w\<lparr>next_sandev := Suc s, obj_addr := (obj_addr w)(San_obj s := a),
                  refcnts := (refcnts w)(San_obj s := 0)\<rparr>;
            w = upd_sandev s (\<lambda>_. new_sandev uris) w;
            w = intf_init (San_command s) San_command_desc (Some (San_obj s)) w;
            w = fold (\<lambda>p. intf_init (San_block s p) San_block_desc (Some (San_obj s)))
                  [0..<length uris] w
        in Some (Some s, w))
   }"

text \<open>The error exits of \<open>register_sandev\<close> restart the device.\<close>

definition register_sandev :: "nat \<Rightarrow> 'h rom_env \<Rightarrow> nat \<Rightarrow> u32 \<Rightarrow> u32 \<Rightarrow> 'h world \<Rightarrow>
    (rc \<times> 'h world) option" where
  "register_sandev n env s drv flags w =
     (if sandev_find drv w \<noteq> None then Some (Err EADDRINUSE, w)
      else
        (let fail = (\<lambda>rc w. do { w \<leftarrow> sandev_restart n env s rc w; Some (rc, w) });
             w = upd_sandev s (\<lambda>d. d\<lparr>drive := drv, san_flags := flags\<rparr>) w
         in do {
           (rc, w) \<leftarrow> sandev_reopen n env s w;
           if rc \<noteq> OK then fail rc w
           else do {
             (rc, w) \<leftarrow> sandev_describe n env s w;
             if rc \<noteq> OK then fail rc w
             else do {
               (rc, w) \<leftarrow> sandev_command n env s Command_read_capacity w;
               if rc \<noteq> OK then fail rc w
               else do {
                 (rc, w) \<leftarrow> sandev_parse_iso9660 n env s w;
                 if rc \<noteq> OK then fail rc w
                 else Some (OK, w\<lparr>san_devices := san_devices w @ [s]\<rparr>)
               }
             }
           }
         }))"

definition unregister_sandev :: "nat \<Rightarrow> 'h rom_env \<Rightarrow> nat \<Rightarrow> 'h world \<Rightarrow> 'h world option" where
  "unregister_sandev n env s w =
     sandev_restart n env s OK (w\<lparr>san_devices := remove1 s (san_devices w)\<rparr>)"

definition sandev_blksize :: "nat \<Rightarrow> 'h world \<Rightarrow> u32" where
  "sandev_blksize s w = push_bit (blksize_shift (sandevs w s)) (blksize (capacity (sandevs w s)))"

definition sandev_capacity :: "nat \<Rightarrow> 'h world \<Rightarrow> u64" where
  "sandev_capacity s w = drop_bit (blksize_shift (sandevs w s)) (blocks (capacity (sandevs w s)))"

section \<open>Lemmas\<close>

text \<open>
  What the splitting of a transfer into fragments relies on of the command: a one-block read
  into a buffer outside the provider's own memory delivers the block, touches nothing else, and
  leaves the provider ready for the next command.
\<close>

locale block_reader =
  fixes command :: "nat \<Rightarrow> san_command_rw_params \<Rightarrow> 'w \<Rightarrow> (rc \<times> 'w) option"
    and bsize :: "'w \<Rightarrow> u32"
    and idle :: "'w \<Rightarrow> bool"
    and mem_of :: "'w \<Rightarrow> mem"
    and disk_of :: "'w \<Rightarrow> u64 \<Rightarrow> u8 list"
    and own :: "'w \<Rightarrow> u32 set"
    and frame :: "'w \<Rightarrow> 'w \<Rightarrow> bool"
  assumes reads: "idle w \<Longrightarrow> region buf 512 \<inter> own w = {} \<Longrightarrow>
      \<exists>k w'. (\<forall>n>k. command n \<lparr>rw_op = Block_read, rw_buffer = buf, rw_lba = lba, rw_count = 1\<rparr> w = Some (OK, w')) \<and>
        idle w' \<and> frame w w' \<and> own w' = own w \<and> disk_of w' = disk_of w \<and>
        same_outside (own w \<union> region buf 512) (mem_of w) (mem_of w') \<and> mem_read (mem_of w') buf 512 = disk_of w lba"
    and bsize: "idle w \<Longrightarrow> bsize w = 512"
    and frame_refl: "frame w w"
    and frame_trans: "frame w w' \<Longrightarrow> frame w' w'' \<Longrightarrow> frame w w''"
begin

lemma rw_loop_reads:
  assumes "idle w" "region buf (512 * unat count) \<inter> own w = {}" "512 * unat count \<le> 2 ^ 32"
  shows "\<exists>k w'. (\<forall>n>k. \<forall>m>k. rw_loop m (command n) bsize
         \<lparr>rw_op = Block_read, rw_buffer = buf, rw_lba = lba, rw_count = 1\<rparr> count w = Some (OK, w')) \<and>
       idle w' \<and> frame w w' \<and> own w' = own w \<and> disk_of w' = disk_of w \<and>
       same_outside (own w \<union> region buf (512 * unat count)) (mem_of w) (mem_of w') \<and>
       mem_read (mem_of w') buf (512 * unat count) = disk_blocks (disk_of w) lba (unat count)"
  using assms
proof (induction "unat count" arbitrary: count buf lba w)
  case 0
  then have "count = 0" by (simp add: unat_eq_0)
  moreover have "rw_loop m (command n) bsize p 0 w = Some (OK, w)" if "m > 0" for m n p
    using that by (cases m) auto
  ultimately show ?case
    using 0 frame_refl by (intro exI [of _ 0] exI [of _ w]) (auto simp: mem_read_def disk_blocks_def)
next
  case (Suc c)
  have c: "unat (count - 1) = c" "count \<noteq> 0" using Suc.hyps(2) by (auto simp: unat_sub_if_size word_size)
  have sub: "region buf 512 \<subseteq> region buf (512 * unat count)" "region (buf + 512) (512 * c) \<subseteq> region buf (512 * unat count)"
    using Suc.hyps(2) Suc.prems(3) region_sub [of 512 "512 * c" "512 * unat count" buf] by (auto intro!: region_mono)
  have dj: "region buf 512 \<inter> region (buf + 512) (512 * c) = {}"
    using Suc.hyps(2) Suc.prems(3) by (intro region_after) auto
  obtain k1 w1 where w1: "\<forall>n>k1. command n \<lparr>rw_op = Block_read, rw_buffer = buf, rw_lba = lba, rw_count = 1\<rparr> w = Some (OK, w1)"
      "idle w1" "frame w w1" "own w1 = own w" "disk_of w1 = disk_of w"
      "same_outside (own w \<union> region buf 512) (mem_of w) (mem_of w1)" "mem_read (mem_of w1) buf 512 = disk_of w lba"
    using reads [OF Suc.prems(1), of buf lba] Suc.prems(2) sub(1) by blast
  have own': "region (buf + 512) (512 * unat (count - 1)) \<inter> own w1 = {}" "512 * unat (count - 1) \<le> 2 ^ 32"
    using Suc.prems(2,3) Suc.hyps(2) sub(2) w1(4) c(1) by auto
  obtain k2 w' where w': "\<forall>n>k2. \<forall>m>k2. rw_loop m (command n) bsize
         \<lparr>rw_op = Block_read, rw_buffer = buf + 512, rw_lba = lba + 1, rw_count = 1\<rparr> (count - 1) w1 = Some (OK, w')"
      "idle w'" "frame w1 w'" "own w' = own w" "disk_of w' = disk_of w"
      "same_outside (own w \<union> region (buf + 512) (512 * c)) (mem_of w1) (mem_of w')"
      "mem_read (mem_of w') (buf + 512) (512 * c) = disk_blocks (disk_of w) (lba + 1) c"
    using Suc.hyps(1) [OF c(1) [symmetric] w1(2) own', of "lba + 1"] c w1(4,5) by auto
  have "rw_loop m (command n) bsize \<lparr>rw_op = Block_read, rw_buffer = buf, rw_lba = lba, rw_count = 1\<rparr> count w = Some (OK, w')"
    if "n > k1 + k2" "m > k1 + k2 + 1" for n m
    using that c w1(1) w'(1) bsize [OF w1(2)] word_less_1 [of count] by (cases m) auto
  moreover have "mem_read (mem_of w') buf 512 = disk_of w lba"
    using mem_read_same [OF w'(6), of buf 512] dj sub(1) Suc.prems(2) w1(7) by auto
  then have "mem_read (mem_of w') buf (512 * unat count) = disk_blocks (disk_of w) lba (unat count)"
    using w'(7) mem_read_append [of "mem_of w'" buf 512 "512 * c"] disk_blocks_Suc [of "disk_of w" lba c]
    by (simp flip: Suc.hyps(2))
  moreover have "same_outside (own w \<union> region buf (512 * unat count)) (mem_of w) (mem_of w')"
    using sub by (intro same_outside_trans [OF w1(6) w'(6)]) auto
  ultimately show ?case
    using w'(2,4,5) frame_trans [OF w1(3) w'(3)]
    by (intro exI [of _ "k1 + k2 + 1"] exI [of _ w']) auto
qed

end

end
