(* ===== verification/Int13_Geometry.thy ===== *)
theory Int13_Geometry
  imports Sanboot
begin

text \<open>
  Drive geometry and drive counts of the INT 13 emulation
  (\<open>src/src/arch/x86/interface/pcbios/int13.c\<close>, structures in
  \<open>src/src/arch/x86/include/int13.h\<close>): guessing heads and sectors per track from the
  partition table or the size of a floppy image, cylinder/head/sector addresses, and the
  drive counts in the BIOS data area.
\<close>

section \<open>Geometry\<close>

definition INT13_BLKSIZE :: u32 where "INT13_BLKSIZE = 512"

definition limit32 :: "u64 \<Rightarrow> u32" where
  "limit32 cap = (if cap \<le> 0xffffffff then ucast cap else 0xffffffff)"

definition int13_capacity32 :: "nat \<Rightarrow> 'h world \<Rightarrow> u32" where
  "int13_capacity32 s w = limit32 (sandev_capacity s w)"

definition is_fdd_drive :: "u32 \<Rightarrow> bool" where
  "is_fdd_drive drv \<longleftrightarrow> drv AND 0x80 = 0"

definition int13_is_fdd :: "nat \<Rightarrow> 'h world \<Rightarrow> bool" where
  "int13_is_fdd s w = is_fdd_drive (drive (sandevs w s))"

record partition_chs =
  chs_head :: u8
  chs_cyl_sector :: u8
  chs_cyl :: u8

definition PART_HEAD :: "partition_chs \<Rightarrow> u32" where
  "PART_HEAD chs = ucast (chs_head chs)"

definition PART_SECTOR :: "partition_chs \<Rightarrow> u32" where
  "PART_SECTOR chs = ucast (chs_cyl_sector chs) AND 0x3f"

definition PART_CYLINDER :: "partition_chs \<Rightarrow> u32" where
  "PART_CYLINDER chs =
     ucast (chs_cyl chs) OR push_bit 2 (ucast (chs_cyl_sector chs) AND 0xc0)"

record partition_table_entry =
  part_chs_start :: partition_chs
  part_type :: u8
  part_chs_end :: partition_chs
  part_start :: u32

definition read_chs :: "mem \<Rightarrow> u32 \<Rightarrow> partition_chs" where
  "read_chs m a = \<lparr>chs_head = rd8 m a, chs_cyl_sector = rd8 m (a + 1), chs_cyl = rd8 m (a + 2)\<rparr>"

text \<open>Entry \<open>i\<close> of the partition table of the boot record at \<open>mbr\<close>.\<close>

definition read_partition :: "mem \<Rightarrow> u32 \<Rightarrow> nat \<Rightarrow> partition_table_entry" where
  "read_partition m mbr i =
     (let a = mbr + 446 + 16 * of_nat i in
      \<lparr>part_chs_start = read_chs m (a + 1), part_type = rd8 m (a + 4),
       part_chs_end = read_chs m (a + 5), part_start = rd32 m (a + 8)\<rparr>)"

text \<open>One turn of the loop over the partition table, on the guesses for heads and sectors.\<close>

definition guess_partition :: "partition_table_entry \<Rightarrow> u32 \<times> u32 \<Rightarrow> u32 \<times> u32" where
  "guess_partition p g =
     (let (hds, secs) = g in
      if part_type p = 0 then (hds, secs)
      else
        (let start_cylinder = PART_CYLINDER (part_chs_start p);
             start_head = PART_HEAD (part_chs_start p);
             start_sector = PART_SECTOR (part_chs_start p);
             secs = (if start_cylinder = 0 \<and> start_head \<noteq> 0
                     then (part_start p + 1 - start_sector) div start_head else secs);
             end_head = PART_HEAD (part_chs_end p);
             end_sector = PART_SECTOR (part_chs_end p);
             hds = (if hds < end_head + 1 then end_head + 1 else hds);
             secs = (if secs < end_sector then end_sector else secs)
         in (hds, secs)))"

definition guess_table :: "partition_table_entry list \<Rightarrow> u32 \<times> u32" where
  "guess_table ps =
     (let (hds, secs) = fold guess_partition ps (0, 0) in
      (if hds = 0 then 255 else hds, if secs = 0 then 63 else secs))"

definition int13_guess_geometry_hdd :: "nat \<Rightarrow> 'h rom_env \<Rightarrow> nat \<Rightarrow> u32 \<Rightarrow> 'h world \<Rightarrow>
    (rc \<times> u32 \<times> u32 \<times> 'h world) option" where
  "int13_guess_geometry_hdd n env s scratch w = do {
     (rc, w) \<leftarrow> sandev_read n env s 0 1 scratch w;
     if rc \<noteq> OK then Some (rc, 0, 0, w)
     else
       (let (hds, secs) = guess_table (map (read_partition (memory w) scratch) [0..<4])
        in Some (OK, hds, secs, w))
   }"

text \<open>A floppy geometry: cylinders, and heads and sectors packed into one byte.\<close>

record int13_fdd_geometry =
  fdd_tracks :: u8
  fdd_heads_spt :: u8

definition INT13_FDD_GEOMETRY :: "u8 \<Rightarrow> u8 \<Rightarrow> u8 \<Rightarrow> int13_fdd_geometry" where
  "INT13_FDD_GEOMETRY cyls hds secs =
     \<lparr>fdd_tracks = cyls, fdd_heads_spt = push_bit 6 hds OR secs\<rparr>"

definition INT13_FDD_CYLINDERS :: "int13_fdd_geometry \<Rightarrow> u32" where
  "INT13_FDD_CYLINDERS g = ucast (fdd_tracks g)"

definition INT13_FDD_HEADS :: "int13_fdd_geometry \<Rightarrow> u32" where
  "INT13_FDD_HEADS g = drop_bit 6 (ucast (fdd_heads_spt g))"

definition INT13_FDD_SECTORS :: "int13_fdd_geometry \<Rightarrow> u32" where
  "INT13_FDD_SECTORS g = ucast (fdd_heads_spt g) AND 0x3f"

definition int13_fdd_geometries :: "int13_fdd_geometry list" where
  "int13_fdd_geometries =
     [INT13_FDD_GEOMETRY 40 1 8, INT13_FDD_GEOMETRY 40 1 9, INT13_FDD_GEOMETRY 40 2 8,
      INT13_FDD_GEOMETRY 40 1 9, INT13_FDD_GEOMETRY 80 2 8, INT13_FDD_GEOMETRY 80 2 9,
      INT13_FDD_GEOMETRY 80 2 15, INT13_FDD_GEOMETRY 80 2 18, INT13_FDD_GEOMETRY 80 2 20,
      INT13_FDD_GEOMETRY 80 2 21, INT13_FDD_GEOMETRY 82 2 21, INT13_FDD_GEOMETRY 83 2 21,
      INT13_FDD_GEOMETRY 80 2 22, INT13_FDD_GEOMETRY 80 2 23, INT13_FDD_GEOMETRY 80 2 24,
      INT13_FDD_GEOMETRY 80 2 36, INT13_FDD_GEOMETRY 80 2 39, INT13_FDD_GEOMETRY 80 2 40,
      INT13_FDD_GEOMETRY 80 2 44, INT13_FDD_GEOMETRY 80 2 48]"

definition fdd_blocks :: "int13_fdd_geometry \<Rightarrow> u32" where
  "fdd_blocks g = INT13_FDD_CYLINDERS g * INT13_FDD_HEADS g * INT13_FDD_SECTORS g"

definition guess_fdd :: "u32 \<Rightarrow> u32 \<times> u32" where
  "guess_fdd blks =
     (case find (\<lambda>g. fdd_blocks g = blks) int13_fdd_geometries of
        Some g \<Rightarrow> (INT13_FDD_HEADS g, INT13_FDD_SECTORS g)
      | None \<Rightarrow> (2, 18))"

definition int13_guess_geometry_fdd :: "nat \<Rightarrow> 'h world \<Rightarrow> u32 \<times> u32" where
  "int13_guess_geometry_fdd s w = guess_fdd (ucast (sandev_capacity s w))"

text \<open>
  The guesses fill in what is not already set; a product of heads and sectors that is 0
  divides by zero.
\<close>

definition apply_geometry :: "u32 \<Rightarrow> u32 \<times> u32 \<Rightarrow> int13_data \<Rightarrow> int13_data option" where
  "apply_geometry blks g d =
     (let d = (if heads d = 0 then d\<lparr>heads := fst g\<rparr> else d);
          d = (if sectors_per_track d = 0 then d\<lparr>sectors_per_track := snd g\<rparr> else d)
      in if cylinders d = 0 then
           (let blocks_per_cyl = heads d * sectors_per_track d in
            if blocks_per_cyl = 0 then None
            else
              (let cyls = blks div blocks_per_cyl
               in Some (d\<lparr>cylinders := (if 1024 < cyls then 1024 else cyls)\<rparr>)))
         else Some d)"

definition upd_priv :: "nat \<Rightarrow> (int13_data \<Rightarrow> int13_data) \<Rightarrow> 'h world \<Rightarrow> 'h world" where
  "upd_priv s f w = upd_sandev s (\<lambda>d. d\<lparr>priv := f (priv d)\<rparr>) w"

definition int13_guess_geometry :: "nat \<Rightarrow> 'h rom_env \<Rightarrow> nat \<Rightarrow> u32 \<Rightarrow> 'h world \<Rightarrow>
    (rc \<times> 'h world) option" where
  "int13_guess_geometry n env s scratch w = do {
     (rc, hds, secs, w) \<leftarrow>
       (if int13_is_fdd s w
        then (let (hds, secs) = int13_guess_geometry_fdd s w in Some (OK, hds, secs, w))
        else int13_guess_geometry_hdd n env s scratch w);
     if rc \<noteq> OK then Some (rc, w)
     else do {
       d \<leftarrow> apply_geometry (int13_capacity32 s w) (hds, secs) (priv (sandevs w s));
       Some (OK, upd_priv s (\<lambda>_. d) w)
     }
   }"

section \<open>Cylinder, head and sector addresses\<close>

definition chs_cylinder :: "i386_all_regs \<Rightarrow> u32" where
  "chs_cylinder r = push_bit 2 (ucast (r_cl r) AND 0xc0) OR ucast (r_ch r)"

definition chs_sector :: "i386_all_regs \<Rightarrow> u32" where
  "chs_sector r = ucast (r_cl r) AND 0x3f"

definition chs_valid :: "int13_data \<Rightarrow> u32 \<Rightarrow> u32 \<Rightarrow> u32 \<Rightarrow> bool" where
  "chs_valid d cyl hea sec \<longleftrightarrow>
     \<not> (cylinders d \<le> cyl \<or> heads d \<le> hea \<or> sec < 1 \<or> sectors_per_track d < sec)"

definition chs_to_lba :: "int13_data \<Rightarrow> u32 \<Rightarrow> u32 \<Rightarrow> u32 \<Rightarrow> u32" where
  "chs_to_lba d cyl hea sec = (cyl * heads d + hea) * sectors_per_track d + sec - 1"

section \<open>Drive counts\<close>

definition BDA_EQUIPMENT_WORD :: "'z machine_scheme \<Rightarrow> u32" where
  "BDA_EQUIPMENT_WORD w = real_to_user w 0x40 0x10"

definition BDA_NUM_DRIVES :: "'z machine_scheme \<Rightarrow> u32" where
  "BDA_NUM_DRIVES w = real_to_user w 0x40 0x75"

definition fdds_of :: "u16 \<Rightarrow> u8" where
  "fdds_of eq = (if eq AND 1 \<noteq> 0 then ucast (drop_bit 6 eq AND 3) + 1 else 0)"

definition equipment_with :: "u8 \<Rightarrow> u16 \<Rightarrow> u16" where
  "equipment_with fdds eq =
     (let eq = eq AND NOT (push_bit 6 3 OR 1)
      in if fdds \<noteq> 0 then eq OR (1 OR push_bit 6 (ucast (fdds - 1) AND 3)) else eq)"

text \<open>The count that covers a device, and one turn of the loop over the devices.\<close>

definition drives_required :: "u32 \<Rightarrow> u32 \<Rightarrow> u8" where
  "drives_required drv natural =
     (let max_drive = (ucast drv :: u8);
          max_drive = (if ucast max_drive < natural then ucast natural else max_drive)
      in (max_drive AND 0x7f) + 1)"

definition cover_drive :: "u32 \<times> u32 \<Rightarrow> u8 \<times> u8 \<Rightarrow> u8 \<times> u8" where
  "cover_drive dn counts =
     (let (drv, natural) = dn;
          (fdds, hdds) = counts;
          required = drives_required drv natural
      in if is_fdd_drive drv then (if fdds < required then required else fdds, hdds)
         else (fdds, if hdds < required then required else hdds))"

definition int13_sync_num_drives :: "'h world \<Rightarrow> 'h world" where
  "int13_sync_num_drives w =
     (let eq = rd16 (memory w) (BDA_EQUIPMENT_WORD w);
          hdds = rd8 (memory w) (BDA_NUM_DRIVES w);
          (fdds, hdds) = fold (\<lambda>s. cover_drive (drive (sandevs w s), natural_drive (priv (sandevs w s))))
                           (san_devices w) (fdds_of eq, hdds);
          eq = equipment_with fdds eq;
          w = w\<lparr>equipment_word := eq, num_fdds := fdds, num_drives := hdds\<rparr>;
          w = mem_upd (\<lambda>m. mem_write m (BDA_EQUIPMENT_WORD w) (le_bytes 2 (unat eq))) w
      in mem_upd (\<lambda>m. mem_write m (BDA_NUM_DRIVES w) [hdds]) w)"

definition int13_check_num_drives :: "'h world \<Rightarrow> 'h world" where
  "int13_check_num_drives w =
     (if rd16 (memory w) (BDA_EQUIPMENT_WORD w) \<noteq> equipment_word w \<or>
         rd8 (memory w) (BDA_NUM_DRIVES w) \<noteq> num_drives w
      then int13_sync_num_drives w else w)"

definition geometry_ok :: "int13_data \<Rightarrow> bool" where
  "geometry_ok d \<longleftrightarrow> cylinders d \<le> 1024 \<and> heads d \<le> 256 \<and> sectors_per_track d \<le> 63"

definition geometry_size :: "int13_data \<Rightarrow> nat" where
  "geometry_size d = unat (cylinders d) * unat (heads d) * unat (sectors_per_track d)"

definition lba_to_chs :: "int13_data \<Rightarrow> nat \<Rightarrow> u32 \<times> u32 \<times> u32" where
  "lba_to_chs d lba =
     (let H = unat (heads d); S = unat (sectors_per_track d)
      in (of_nat (lba div (S * H)), of_nat (lba div S mod H), of_nat (lba mod S + 1)))"

definition sample_geometry :: int13_data where
  "sample_geometry = \<lparr>natural_drive = 0x80, cylinders = 1024, heads = 255, sectors_per_track = 63,
     boot_catalog = 0, last_status = 0\<rparr>"

definition partition_fits :: "u32 \<Rightarrow> u32 \<Rightarrow> partition_table_entry \<Rightarrow> bool" where
  "partition_fits hds secs p \<longleftrightarrow> part_type p \<noteq> 0 \<longrightarrow>
     (PART_CYLINDER (part_chs_start p) = 0 \<longrightarrow>
        part_start p = PART_HEAD (part_chs_start p) * secs + PART_SECTOR (part_chs_start p) - 1) \<and>
     PART_HEAD (part_chs_end p) < hds \<and> PART_SECTOR (part_chs_end p) \<le> secs"

definition partition_full :: "u32 \<Rightarrow> u32 \<Rightarrow> partition_table_entry \<Rightarrow> bool" where
  "partition_full hds secs p \<longleftrightarrow> part_type p \<noteq> 0 \<and>
     PART_HEAD (part_chs_end p) = hds - 1 \<and> PART_SECTOR (part_chs_end p) = secs"

definition sample_partition :: partition_table_entry where
  "sample_partition = 
     \<lparr>part_chs_start = \<lparr>chs_head = 1, chs_cyl_sector = 1, chs_cyl = 0\<rparr>, part_type = 0x83,
      part_chs_end = \<lparr>chs_head = 254, chs_cyl_sector = 0xff, chs_cyl = 0xff\<rparr>, part_start = 63\<rparr>"

text \<open>Covered: the drive number is below the count of its class.\<close>

definition covered :: "u32 \<Rightarrow> u8 \<times> u8 \<Rightarrow> bool" where
  "covered drv counts \<longleftrightarrow>
     unat drv mod 128 < unat (if is_fdd_drive drv then fst counts else snd counts)"

definition drive_class_ok :: "u32 \<times> u32 \<Rightarrow> bool" where
  "drive_class_ok dn \<longleftrightarrow> unat (fst dn) < 256 \<and> unat (snd dn) < 256 \<and>
     is_fdd_drive (fst dn) = is_fdd_drive (snd dn)"

definition drive_numbers :: "'h world \<Rightarrow> (u32 \<times> u32) list" where
  "drive_numbers w = map (\<lambda>s. (drive (sandevs w s), natural_drive (priv (sandevs w s)))) (san_devices w)"

section \<open>Lemmas\<close>

lemma unat_mult_no_wrap: "unat (x :: u32) * unat y < 2 ^ 32 \<Longrightarrow> unat (x * y) = unat x * unat y"
  by (simp add: unat_word_ariths)

lemma div_mod_linear: "k < (b :: nat) \<Longrightarrow> (t * b + k) div b = t \<and> (t * b + k) mod b = k"
  by simp

lemma chs_linear_less:
  fixes c h s C H S :: nat
  assumes "c < C" "h < H" "1 \<le> s" "s \<le> S"
  shows "(c * H + h) * S + s - 1 < C * H * S"
proof -
  have "c * H + h + 1 \<le> C * H"
    using assms(1,2) by (metis Suc_eq_plus1 add_Suc_right add_mono_thms_linordered_semiring(3) mult_Suc mult_le_mono1 Suc_leI add.commute le_trans)
  then have "(c * H + h + 1) * S \<le> C * H * S" by (rule mult_le_mono1)
  then have "(c * H + h) * S + S \<le> C * H * S" by (simp add: algebra_simps)
  with assms(3,4) show ?thesis by linarith
qed

lemma geometry_nat:
  assumes "geometry_ok d"
  shows "unat (cylinders d) \<le> 1024" "unat (heads d) \<le> 256" "unat (sectors_per_track d) \<le> 63"
  using assms by (simp_all add: geometry_ok_def word_le_nat_alt)

lemma chs_valid_nat:
  "chs_valid d c h s \<longleftrightarrow> unat c < unat (cylinders d) \<and> unat h < unat (heads d) \<and>
     1 \<le> unat s \<and> unat s \<le> unat (sectors_per_track d)"
  by (auto simp: chs_valid_def word_le_nat_alt word_less_nat_alt unat_gt_0 Suc_le_eq)

lemma geometry_size_bound:
  assumes "geometry_ok d"
  shows "geometry_size d \<le> 1024 * 256 * 63"
  unfolding geometry_size_def using geometry_nat [OF assms] by (intro mult_le_mono) auto

lemma chs_to_lba_nat:
  assumes ok: "geometry_ok d" and v: "chs_valid d c h s"
  shows "unat (chs_to_lba d c h s) =
    (unat c * unat (heads d) + unat h) * unat (sectors_per_track d) + unat s - 1"
proof -
  let ?H = "unat (heads d)" and ?S = "unat (sectors_per_track d)"
  note n = v [unfolded chs_valid_nat]
  have b: "(unat c * ?H + unat h) * ?S + unat s - 1 < 1024 * 256 * 63"
    using chs_linear_less [of "unat c" "unat (cylinders d)" "unat h" ?H "unat s" ?S] n
      geometry_size_bound [OF ok, unfolded geometry_size_def] by linarith
  have S: "1 \<le> ?S" "1 \<le> unat s" using n by auto
  have 1: "(unat c * ?H + unat h) * ?S < 2 ^ 31" using b n by auto
  have 2: "unat c * ?H + unat h \<le> (unat c * ?H + unat h) * ?S"
    using S by (cases ?S) auto
  have 3: "unat c * ?H + unat h < 2 ^ 31" using 2 1 by (rule le_less_trans)
  then have u1: "unat (c * heads d) = unat c * ?H"
    by (intro unat_mult_no_wrap) simp
  have u2: "unat (c * heads d + h) = unat c * ?H + unat h"
    using 3 u1 by (subst unat_add_no_wrap) auto
  have u3: "unat ((c * heads d + h) * sectors_per_track d) = (unat c * ?H + unat h) * ?S"
    using 1 u2 by (subst unat_mult_no_wrap) auto
  have u4: "unat ((c * heads d + h) * sectors_per_track d + s) = (unat c * ?H + unat h) * ?S + unat s"
    using u3 1 b n by (subst unat_add_no_wrap) auto
  show ?thesis
    unfolding chs_to_lba_def using u4 S by (simp add: unat_sub_if_size word_size)
qed

lemma chs_to_lba_less:
  assumes "geometry_ok d" "chs_valid d c h s"
  shows "unat (chs_to_lba d c h s) < geometry_size d"
  using chs_linear_less [of "unat c" "unat (cylinders d)" "unat h" "unat (heads d)" "unat s"
      "unat (sectors_per_track d)"] assms(2)
  by (simp add: chs_to_lba_nat [OF assms] geometry_size_def chs_valid_nat)

lemma lba_to_chs_valid:
  assumes ok: "geometry_ok d" and l: "lba < geometry_size d"
    and e: "lba_to_chs d lba = (c, h, s)"
  shows "chs_valid d c h s \<and> unat (chs_to_lba d c h s) = lba"
proof -
  let ?C = "unat (cylinders d)" and ?H = "unat (heads d)" and ?S = "unat (sectors_per_track d)"
  note b = geometry_nat [OF ok] and gb = geometry_size_bound [OF ok]
  have pos: "0 < ?H" "0 < ?S" using l by (auto simp: geometry_size_def intro: Nat.gr0I)
  have lt: "lba < 2 ^ 32" using l gb by simp
  have c: "unat c = lba div (?S * ?H)" and h: "unat h = lba div ?S mod ?H" and s: "unat s = lba mod ?S + 1"
  proof -
    have "lba div (?S * ?H) < 2 ^ 32" using lt div_le_dividend [of lba "?S * ?H"] by linarith
    moreover have "lba div ?S mod ?H < ?H" "lba mod ?S < ?S" using pos by simp_all
    then have "lba div ?S mod ?H < 2 ^ 32" "lba mod ?S + 1 < 2 ^ 32" using b by simp_all
    ultimately
    show "unat c = lba div (?S * ?H)" "unat h = lba div ?S mod ?H" "unat s = lba mod ?S + 1"
      using e by (auto simp: lba_to_chs_def Let_def unat_of_nat_u32 simp del: of_nat_add of_nat_Suc)
  qed
  have "lba div (?S * ?H) < ?C"
    using l pos by (simp add: geometry_size_def div_less_iff_less_mult algebra_simps)
  then have v: "chs_valid d c h s"
    using pos mod_less_divisor [of ?S lba] by (auto simp: chs_valid_nat c h s Suc_le_eq)
  have "(lba div (?S * ?H) * ?H + lba div ?S mod ?H) * ?S + (lba mod ?S + 1) - 1 = lba"
  proof -
    have "lba div (?S * ?H) = lba div ?S div ?H" by (rule div_mult2_eq)
    then have "lba div (?S * ?H) * ?H + lba div ?S mod ?H = lba div ?S" by simp
    then show ?thesis by simp
  qed
  with v show ?thesis by (simp add: chs_to_lba_nat [OF ok v] c h s)
qed

text \<open>
  C4. With a geometry in the ranges that the INT 13 registers can express, the linear block
  addresses of the valid cylinder, head and sector triples are exactly the numbers below the
  product of the three extents, each reached once: the 32-bit computation does not wrap.
\<close>

theorem chs_to_lba_bij:
  assumes ok: "geometry_ok d"
  shows "bij_betw (\<lambda>(c, h, s). unat (chs_to_lba d c h s)) {(c, h, s). chs_valid d c h s}
           {..<geometry_size d}"
proof (rule bij_betw_byWitness [where f' = "lba_to_chs d"])
  let ?H = "unat (heads d)" and ?S = "unat (sectors_per_track d)"
  have "lba_to_chs d (unat (chs_to_lba d c h s)) = (c, h, s)" if v: "chs_valid d c h s" for c h s
  proof -
    have n: "unat h < ?H" "1 \<le> unat s" "unat s \<le> ?S" "unat s - 1 < ?S"
      using v by (auto simp: chs_valid_nat)
    let ?t = "unat c * ?H + unat h"
    have e: "unat (chs_to_lba d c h s) = ?t * ?S + (unat s - 1)"
      using n by (simp add: chs_to_lba_nat [OF ok v])
    have m: "(?t * ?S + (unat s - 1)) div ?S = ?t" "(?t * ?S + (unat s - 1)) mod ?S = unat s - 1"
      using div_mod_linear [OF n(4), of ?t] by blast+
    have "of_nat (?t div ?H) = c" "of_nat (?t mod ?H) = h" "of_nat (unat s - 1 + 1) = s"
      using div_mod_linear [OF n(1), of "unat c"] n(2) by simp_all
    then show ?thesis
      by (simp only: e lba_to_chs_def Let_def div_mult2_eq m)
  qed
  then show "\<forall>x\<in>{(c, h, s). chs_valid d c h s}. lba_to_chs d ((\<lambda>(c, h, s). unat (chs_to_lba d c h s)) x) = x"
    by auto
  show "\<forall>y\<in>{..<geometry_size d}. (\<lambda>(c, h, s). unat (chs_to_lba d c h s)) (lba_to_chs d y) = y"
    using lba_to_chs_valid [OF ok] by (auto split: prod.splits)
  show "(\<lambda>(c, h, s). unat (chs_to_lba d c h s)) ` {(c, h, s). chs_valid d c h s} \<subseteq> {..<geometry_size d}"
    using chs_linear_less by (auto simp: chs_to_lba_nat [OF ok] chs_valid_nat geometry_size_def)
  show "lba_to_chs d ` {..<geometry_size d} \<subseteq> {(c, h, s). chs_valid d c h s}"
    using lba_to_chs_valid [OF ok] by (auto split: prod.splits)
qed

theorem chs_to_lba_bij_witness:
  "geometry_ok sample_geometry \<and> geometry_size sample_geometry = 16450560 \<and>
   bij_betw (\<lambda>(c, h, s). unat (chs_to_lba sample_geometry c h s))
     {(c, h, s). chs_valid sample_geometry c h s} {..<geometry_size sample_geometry}"
proof -
  have "geometry_ok sample_geometry" "geometry_size sample_geometry = 16450560"
    by (simp_all add: geometry_ok_def geometry_size_def sample_geometry_def)
  then show ?thesis using chs_to_lba_bij [of sample_geometry] by simp
qed

lemma apply_geometry_fresh:
  assumes "heads d = 0" "sectors_per_track d = 0" "cylinders d = 0"
    and h: "1 \<le> hds" "hds \<le> 256" and s: "1 \<le> secs" "secs \<le> 63"
  shows "\<exists>d'. apply_geometry blks (hds, secs) d = Some d' \<and> heads d' = hds \<and>
    sectors_per_track d' = secs \<and> geometry_ok d' \<and> geometry_size d' \<le> unat blks \<and>
    unat (cylinders d') = min 1024 (unat blks div (unat hds * unat secs))"
proof -
  have n: "1 \<le> unat hds" "unat hds \<le> 256" "1 \<le> unat secs" "unat secs \<le> 63"
    using h s by (simp_all add: word_le_nat_alt)
  have "unat hds * unat secs \<le> 256 * 63" using n by (intro mult_le_mono) auto
  then have u: "unat (hds * secs) = unat hds * unat secs" by (intro unat_mult_no_wrap) simp
  have nz: "hds * secs \<noteq> 0"
    using u n by (metis mult_is_0 not_one_le_zero unat_0)
  let ?c = "blks div (hds * secs)"
  let ?c' = "if 1024 < ?c then 1024 else ?c"
  have hs: "hds \<noteq> 0" "secs \<noteq> 0" using h s by auto
  have c: "unat ?c' = min 1024 (unat blks div (unat hds * unat secs))"
    by (simp add: unat_div_distrib u word_less_nat_alt)
  have e: "apply_geometry blks (hds, secs) d =
      Some (d\<lparr>heads := hds, sectors_per_track := secs, cylinders := ?c'\<rparr>)"
    using assms(1-3) nz by (simp add: apply_geometry_def Let_def)
  have "unat ?c' * unat hds * unat secs \<le> unat blks div (unat hds * unat secs) * (unat hds * unat secs)"
    unfolding c mult.assoc by (rule mult_le_mono1) simp
  also have "\<dots> \<le> unat blks" by (rule div_times_less_eq_dividend)
  finally show ?thesis
    using e c h s by (auto simp: geometry_ok_def geometry_size_def word_le_nat_alt)
qed

lemma limit32_le: "unat (limit32 cap) \<le> unat cap"
proof (cases "cap \<le> 0xffffffff")
  case True
  then have "unat cap < 2 ^ 32" by (simp add: word_le_nat_alt)
  then have "unat (ucast cap :: u32) = unat cap"
    by (simp add: unsigned_ucast_eq take_bit_nat_eq_self)
  with True show ?thesis by (simp add: limit32_def)
next
  case False
  then show ?thesis by (simp add: limit32_def word_le_nat_alt)
qed

lemma PART_HEAD_less: "PART_HEAD c < 256"
  using unsigned_less [of "chs_head c", where 'a = nat]
  by (simp add: PART_HEAD_def word_less_nat_alt unsigned_ucast_eq take_bit_nat_eq_self)

lemma guess_start_exact:
  assumes "start = hea * secs + sec - 1" "hea \<noteq> 0" "hea < 256" "secs \<le> 63"
  shows "(start + 1 - sec) div hea = (secs :: u32)"
proof -
  have n: "0 < unat hea" "unat hea < 256" "unat secs \<le> 63"
    using assms(2-4) by (simp_all add: word_less_nat_alt word_le_nat_alt unat_gt_0)
  have "unat hea * unat secs \<le> 256 * 63" using n by (intro mult_le_mono) auto
  then have u: "unat (hea * secs) = unat hea * unat secs" by (intro unat_mult_no_wrap) simp
  have "unat ((hea * secs) div hea) = unat secs" using n by (simp add: unat_div_distrib u)
  then have "hea * secs div hea = secs" by (simp only: word_unat_eq_iff)
  with assms(1) show ?thesis by simp
qed

lemma guess_partition_fits:
  assumes f: "partition_fits hds secs p" and b: "hds \<le> 256" "secs \<le> 63"
    and g: "guess_partition p (h, s) = (h', s')" and i: "h \<le> hds" "s \<le> secs"
  shows "h' \<le> hds \<and> s' \<le> secs \<and> (h = hds \<longrightarrow> h' = hds) \<and> (s = secs \<longrightarrow> s' = secs) \<and>
    (partition_full hds secs p \<longrightarrow> h' = hds \<and> s' = secs)"
proof (cases "part_type p = 0")
  case True
  with g i show ?thesis by (auto simp: guess_partition_def partition_full_def)
next
  case False
  let ?eh = "PART_HEAD (part_chs_end p)" and ?es = "PART_SECTOR (part_chs_end p)"
  let ?s1 = "if PART_CYLINDER (part_chs_start p) = 0 \<and> PART_HEAD (part_chs_start p) \<noteq> 0
     then (part_start p + 1 - PART_SECTOR (part_chs_start p)) div PART_HEAD (part_chs_start p) else s"
  have fe: "?eh < hds" "?es \<le> secs" using f False by (auto simp: partition_fits_def)
  have s1: "?s1 = secs \<or> ?s1 = s"
    using f False guess_start_exact [OF _ _ PART_HEAD_less b(2)] by (auto simp: partition_fits_def)
  have "?eh + 1 \<le> hds" using fe(1) by (metis inc_le)
  moreover have "h' = (if h < ?eh + 1 then ?eh + 1 else h)" "s' = (if ?s1 < ?es then ?es else ?s1)"
    using g False by (simp_all add: guess_partition_def Let_def)
  ultimately show ?thesis
    using s1 i fe by (auto simp: partition_full_def)
qed

lemma guess_fold_fits:
  assumes "\<forall>p\<in>set ps. partition_fits hds secs p" "hds \<le> 256" "secs \<le> 63"
    and "fold guess_partition ps (h, s) = (h', s')" "h \<le> hds" "s \<le> secs"
  shows "h' \<le> hds \<and> s' \<le> secs \<and> (h = hds \<longrightarrow> h' = hds) \<and> (s = secs \<longrightarrow> s' = secs) \<and>
    ((\<exists>p\<in>set ps. partition_full hds secs p) \<longrightarrow> h' = hds \<and> s' = secs)"
  using assms
proof (induction ps arbitrary: h s)
  case (Cons p ps)
  obtain h1 s1 where g: "guess_partition p (h, s) = (h1, s1)" by fastforce
  have "partition_fits hds secs p" using Cons.prems(1) by simp
  note st = guess_partition_fits [OF this Cons.prems(2,3) g Cons.prems(5,6)]
  have "fold guess_partition ps (h1, s1) = (h', s')" using Cons.prems(4) g by simp
  from Cons.IH [OF _ Cons.prems(2,3) this] st Cons.prems(1) show ?case by auto
qed simp

lemma guess_table_correct:
  assumes "list_all (partition_fits hds secs) ps" "list_ex (partition_full hds secs) ps"
    and "1 \<le> hds" "hds \<le> 256" "1 \<le> secs" "secs \<le> 63"
  shows "guess_table ps = (hds, secs)"
proof -
  obtain h s where f: "fold guess_partition ps (0, 0) = (h, s)" by fastforce
  have "h = hds \<and> s = secs"
    using guess_fold_fits [of ps hds secs 0 0 h s] assms f
    by (auto simp: list_all_iff list_ex_iff)
  then show ?thesis using assms(3,5) f by (auto simp: guess_table_def)
qed

text \<open>
  C15. A partition table whose entries all fit a geometry, one of them ending on its last head
  and sector, makes the guess find that geometry. Applied to a drive with no geometry set, it
  gives the largest number of cylinders, up to 1024, that fits the capacity, and every address
  valid in it is a block of the drive.
\<close>

theorem hdd_geometry_correct:
  assumes p: "list_all (partition_fits hds secs) ps" "list_ex (partition_full hds secs) ps"
    and h: "1 \<le> hds" "hds \<le> 256" and s: "1 \<le> secs" "secs \<le> 63"
    and z: "heads d = 0" "sectors_per_track d = 0" "cylinders d = 0"
  shows "\<exists>d'. apply_geometry (limit32 cap) (guess_table ps) d = Some d' \<and>
     heads d' = hds \<and> sectors_per_track d' = secs \<and>
     unat (cylinders d') = min 1024 (unat (limit32 cap) div (unat hds * unat secs)) \<and>
     (\<forall>c hea sec. chs_valid d' c hea sec \<longrightarrow> unat (chs_to_lba d' c hea sec) < unat cap)"
proof -
  obtain d' where d: "apply_geometry (limit32 cap) (hds, secs) d = Some d'" "heads d' = hds"
    "sectors_per_track d' = secs" "geometry_ok d'" "geometry_size d' \<le> unat (limit32 cap)"
    "unat (cylinders d') = min 1024 (unat (limit32 cap) div (unat hds * unat secs))"
    using apply_geometry_fresh [OF z h s] by blast
  have "unat (chs_to_lba d' c hea sec) < unat cap" if "chs_valid d' c hea sec" for c hea sec
    using chs_to_lba_less [OF d(4) that] d(5) limit32_le [of cap] by linarith
  with d show ?thesis using guess_table_correct [OF p h s] by auto
qed

theorem hdd_geometry_correct_witness:
  "list_all (partition_fits 255 63) [sample_partition] \<and> list_ex (partition_full 255 63) [sample_partition] \<and>
   (\<exists>d'. apply_geometry (limit32 20000000) (guess_table [sample_partition]) int13_zero = Some d' \<and>
     heads d' = 255 \<and> sectors_per_track d' = 63 \<and>
     (\<forall>c hea sec. chs_valid d' c hea sec \<longrightarrow> unat (chs_to_lba d' c hea sec) < 20000000))"
proof -
  have "list_all (partition_fits 255 63) [sample_partition]" by code_simp
  moreover have "list_ex (partition_full 255 63) [sample_partition]" by code_simp
  ultimately show ?thesis
    using hdd_geometry_correct [of 255 63 "[sample_partition]" int13_zero 20000000]
    by (fastforce simp: int13_zero_def)
qed


text \<open>
  The standard formats, in blocks. The table lists 40 cylinders, 1 head and 9 sectors twice
  and lacks the 360 kB format with 2 heads (720 blocks), which gets the default geometry of
  1440 kB disks.
\<close>

theorem guess_fdd_formats:
  "map guess_fdd [320, 360, 640, 720, 1440, 2400, 2880, 5760] =
     [(1, 8), (1, 9), (2, 8), (2, 18), (2, 9), (2, 15), (2, 18), (2, 36)]"
  by code_simp

lemma u16_masks: "(3 :: u16) = mask 2" "(1 :: u16) = mask 1" "(0xff3e :: u16) = NOT (push_bit 6 (mask 2) OR mask 1)"
  by (simp_all add: mask_eq_exp_minus_1)

lemma u8_cases_4: "(f :: u8) \<le> 4 \<Longrightarrow> f = 0 \<or> f = 1 \<or> f = 2 \<or> f = 3 \<or> f = 4"
proof -
  assume "f \<le> 4"
  then have "unat f \<le> 4" by (simp add: word_le_nat_alt)
  then have "unat f \<in> {0, 1, 2, 3, 4}" by auto
  then have "unat f = unat (0 :: u8) \<or> unat f = unat (1 :: u8) \<or> unat f = unat (2 :: u8) \<or>
     unat f = unat (3 :: u8) \<or> unat f = unat (4 :: u8)" by auto
  then show ?thesis by (simp only: word_unat_eq_iff)
qed

lemma equipment_field:
  "drop_bit 6 (eq AND NOT (push_bit 6 (mask 2) OR mask 1) OR (mask 1 OR push_bit 6 (k AND mask 2))) AND mask 2
     = (k AND mask 2 :: u16)"
  "(eq AND NOT (push_bit 6 (mask 2) OR mask 1) OR (mask 1 OR push_bit 6 (k AND mask 2))) AND mask 1 = (mask 1 :: u16)"
  "(eq AND NOT (push_bit 6 (mask 2) OR mask 1)) AND mask 1 = (0 :: u16)"
  by (rule bit_eqI; auto simp: bit_simps)+

lemmas equipment_field_num = equipment_field [folded u16_masks(1), folded u16_masks(2)]

lemma fdds_of_equipment:
  assumes "f \<le> 4"
  shows "fdds_of (equipment_with f eq) = f"
proof (cases "f = 0")
  case True
  then show ?thesis by (simp only: fdds_of_def equipment_with_def Let_def equipment_field_num simp_thms if_False)
next
  case False
  then have "fdds_of (equipment_with f eq) = ucast ((ucast (f - 1) :: u16) AND 3) + 1"
    by (simp only: fdds_of_def equipment_with_def Let_def equipment_field_num simp_thms if_True one_neq_zero)
  with u8_cases_4 [OF assms] False show ?thesis by auto
qed

lemma equipment_other_bits:
  "equipment_with f eq AND NOT (push_bit 6 3 OR 1) = eq AND NOT (push_bit 6 3 OR 1)"
  unfolding equipment_with_def Let_def u16_masks(1) unfolding u16_masks(2)
  by (rule bit_eqI) (auto simp: bit_simps)

text \<open>Counting.\<close>

lemma drives_required_bounds:
  assumes "unat drv < 256" "unat nat_drv < 256"
  shows "unat (drives_required drv nat_drv) =
    (if unat drv < unat nat_drv then unat nat_drv mod 128 else unat drv mod 128) + 1"
proof -
  have u: "unat (ucast x :: u8) = unat x" if "unat (x :: u32) < 256" for x
    using that by (simp add: unsigned_ucast_eq take_bit_nat_eq_self)
  have "unat (ucast y :: u32) = unat y" for y :: u8
    using unsigned_less [of y, where 'a = nat] by (simp add: unsigned_ucast_eq take_bit_nat_eq_self)
  with u have v: "unat (ucast (ucast x :: u8) :: u32) = unat x" if "unat (x :: u32) < 256" for x
    using that by metis
  have m: "unat ((y AND 0x7f) + 1 :: u8) = unat y mod 128 + 1" for y
  proof -
    have "y AND 0x7f = take_bit 7 y" by (simp add: take_bit_eq_mask mask_eq_exp_minus_1)
    moreover have "unat (take_bit 7 y) = unat y mod 2 ^ 7"
      unfolding unsigned_take_bit_eq by (simp only: take_bit_eq_mod)
    ultimately have "unat (y AND 0x7f) = unat y mod 2 ^ 7" by (simp only:)
    then show ?thesis by (subst unat_word_ariths) simp
  qed
  show ?thesis
    using assms by (simp add: drives_required_def Let_def m u v word_less_nat_alt)
qed

lemma is_fdd_drive_mod:
  assumes "unat drv < 256"
  shows "is_fdd_drive drv \<longleftrightarrow> unat drv < 128"
proof -
  have "drv AND 0x80 = 0 \<longleftrightarrow> \<not> bit drv 7"
    using and_exp_eq_0_iff_not_bit [of drv 7] by simp
  also have "bit drv 7 \<longleftrightarrow> bit (unat drv) 7" by (simp add: bit_unsigned_iff)
  also have "bit (unat drv) 7 \<longleftrightarrow> odd (unat drv div 2 ^ 7)" by (rule bit_iff_odd)
  also have "odd (unat drv div 2 ^ 7) \<longleftrightarrow> \<not> unat drv < 128"
  proof (cases "unat drv < 128")
    case False
    then have "unat drv div 128 = 1" using assms by (intro div_nat_eqI) auto
    with False show ?thesis by simp
  qed simp
  finally show ?thesis by (simp add: is_fdd_drive_def)
qed

lemma cover_drive_counts:
  assumes ok: "drive_class_ok (drv, nat_drv)"
  shows "covered drv (cover_drive (drv, nat_drv) (f, h))"
    "covered nat_drv (cover_drive (drv, nat_drv) (f, h))"
proof -
  have r: "unat drv mod 128 < unat (drives_required drv nat_drv)"
    "unat nat_drv mod 128 < unat (drives_required drv nat_drv)"
    using ok drives_required_bounds [of drv nat_drv]
    by (auto simp: drive_class_ok_def is_fdd_drive_mod mod_if split: if_splits)
  have l: "unat (drives_required drv nat_drv) \<le> unat (if x < drives_required drv nat_drv then drives_required drv nat_drv else x)" for x
    by (simp add: word_less_nat_alt)
  show "covered drv (cover_drive (drv, nat_drv) (f, h))" "covered nat_drv (cover_drive (drv, nat_drv) (f, h))"
    using r l [of f] l [of h] ok
    by (auto simp: covered_def cover_drive_def Let_def drive_class_ok_def split: if_splits)
qed

lemma cover_drive_mono:
  "cover_drive dn (f, h) = (f', h') \<Longrightarrow> f \<le> f' \<and> h \<le> h'"
  by (auto simp: cover_drive_def Let_def split: if_splits prod.splits)

lemma covered_mono:
  "covered drv (f, h) \<Longrightarrow> f \<le> f' \<Longrightarrow> h \<le> h' \<Longrightarrow> covered drv (f', h')"
  by (auto simp: covered_def word_le_nat_alt split: if_splits)

lemma cover_fold:
  assumes "list_all drive_class_ok dns" "fold cover_drive dns (f, h) = (f', h')"
  shows "f \<le> f' \<and> h \<le> h' \<and>
    list_all (\<lambda>(drv, nat_drv). covered drv (f', h') \<and> covered nat_drv (f', h')) dns"
  using assms
proof (induction dns arbitrary: f h)
  case (Cons dn dns)
  obtain f1 h1 where c: "cover_drive dn (f, h) = (f1, h1)" by fastforce
  have "fold cover_drive dns (f1, h1) = (f', h')" using Cons.prems(2) c by simp
  from Cons.IH [OF _ this] Cons.prems(1)
  have ih: "f1 \<le> f'" "h1 \<le> h'"
    "list_all (\<lambda>(drv, nat_drv). covered drv (f', h') \<and> covered nat_drv (f', h')) dns" by auto
  moreover have "f \<le> f1" "h \<le> h1" using cover_drive_mono [OF c] by auto
  moreover obtain drv nat_drv where dn: "dn = (drv, nat_drv)" by fastforce
  then have "covered drv (f1, h1)" "covered nat_drv (f1, h1)"
    using cover_drive_counts [of drv nat_drv f h] Cons.prems(1) c by simp_all
  ultimately show ?case by (auto simp: dn intro: covered_mono)
qed simp

lemma real_address: "real_to_user w 0x40 a = - virt_offset w + (0x400 + ucast a)"
  by (simp add: real_to_user_def phys_to_user_def)

lemma sync_num_drives_memory:
  "rd16 (memory (int13_sync_num_drives w)) (BDA_EQUIPMENT_WORD w) = equipment_word (int13_sync_num_drives w)"
  "rd8 (memory (int13_sync_num_drives w)) (BDA_NUM_DRIVES w) = num_drives (int13_sync_num_drives w)"
proof -
  have dj: "ranges_disjoint (BDA_EQUIPMENT_WORD w) 2 (BDA_NUM_DRIVES w) 1"
    unfolding BDA_EQUIPMENT_WORD_def BDA_NUM_DRIVES_def real_address ranges_disjoint_shift
    by (simp add: ranges_disjoint_num)
  have r: "rd16 (mem_write m a (le_bytes 2 (unat v))) a = v" for m a and v :: u16
    using unsigned_less [of v, where 'a = nat]
    by (simp add: rd16_def mem_read_write_same get16_def le_val_bytes)
  have r8: "rd8 (mem_write m a [v]) a = v" for m a and v :: u8 by (simp add: rd8_def mem_write_def)
  obtain f h where c: "fold (\<lambda>s. cover_drive (drive (sandevs w s), natural_drive (priv (sandevs w s))))
     (san_devices w) (fdds_of (rd16 (memory w) (BDA_EQUIPMENT_WORD w)), rd8 (memory w) (BDA_NUM_DRIVES w)) = (f, h)"
    by fastforce
  have a: "BDA_EQUIPMENT_WORD (w\<lparr>equipment_word := x, num_fdds := y, num_drives := z\<rparr>) = BDA_EQUIPMENT_WORD w"
    "BDA_NUM_DRIVES (w\<lparr>equipment_word := x, num_fdds := y, num_drives := z, memory := g\<rparr>) = BDA_NUM_DRIVES w" for x y z g
    by (simp_all add: BDA_EQUIPMENT_WORD_def BDA_NUM_DRIVES_def real_to_user_def phys_to_user_def)
  show "rd16 (memory (int13_sync_num_drives w)) (BDA_EQUIPMENT_WORD w) = equipment_word (int13_sync_num_drives w)"
    using dj by (simp add: int13_sync_num_drives_def Let_def c a rd_write_other r mem_upd_def)
  show "rd8 (memory (int13_sync_num_drives w)) (BDA_NUM_DRIVES w) = num_drives (int13_sync_num_drives w)"
    by (simp add: int13_sync_num_drives_def Let_def c a mem_upd_def r8)
qed

lemma sync_num_drives_counts:
  "int13_sync_num_drives w = w' \<Longrightarrow>
   fold cover_drive (drive_numbers w) (fdds_of (rd16 (memory w) (BDA_EQUIPMENT_WORD w)), rd8 (memory w) (BDA_NUM_DRIVES w))
     = (num_fdds w', num_drives w') \<and>
   equipment_word w' = equipment_with (num_fdds w') (rd16 (memory w) (BDA_EQUIPMENT_WORD w)) \<and>
   drive_numbers w' = drive_numbers w \<and> virt_offset w' = virt_offset w"
  by (auto simp: int13_sync_num_drives_def drive_numbers_def fold_map comp_def Let_def mem_upd_def split: prod.splits)

lemma sync_check_idle:
  "int13_check_num_drives (int13_sync_num_drives w) = int13_sync_num_drives w"
proof -
  let ?w = "int13_sync_num_drives w"
  have "virt_offset ?w = virt_offset w" using sync_num_drives_counts [OF refl, of w] by simp
  then have "BDA_EQUIPMENT_WORD ?w = BDA_EQUIPMENT_WORD w" "BDA_NUM_DRIVES ?w = BDA_NUM_DRIVES w"
    by (simp_all add: BDA_EQUIPMENT_WORD_def BDA_NUM_DRIVES_def real_to_user_def phys_to_user_def)
  with sync_num_drives_memory [of w] show ?thesis by (simp add: int13_check_num_drives_def)
qed

text \<open>
  C16. After the drive counts are synchronised, the counts are at least what the BIOS data area
  held before, every SAN device's number and natural number is below the count of its class,
  the BIOS data area holds the new counts with the other equipment bits unchanged, the number
  of floppy drives reads back as stored when there are at most four, and a check of the counts
  changes nothing more.
\<close>

theorem sync_num_drives_correct:
  assumes "list_all drive_class_ok (drive_numbers w)" and "w' = int13_sync_num_drives w"
  shows "list_all (\<lambda>(drv, nat_drv). covered drv (num_fdds w', num_drives w') \<and>
           covered nat_drv (num_fdds w', num_drives w')) (drive_numbers w') \<and>
     fdds_of (rd16 (memory w) (BDA_EQUIPMENT_WORD w)) \<le> num_fdds w' \<and>
     rd8 (memory w) (BDA_NUM_DRIVES w) \<le> num_drives w' \<and>
     rd16 (memory w') (BDA_EQUIPMENT_WORD w') = equipment_word w' \<and>
     rd8 (memory w') (BDA_NUM_DRIVES w') = num_drives w' \<and>
     equipment_word w' AND NOT (push_bit 6 3 OR 1) =
       rd16 (memory w) (BDA_EQUIPMENT_WORD w) AND NOT (push_bit 6 3 OR 1) \<and>
     (num_fdds w' \<le> 4 \<longrightarrow> fdds_of (equipment_word w') = num_fdds w') \<and>
     int13_check_num_drives w' = w'"
proof -
  have s: "fold cover_drive (drive_numbers w)
       (fdds_of (rd16 (memory w) (BDA_EQUIPMENT_WORD w)), rd8 (memory w) (BDA_NUM_DRIVES w))
       = (num_fdds w', num_drives w')"
    "equipment_word w' = equipment_with (num_fdds w') (rd16 (memory w) (BDA_EQUIPMENT_WORD w))"
    "drive_numbers w' = drive_numbers w" and v: "virt_offset w' = virt_offset w"
    using sync_num_drives_counts [of w w'] assms(2) by auto
  have a: "BDA_EQUIPMENT_WORD w' = BDA_EQUIPMENT_WORD w" "BDA_NUM_DRIVES w' = BDA_NUM_DRIVES w"
    using v by (simp_all add: BDA_EQUIPMENT_WORD_def BDA_NUM_DRIVES_def real_to_user_def phys_to_user_def)
  have m: "rd16 (memory w') (BDA_EQUIPMENT_WORD w) = equipment_word w'"
    "rd8 (memory w') (BDA_NUM_DRIVES w) = num_drives w'"
    using sync_num_drives_memory [of w] assms(2) by simp_all
  show ?thesis
    using cover_fold [OF assms(1) s(1)] sync_check_idle [of w] assms(2) a m
    unfolding s(2,3) equipment_other_bits by (simp add: fdds_of_equipment)
qed

theorem sync_num_drives_correct_witness:
  "list_all drive_class_ok (drive_numbers ex_world) \<and>
   covered 0x80 (num_fdds (int13_sync_num_drives ex_world), num_drives (int13_sync_num_drives ex_world))"
proof -
  have d: "drive_numbers ex_world = [(0x80, 0x80)]"
    by (simp add: drive_numbers_def ex_world_def ex_sandev_def)
  have "list_all drive_class_ok (drive_numbers ex_world)" unfolding d by (simp add: drive_class_ok_def)
  with sync_num_drives_correct [OF this refl] sync_num_drives_counts [OF refl, of ex_world] d
  show ?thesis by simp
qed

end
