(* ===== verification/Int13.thy ===== *)
theory Int13
  imports Int13_Geometry
begin

text \<open>
  The INT 13 emulation (\<open>src/src/arch/x86/interface/pcbios/int13.c\<close>): one definition per
  INT 13 function, the handler that dispatches them, the real-mode wrapper around it,
  hooking and unhooking of drives and of the interrupt vector
  (\<open>src/src/arch/x86/interface/pcbios/biosint.c\<close>), booting, and the boot firmware tables. A
  handler takes the SAN device and the registers and returns the status, negative for an
  error, with the new registers and state.
\<close>

section \<open>Constants and packets\<close>

definition INT13_STATUS_INVALID :: int where "INT13_STATUS_INVALID = 0x01"
definition INT13_STATUS_READ_ERROR :: int where "INT13_STATUS_READ_ERROR = 0x04"
definition INT13_STATUS_RESET_FAILED :: int where "INT13_STATUS_RESET_FAILED = 0x05"
definition INT13_DISK_TYPE_FDD :: int where "INT13_DISK_TYPE_FDD = 0x01"
definition INT13_DISK_TYPE_HDD :: int where "INT13_DISK_TYPE_HDD = 0x03"
definition INT13_EXTENSION_VER_3_0 :: int where "INT13_EXTENSION_VER_3_0 = 0x30"
definition INT13_FDD_TYPE_1M44 :: u8 where "INT13_FDD_TYPE_1M44 = 0x04"
definition INT13_MAX_CHS_SECTORS :: u64 where "INT13_MAX_CHS_SECTORS = 15482880"
definition INT13_MBR_MAGIC :: u16 where "INT13_MBR_MAGIC = 0xaa55"

definition CF :: u32 where "CF = 1"
definition OF_flag :: u32 where "OF_flag = push_bit 11 1"

record int13_disk_address =
  addr_bufsize :: u8
  addr_count :: u8
  addr_buffer :: segoff
  addr_lba :: u64
  addr_buffer_phys :: u64
  addr_long_count :: u32

definition sizeof_disk_address :: nat where "sizeof_disk_address = 32"

definition decode_disk_address :: "u8 list \<Rightarrow> int13_disk_address" where
  "decode_disk_address bs =
     \<lparr>addr_bufsize = get8 bs 0, addr_count = get8 bs 2,
      addr_buffer = \<lparr>seg_offset = get16 bs 4, seg_segment = get16 bs 6\<rparr>, addr_lba = get64 bs 8,
      addr_buffer_phys = get64 bs 16, addr_long_count = get32 bs 24\<rparr>"

type_synonym 'h sandev_op = "u64 \<Rightarrow> u32 \<Rightarrow> u32 \<Rightarrow> 'h world \<Rightarrow> (rc \<times> 'h world) option"
type_synonym 'h handler = "nat \<Rightarrow> i386_all_regs \<Rightarrow> 'h world \<Rightarrow> (int \<times> i386_all_regs \<times> 'h world) option"

section \<open>INT 13 functions\<close>

definition int13_reset :: "nat \<Rightarrow> 'h rom_env \<Rightarrow> 'h handler" where
  "int13_reset n env s r w = do {
     (rc, w) \<leftarrow> sandev_reset n env s w;
     Some (if rc \<noteq> OK then - INT13_STATUS_RESET_FAILED else 0, r, w)
   }"

definition int13_get_last_status :: "'h handler" where
  "int13_get_last_status s r w = Some (last_status (priv (sandevs w s)), r, w)"

definition int13_rw_sectors :: "(nat \<Rightarrow> 'h sandev_op) \<Rightarrow> 'h handler" where
  "int13_rw_sectors rw s r w =
     (let d = priv (sandevs w s);
          cylinder = chs_cylinder r;
          hea = ucast (r_dh r);
          sector = chs_sector r
      in if sandev_blksize s w \<noteq> INT13_BLKSIZE then Some (- INT13_STATUS_INVALID, r, w)
         else if \<not> chs_valid d cylinder hea sector then Some (- INT13_STATUS_INVALID, r, w)
         else do {
           (rc, w) \<leftarrow> rw s (ucast (chs_to_lba d cylinder hea sector)) (ucast (r_al r))
                      (real_to_user w (r_es r) (word16 (r_bl r) (r_bh r))) w;
           Some (if rc \<noteq> OK then - INT13_STATUS_READ_ERROR else 0, r, w)
         })"

definition int13_read_sectors :: "nat \<Rightarrow> 'h rom_env \<Rightarrow> 'h handler" where
  "int13_read_sectors n env = int13_rw_sectors (sandev_read n env)"

definition int13_write_sectors :: "nat \<Rightarrow> 'h rom_env \<Rightarrow> 'h handler" where
  "int13_write_sectors n env = int13_rw_sectors (sandev_write n env)"

definition int13_get_parameters :: "'h rom_env \<Rightarrow> 'h handler" where
  "int13_get_parameters env s r w =
     (let d = priv (sandevs w s);
          max_cylinder = cylinders d - 1;
          max_head = heads d - 1;
          max_sector = sectors_per_track d
      in if sandev_blksize s w \<noteq> INT13_BLKSIZE then Some (- INT13_STATUS_INVALID, r, w)
         else
           (let r = r\<lparr>r_ch := ucast (max_cylinder AND 0xff),
                      r_cl := ucast (push_bit 6 (drop_bit 8 max_cylinder) OR max_sector),
                      r_dh := ucast max_head,
                      r_dl := (if int13_is_fdd s w then num_fdds w else num_drives w)\<rparr>;
                r = (if int13_is_fdd s w
                     then r\<lparr>r_bl := INT13_FDD_TYPE_1M44, r_es := rm_ds (layout env),
                            r_di := int13_fdd_params_off (layout env)\<rparr>
                     else r)
            in Some (0, r, w)))"

definition int13_get_disk_type :: "'h handler" where
  "int13_get_disk_type s r w =
     (if int13_is_fdd s w then Some (INT13_DISK_TYPE_FDD, r, w)
      else
        (let blks = int13_capacity32 s w
         in Some (INT13_DISK_TYPE_HDD,
                  r\<lparr>r_cl := ucast (drop_bit 16 blks), r_ch := ucast (drop_bit 24 blks),
                    r_dl := ucast blks, r_dh := ucast (drop_bit 8 blks)\<rparr>, w)))"

text \<open>The extension bits set: linear access (1), EDD (4) and 64-bit (8).\<close>

definition int13_extension_check :: "'h handler" where
  "int13_extension_check s r w =
     (if word16 (r_bl r) (r_bh r) = 0x55aa \<and> \<not> int13_is_fdd s w
      then Some (INT13_EXTENSION_VER_3_0,
                 r\<lparr>r_bl := 0x55, r_bh := 0xaa, r_cl := 0x01 OR 0x04 OR 0x08, r_ch := 0\<rparr>, w)
      else Some (- INT13_STATUS_INVALID, r, w))"

text \<open>
  The packet is copied into a structure of 32 bytes with the length the caller gives;
  a longer packet overruns it.
\<close>

definition packet_buffer :: "'z machine_scheme \<Rightarrow> int13_disk_address \<Rightarrow> u32" where
  "packet_buffer w a =
     (if addr_count a = 0xff \<or> seg_segment (addr_buffer a) = 0xffff \<and> seg_offset (addr_buffer a) = 0xffff
      then phys_to_user w (ucast (addr_buffer_phys a))
      else real_to_user w (seg_segment (addr_buffer a)) (seg_offset (addr_buffer a)))"

definition packet_count :: "int13_disk_address \<Rightarrow> u32 option" where
  "packet_count a =
     (if addr_count a \<le> 0x7f then Some (ucast (addr_count a))
      else if addr_count a = 0xff then Some (addr_long_count a)
      else None)"

definition read_packet :: "mem \<Rightarrow> u32 \<Rightarrow> int13_disk_address" where
  "read_packet m p =
     (let bufsize = unat (rd8 m p) in
      decode_disk_address (mem_read m p bufsize @ replicate (sizeof_disk_address - bufsize) 0))"

definition int13_extended_rw :: "(nat \<Rightarrow> 'h sandev_op) \<Rightarrow> 'h handler" where
  "int13_extended_rw rw s r w =
     (if int13_is_fdd s w then Some (- INT13_STATUS_INVALID, r, w)
      else
        (let p = real_to_user w (r_ds r) (r_si r);
             bufsize = unat (rd8 (memory w) p)
         in if bufsize < 16 then Some (- INT13_STATUS_INVALID, r, w)
            else if sizeof_disk_address < bufsize then None
            else
              (let a = read_packet (memory w) p in
               case packet_count a of
                 None \<Rightarrow> Some (- INT13_STATUS_INVALID, r, w)
               | Some count \<Rightarrow> do {
                   (rc, w) \<leftarrow> rw s (addr_lba a) count (packet_buffer w a) w;
                   if rc \<noteq> OK
                   then Some (- INT13_STATUS_READ_ERROR, r,
                              mem_upd (\<lambda>m. mem_write m (real_to_user w (r_ds r) (r_si r) + 2) [0]) w)
                   else Some (0, r, w)
                 })))"

definition int13_extended_read :: "nat \<Rightarrow> 'h rom_env \<Rightarrow> 'h handler" where
  "int13_extended_read n env = int13_extended_rw (sandev_read n env)"

definition int13_extended_write :: "nat \<Rightarrow> 'h rom_env \<Rightarrow> 'h handler" where
  "int13_extended_write n env = int13_extended_rw (sandev_write n env)"

definition int13_extended_verify :: "'h handler" where
  "int13_extended_verify s r w = Some (- INT13_STATUS_INVALID, r, w)"

definition int13_extended_seek :: "'h handler" where
  "int13_extended_seek s r w = Some (0, r, w)"

text \<open>
  No interface has an \<open>identify_device\<close> method, so that \<open>int13_device_path_info\<close> never gets
  past the identification of the hardware device.
\<close>

definition identify_device :: "intf_id \<Rightarrow> 'h world \<Rightarrow> 'h world option" where
  "identify_device i w = do {
     (d, ds, w) \<leftarrow> intf_get_dest_op (intf_dest (intfs w i)) w;
     intf_put d w
   }"

definition int13_device_path_info :: "nat \<Rightarrow> 'h rom_env \<Rightarrow> nat \<Rightarrow> 'h world \<Rightarrow> (rc \<times> 'h world) option" where
  "int13_device_path_info n env s w = do {
     (rc, w) \<leftarrow> (if active (sandevs w s) = None then sandev_reopen n env s w else Some (OK, w));
     if rc \<noteq> OK then Some (rc, w)
     else do {
       p \<leftarrow> active (sandevs w s);
       w \<leftarrow> identify_device (San_block s p) w;
       Some (Err ENODEV, w)
     }
   }"

text \<open>The drive parameters up to the device path information, 30 bytes.\<close>

definition chs_flags :: "int13_data \<Rightarrow> u64 \<Rightarrow> u16" where
  "chs_flags d cap = (if cylinders d < 1024 \<and> cap \<le> INT13_MAX_CHS_SECTORS then 0x01 OR 0x02 else 0x01)"

definition disk_parameters :: "u16 \<Rightarrow> int13_data \<Rightarrow> u64 \<Rightarrow> u32 \<Rightarrow> u8 list" where
  "disk_parameters bufsize d cap bs =
     le_bytes 2 (unat bufsize) @ le_bytes 2 (unat (chs_flags d cap)) @
     le_bytes 4 (unat (cylinders d)) @ le_bytes 4 (unat (heads d)) @
     le_bytes 4 (unat (sectors_per_track d)) @ le_bytes 8 (unat cap) @
     le_bytes 2 (unat bs) @ replicate 4 0xff"

definition int13_get_extended_parameters :: "nat \<Rightarrow> 'h rom_env \<Rightarrow> 'h handler" where
  "int13_get_extended_parameters n env s r w =
     (let p = real_to_user w (r_ds r) (r_si r);
          bufsize = rd16 (memory w) p;
          d = priv (sandevs w s);
          cap = sandev_capacity s w;
          bs = sandev_blksize s w
      in do {
        (rc, w) \<leftarrow> int13_device_path_info n env s w;
        if bufsize < 26 then Some (- INT13_STATUS_INVALID, r, w)
        else
          (let params = disk_parameters (if bufsize < 30 then 26 else 30) d cap bs;
               len = (if bufsize < 30 then unat bufsize else 30)
           in Some (0, r, mem_upd (\<lambda>m. mem_write m p (take len params)) w))
      })"

text \<open>The specification packet: its size, the media type 0, the drive, and 16 zero bytes.\<close>

definition int13_cdrom_status_terminate :: "'h handler" where
  "int13_cdrom_status_terminate s r w =
     (if \<not> is_cdrom (sandevs w s) then Some (- INT13_STATUS_INVALID, r, w)
      else Some (0, r, mem_upd (\<lambda>m. mem_write m (real_to_user w (r_ds r) (r_si r))
             ([19, 0, ucast (drive (sandevs w s))] @ replicate 16 0)) w))"

definition int13_cdrom_read_boot_catalog :: "nat \<Rightarrow> 'h rom_env \<Rightarrow> 'h handler" where
  "int13_cdrom_read_boot_catalog n env s r w =
     (let command = mem_read (memory w) (real_to_user w (r_ds r) (r_si r)) 8;
          bc = boot_catalog (priv (sandevs w s))
      in if bc = 0 then Some (- INT13_STATUS_INVALID, r, w)
         else do {
           (rc, w) \<leftarrow> sandev_read n env s (ucast (bc + ucast (get16 command 6))) (ucast (get8 command 1))
                      (phys_to_user w (get32 command 2)) w;
           Some (if rc \<noteq> OK then - INT13_STATUS_READ_ERROR else 0, r, w)
         })"

section \<open>The handler and its wrapper\<close>

definition int13_call :: "nat \<Rightarrow> 'h rom_env \<Rightarrow> u8 \<Rightarrow> 'h handler" where
  "int13_call n env command =
     (if command = 0x00 then int13_reset n env
      else if command = 0x01 then int13_get_last_status
      else if command = 0x02 then int13_read_sectors n env
      else if command = 0x03 then int13_write_sectors n env
      else if command = 0x08 then int13_get_parameters env
      else if command = 0x15 then int13_get_disk_type
      else if command = 0x41 then int13_extension_check
      else if command = 0x42 then int13_extended_read n env
      else if command = 0x43 then int13_extended_write n env
      else if command = 0x44 then int13_extended_verify
      else if command = 0x47 then int13_extended_seek
      else if command = 0x48 then int13_get_extended_parameters n env
      else if command = 0x4b then int13_cdrom_status_terminate
      else if command = 0x4d then int13_cdrom_read_boot_catalog n env
      else (\<lambda>s r w. Some (- INT13_STATUS_INVALID, r, w)))"

definition int13_complete :: "nat \<Rightarrow> int \<Rightarrow> i386_all_regs \<Rightarrow> 'h world \<Rightarrow> i386_all_regs \<times> 'h world" where
  "int13_complete s status r w =
     (let w = upd_priv s (\<lambda>d. d\<lparr>last_status := status\<rparr>) w;
          r = (if status < 0 then r\<lparr>r_ah := of_int (- status)\<rparr>
               else r\<lparr>r_flags := r_flags r AND NOT CF, r_ah := of_int status\<rparr>)
      in (r\<lparr>r_flags := r_flags r OR OF_flag\<rparr>, w))"

fun int13_scan :: "nat \<Rightarrow> 'h rom_env \<Rightarrow> nat list \<Rightarrow> i386_all_regs \<Rightarrow> 'h world \<Rightarrow>
    (i386_all_regs \<times> 'h world) option" where
  "int13_scan n env [] r w = Some (r, w)"
| "int13_scan n env (s # ss) r w =
     (let bios_drive = ucast (r_dl r);
          d = sandevs w s
      in if bios_drive \<noteq> drive d \<and> bios_drive = natural_drive (priv d)
         then Some (r\<lparr>r_dl := ucast (drive d)\<rparr>, w)
         else if bios_drive \<noteq> drive d \<and>
                 \<not> (bios_drive AND 0x7f = 0x7f \<and> r_ah r = 0x4b \<and> is_cdrom d)
         then int13_scan n env ss r w
         else do {
           (status, r, w) \<leftarrow> int13_call n env (r_ah r) s r w;
           Some (int13_complete s status r w)
         })"

definition int13 :: "nat \<Rightarrow> 'h rom_env \<Rightarrow> i386_all_regs \<Rightarrow> 'h world \<Rightarrow>
    (i386_all_regs \<times> 'h world) option" where
  "int13 n env r w =
     (let w = int13_check_num_drives w in int13_scan n env (san_devices w) r w)"

text \<open>
  The wrapper clears the overflow flag and sets the carry flag, calls the handler, chains
  to the previous handler unless the overflow flag is set, and fixes up \<open>%dl\<close>. Only these
  two flags are followed.
\<close>

definition fix_dl :: "u8 \<Rightarrow> u8 \<Rightarrow> i386_all_regs \<Rightarrow> 'h world \<Rightarrow> i386_all_regs" where
  "fix_dl ah0 dl0 r w =
     (if ah0 = 0x15 \<and> dl0 AND 0x80 \<noteq> 0 then r
      else if ah0 \<noteq> 0x08 then r\<lparr>r_dl := dl0\<rparr>
      else if dl0 AND 0x80 \<noteq> 0 then r\<lparr>r_dl := num_drives w\<rparr>
      else r\<lparr>r_dl := num_fdds w\<rparr>)"

definition int13_wrapper :: "nat \<Rightarrow> 'h rom_env \<Rightarrow> i386_all_regs \<Rightarrow> 'h world \<Rightarrow>
    (i386_all_regs \<times> 'h world) option" where
  "int13_wrapper n env r0 w = do {
     (r, w) \<leftarrow> int13 n env (r0\<lparr>r_flags := (r_flags r0 AND NOT OF_flag) OR CF\<rparr>) w;
     (r, w) \<leftarrow> (if r_flags r AND OF_flag \<noteq> 0 then Some (r, w) else bios_int13 env r w);
     Some (fix_dl (r_ah r0) (r_dl r0) r w, w)
   }"

section \<open>Hooking\<close>

text \<open>An entry of the interrupt vector table.\<close>

definition read_vector :: "u8 \<Rightarrow> 'h world \<Rightarrow> segoff" where
  "read_vector inum w =
     (let a = real_to_user w 0 (4 * ucast inum) in
      \<lparr>seg_offset = rd16 (memory w) a, seg_segment = rd16 (memory w) (a + 2)\<rparr>)"

definition write_vector :: "u8 \<Rightarrow> segoff \<Rightarrow> 'h world \<Rightarrow> 'h world" where
  "write_vector inum v w =
     mem_upd (\<lambda>m. mem_write m (real_to_user w 0 (4 * ucast inum))
       (le_bytes 2 (unat (seg_offset v)) @ le_bytes 2 (unat (seg_segment v)))) w"

text \<open>Both take the chain vector and return its new value.\<close>

definition hook_bios_interrupt :: "'h rom_env \<Rightarrow> u8 \<Rightarrow> u16 \<Rightarrow> segoff \<Rightarrow> 'h world \<Rightarrow> segoff \<times> 'h world" where
  "hook_bios_interrupt env inum handler chain w =
     (if seg_segment chain \<noteq> 0 \<or> seg_offset chain \<noteq> 0 then (chain, w)
      else
        (let chain = read_vector inum w;
             w = write_vector inum \<lparr>seg_offset = handler, seg_segment = rm_cs (layout env)\<rparr> w
         in (chain, w\<lparr>hooked_bios_interrupts := hooked_bios_interrupts w + 1\<rparr>)))"

definition unhook_bios_interrupt :: "'h rom_env \<Rightarrow> u8 \<Rightarrow> u16 \<Rightarrow> segoff \<Rightarrow> 'h world \<Rightarrow>
    rc \<times> segoff \<times> 'h world" where
  "unhook_bios_interrupt env inum handler chain w =
     (let v = read_vector inum w in
      if seg_segment v \<noteq> rm_cs (layout env) \<or> seg_offset v \<noteq> handler then (Err EBUSY, chain, w)
      else
        (let w = write_vector inum chain w
         in (OK, \<lparr>seg_offset = 0, seg_segment = 0\<rparr>,
             w\<lparr>hooked_bios_interrupts := hooked_bios_interrupts w - 1\<rparr>)))"

definition int13_hook_vector :: "'h rom_env \<Rightarrow> 'h world \<Rightarrow> 'h world" where
  "int13_hook_vector env w =
     (let (chain, w) = hook_bios_interrupt env 0x13 (int13_wrapper_off (layout env)) (int13_vector w) w
      in w\<lparr>int13_vector := chain\<rparr>)"

definition int13_unhook_vector :: "'h rom_env \<Rightarrow> 'h world \<Rightarrow> 'h world" where
  "int13_unhook_vector env w =
     (let (rc, chain, w) = unhook_bios_interrupt env 0x13 (int13_wrapper_off (layout env)) (int13_vector w) w
      in w\<lparr>int13_vector := chain\<rparr>)"

definition ELTORITO_LBA :: u64 where "ELTORITO_LBA = 17"

text \<open>
  The fixed part of an El Torito boot record: type 0, \<open>CD001\<close>, version 1 and the system
  identifier \<open>EL TORITO SPECIFICATION\<close> padded to 32 bytes.
\<close>

definition boot_check :: "u8 list" where
  "boot_check = [0x00, 0x43, 0x44, 0x30, 0x30, 0x31, 0x01] @
     [0x45, 0x4c, 0x20, 0x54, 0x4f, 0x52, 0x49, 0x54, 0x4f, 0x20, 0x53, 0x50, 0x45, 0x43, 0x49, 0x46,
      0x49, 0x43, 0x41, 0x54, 0x49, 0x4f, 0x4e] @ replicate 9 0"

definition int13_parse_eltorito :: "nat \<Rightarrow> 'h rom_env \<Rightarrow> nat \<Rightarrow> u32 \<Rightarrow> 'h world \<Rightarrow>
    (rc \<times> 'h world) option" where
  "int13_parse_eltorito n env s scratch w = do {
     (rc, w) \<leftarrow> sandev_read n env s ELTORITO_LBA 1 scratch w;
     if rc \<noteq> OK then Some (rc, w)
     else Some (OK, if mem_read (memory w) scratch (length boot_check) = boot_check
                    then upd_priv s (\<lambda>d. d\<lparr>boot_catalog := rd32 (memory w) (scratch + 71)\<rparr>) w
                    else w)
   }"

definition sizeof_int13_data :: u32 where "sizeof_int13_data = 24"

text \<open>
  Undoing a registration. Without a scratch area the status is still that of the
  successful registration, 0.
\<close>

definition hook_fail :: "nat \<Rightarrow> 'h rom_env \<Rightarrow> nat \<Rightarrow> 'h world \<Rightarrow> 'h world option" where
  "hook_fail n env s w = do {
     w \<leftarrow> unregister_sandev n env s w;
     ref_decrement (Some (San_obj s)) w
   }"

definition hook_geometry :: "nat \<Rightarrow> 'h rom_env \<Rightarrow> nat \<Rightarrow> u32 \<Rightarrow> 'h world \<Rightarrow> (rc \<times> 'h world) option" where
  "hook_geometry n env s scratch w = do {
     (rc, w) \<leftarrow> (if is_cdrom (sandevs w s) then int13_parse_eltorito n env s scratch w else Some (OK, w));
     if rc \<noteq> OK then Some (rc, w)
     else if sandev_blksize s w = INT13_BLKSIZE then int13_guess_geometry n env s scratch w
     else Some (OK, w)
   }"

definition int13_hook :: "nat \<Rightarrow> 'h rom_env \<Rightarrow> u32 \<Rightarrow> uri option list \<Rightarrow> u32 \<Rightarrow> 'h world \<Rightarrow>
    ((errno + u32) \<times> 'h world) option" where
  "int13_hook n env drv uris flags w =
     (let need_hook = (san_devices w = []);
          w = int13_sync_num_drives w;
          natural = (if drv AND 0x80 \<noteq> 0 then ucast (num_drives w) OR 0x80 else ucast (num_fdds w));
          drv = (if drv AND 0x7f = 0x7f then natural else drv)
      in do {
        (so, w) \<leftarrow> alloc_sandev n env uris sizeof_int13_data w;
        (case so of
           None \<Rightarrow> Some (Inl ENOMEM, w)
         | Some s \<Rightarrow>
           (let w = upd_priv s (\<lambda>d. d\<lparr>natural_drive := natural\<rparr>) w in do {
              (rc, w) \<leftarrow> register_sandev n env s drv flags w;
              (case rc of
                 Err e \<Rightarrow> do { w \<leftarrow> ref_decrement (Some (San_obj s)) w; Some (Inl e, w) }
               | OK \<Rightarrow> do {
                   (scratch, w) \<leftarrow> malloc n (discarders (nvme_if env)) (sandev_blksize s w) w;
                   if scratch = 0 then do {
                     w \<leftarrow> hook_fail n env s w;
                     Some (Inr 0, w)
                   } else do {
                     (rc, w) \<leftarrow> hook_geometry n env s scratch w;
                     (case rc of
                        Err e \<Rightarrow> do {
                          w \<leftarrow> free scratch w;
                          w \<leftarrow> hook_fail n env s w;
                          Some (Inl e, w)
                        }
                      | OK \<Rightarrow> do {
                          let w = (if need_hook
                                   then (int13_hook_vector env w)\<lparr>device_keep_count := device_keep_count w + 1\<rparr>
                                   else w);
                          w \<leftarrow> free scratch (int13_sync_num_drives w);
                          Some (Inr drv, w)
                        })
                   }
                 })
            }))
      })"

definition int13_unhook :: "nat \<Rightarrow> 'h rom_env \<Rightarrow> u32 \<Rightarrow> 'h world \<Rightarrow> 'h world option" where
  "int13_unhook n env drv w =
     (case sandev_find drv w of
        None \<Rightarrow> Some w
      | Some s \<Rightarrow> do {
          w \<leftarrow> unregister_sandev n env s w;
          let w = (if san_devices w = []
                   then int13_unhook_vector env (w\<lparr>device_keep_count := device_keep_count w - 1\<rparr>)
                   else w);
          ref_decrement (Some (San_obj s)) w
        })"

section \<open>Booting\<close>

text \<open>\<open>int $0x13\<close> from real mode: the wrapper when the vector points to it.\<close>

definition int_0x13 :: "nat \<Rightarrow> 'h rom_env \<Rightarrow> i386_all_regs \<Rightarrow> 'h world \<Rightarrow>
    (i386_all_regs \<times> 'h world) option" where
  "int_0x13 n env r w =
     (if read_vector 0x13 w =
         \<lparr>seg_offset = int13_wrapper_off (layout env), seg_segment = rm_cs (layout env)\<rparr>
      then int13_wrapper n env r w else bios_int13 env r w)"

text \<open>The registers of a call from C: \<open>%ax\<close> and \<open>%dl\<close> given, the carry flag set.\<close>

definition real_regs :: "'h rom_env \<Rightarrow> u8 \<Rightarrow> u8 \<Rightarrow> u32 \<Rightarrow> i386_all_regs" where
  "real_regs env ah0 al0 drv =
     \<lparr>r_al = al0, r_ah = ah0, r_bl = 0, r_bh = 0, r_cl = 0, r_ch = 0, r_dl = ucast drv,
      r_dh = ucast (drop_bit 8 drv), r_si = 0, r_di = 0, r_ds = rm_ds (layout env),
      r_es = rm_ds (layout env), r_flags = CF\<rparr>"

text \<open>\<open>%ax\<close> when the carry flag is set, and 0 otherwise.\<close>

definition call_status :: "i386_all_regs \<Rightarrow> u16" where
  "call_status r = (if r_flags r AND CF \<noteq> 0 then word16 (r_al r) (r_ah r) else 0)"

definition int13_load_mbr :: "nat \<Rightarrow> 'h rom_env \<Rightarrow> u32 \<Rightarrow> 'h world \<Rightarrow>
    (rc \<times> segoff \<times> 'h world) option" where
  "int13_load_mbr n env drv w =
     (let address = \<lparr>seg_offset = 0x7c00, seg_segment = 0\<rparr> in do {
        (r, w) \<leftarrow> int_0x13 n env ((real_regs env 0x02 0x01 drv)\<lparr>r_es := 0, r_bl := 0, r_bh := 0x7c,
                                    r_cl := 1, r_ch := 0\<rparr>) w;
        if call_status r \<noteq> 0 then Some (Err EIO, address, w)
        else if rd16 (memory w) (real_to_user w 0 0x7c00 + 510) \<noteq> INT13_MBR_MAGIC
        then Some (Err ENOEXEC, address, w)
        else Some (OK, address, w)
      })"

definition ELTORITO_PLATFORM_X86 :: u8 where "ELTORITO_PLATFORM_X86 = 0x00"
definition ELTORITO_BOOTABLE :: u8 where "ELTORITO_BOOTABLE = 0x88"
definition ELTORITO_NO_EMULATION :: u8 where "ELTORITO_NO_EMULATION = 0"

text \<open>The checks on the boot catalog; on success the load address.\<close>

definition check_catalog :: "u8 list \<Rightarrow> errno + segoff" where
  "check_catalog catalog =
     (if get8 catalog 1 \<noteq> ELTORITO_PLATFORM_X86 then Inl ENOEXEC
      else if get8 catalog 32 \<noteq> ELTORITO_BOOTABLE then Inl ENOEXEC
      else if get8 catalog 33 \<noteq> ELTORITO_NO_EMULATION then Inl ENOTSUP
      else Inr \<lparr>seg_offset = 0,
                seg_segment = (if get16 catalog 34 \<noteq> 0 then get16 catalog 34 else 0x7c0)\<rparr>)"

definition write_eltorito_address :: "u32 \<Rightarrow> u8 list \<Rightarrow> segoff \<Rightarrow> mem \<Rightarrow> mem" where
  "write_eltorito_address a catalog address m =
     (let m = mem_write m a [16];
          m = mem_write m (a + 2) [ucast (get16 catalog 38)];
          m = mem_write m (a + 4) (le_bytes 2 (unat (seg_offset address)) @
                                   le_bytes 2 (unat (seg_segment address)))
      in wr64 (a + 8) (ucast (get32 catalog 40)) m)"

definition int13_load_eltorito :: "nat \<Rightarrow> 'h rom_env \<Rightarrow> u32 \<Rightarrow> 'h world \<Rightarrow>
    (rc \<times> segoff \<times> 'h world) option" where
  "int13_load_eltorito n env drv w =
     (let unset = \<lparr>seg_offset = 0x7c00, seg_segment = 0\<rparr>;
          cmd = real_to_user w (rm_ds (layout env)) (eltorito_cmd_off (layout env));
          eladdr = real_to_user w (rm_ds (layout env)) (eltorito_address_off (layout env))
      in do {
        (r, w) \<leftarrow> int_0x13 n env ((real_regs env 0x4d 0 drv)\<lparr>r_si := eltorito_cmd_off (layout env)\<rparr>) w;
        if call_status r \<noteq> 0 then Some (Err EIO, unset, w)
        else
          (let catalog = mem_read (memory w) (phys_to_user w (rd32 (memory w) (cmd + 2))) 64
           in case check_catalog catalog of
                Inl e \<Rightarrow> Some (Err e, unset, w)
              | Inr address \<Rightarrow> do {
                  let w = mem_upd (write_eltorito_address eladdr catalog address) w;
                  (r, w) \<leftarrow> int_0x13 n env
                    ((real_regs env 0x42 0 drv)\<lparr>r_si := eltorito_address_off (layout env)\<rparr>) w;
                  Some (if call_status r \<noteq> 0 then Err EIO else OK, address, w)
                })
      })"

definition int13_boot :: "nat \<Rightarrow> 'h rom_env \<Rightarrow> u32 \<Rightarrow> 'h world \<Rightarrow> (rc \<times> 'h world) option" where
  "int13_boot n env drv w = do {
     (rc, address, w) \<leftarrow> int13_load_mbr n env drv w;
     (rc, address, w) \<leftarrow> (if rc \<noteq> OK then int13_load_eltorito n env drv w else Some (rc, address, w));
     if rc \<noteq> OK then Some (rc, w)
     else do {
       (rc, w) \<leftarrow> bootsector env (seg_segment address) (seg_offset address) drv w;
       Some (if rc \<noteq> OK then rc else Err ECANCELED, w)
     }
   }"

section \<open>Boot firmware tables\<close>

definition XBFTAB_SIZE :: u32 where "XBFTAB_SIZE = 768"
definition XBFTAB_ALIGN :: u32 where "XBFTAB_ALIGN = 16"

definition acpi_checksum :: "mem \<Rightarrow> u32 \<Rightarrow> u8" where
  "acpi_checksum m table = sum_list (mem_read m table (unat (rd32 m (table + 4))))"

definition acpi_fix_checksum :: "u32 \<Rightarrow> mem \<Rightarrow> mem" where
  "acpi_fix_checksum acpi m = mem_write m (acpi + 9) [rd8 m (acpi + 9) - acpi_checksum m acpi]"

text \<open>
  \<open>table\<close> holds the bytes at \<open>acpi\<close>, at least the 36 of the header; \<open>memcpy\<close> copies the
  length that the header gives.
\<close>

definition int13_install :: "'h rom_env \<Rightarrow> u8 list \<Rightarrow> 'h world \<Rightarrow> rc \<times> 'h world" where
  "int13_install env table w =
     (let len = get32 table 4 in
      if XBFTAB_SIZE - xbftab_used w < len then (Err ENOSPC, w)
      else
        (let installed = xbftab_addr (layout env) + xbftab_used w;
             w = mem_upd (\<lambda>m. mem_write m installed (take (unat len) table)) w;
             w = mem_upd (\<lambda>m. mem_write m (installed + 10) [0x46, 0x45, 0x4e, 0x53, 0x59, 0x53]) w;
             w = mem_upd (\<lambda>m. mem_write m (installed + 16) [0x69, 0x50, 0x58, 0x45, 0, 0, 0, 0]) w;
             w = mem_upd (acpi_fix_checksum installed) w
         in (OK, w\<lparr>xbftab_used := (xbftab_used w + len + XBFTAB_ALIGN - 1) AND NOT (XBFTAB_ALIGN - 1)\<rparr>)))"

fun acpi_install :: "(u8 list \<Rightarrow> 'h world \<Rightarrow> rc \<times> 'h world) \<Rightarrow> u8 list list \<Rightarrow> 'h world \<Rightarrow> rc \<times> 'h world" where
  "acpi_install install [] w = (OK, w)"
| "acpi_install install (t # ts) w =
     (let (rc, w) = install t w in if rc \<noteq> OK then (rc, w) else acpi_install install ts w)"

definition int13_describe :: "'h rom_env \<Rightarrow> 'h world \<Rightarrow> rc \<times> 'h world" where
  "int13_describe env w =
     (let w = mem_upd (memset (xbftab_addr (layout env)) 0 768) w;
          w = w\<lparr>xbftab_used := 0\<rparr>
      in acpi_install (int13_install env) (acpi_tables env w) w)"

section \<open>The program\<close>

text \<open>
  \<open>ipxe()\<close> of \<open>src/src/usr/autoboot.c\<close>: hook the NVMe device as drive 0x80, describe, boot.
  No request parameter list is ever created. Console output is left out.
\<close>

definition ipxe_main :: "nat \<Rightarrow> 'h rom_env \<Rightarrow> 'h world \<Rightarrow> (rc \<times> 'h world) option" where
  "ipxe_main n env w = do {
     (test, _, w) \<leftarrow> parse_uri n (discarders (nvme_if env)) [] [] w;
     (nvme_uri, _, w) \<leftarrow> parse_uri n (discarders (nvme_if env)) ''nvme:0'' [] w;
     (drv, w) \<leftarrow> int13_hook n env 0x80 [nvme_uri] 0 w;
     (case drv of
        Inl e \<Rightarrow> Some (Err e, w)
      | Inr drv \<Rightarrow>
          (let (rc, w) = int13_describe env w in
           if rc \<noteq> OK then Some (rc, w) else int13_boot n env drv w))
   }"


text \<open>Which device of a list answers a call, or has its natural drive number exchanged.\<close>

definition serves :: "i386_all_regs \<Rightarrow> san_device \<Rightarrow> bool" where
  "serves r d \<longleftrightarrow> ucast (r_dl r) = drive d \<or>
     ucast (r_dl r) \<noteq> natural_drive (priv d) \<and> ucast (r_dl r) AND 0x7f = (0x7f :: u32) \<and> r_ah r = 0x4b \<and> is_cdrom d"

definition remaps :: "i386_all_regs \<Rightarrow> san_device \<Rightarrow> bool" where
  "remaps r d \<longleftrightarrow> ucast (r_dl r) \<noteq> drive d \<and> ucast (r_dl r) = natural_drive (priv d)"

text \<open>The registers with which the wrapper calls the handler.\<close>

definition wrapper_regs :: "i386_all_regs \<Rightarrow> i386_all_regs" where
  "wrapper_regs r = r\<lparr>r_flags := (r_flags r AND NOT OF_flag) OR CF\<rparr>"

text \<open>The flags a caller sees after the handler has answered with a status.\<close>

definition served_flags :: "int \<Rightarrow> i386_all_regs \<Rightarrow> u32" where
  "served_flags status r =
     (let f = r_flags (wrapper_regs r) in (if status < 0 then f else f AND NOT CF) OR OF_flag)"








section \<open>Lemmas\<close>

lemma chs_encode_bits:
  fixes m s :: u32
  shows "push_bit 2 (ucast (ucast (push_bit 6 (drop_bit 8 (take_bit 10 m)) OR take_bit 6 s) :: u8) AND push_bit 6 (mask 2)) OR
      ucast (ucast (take_bit 10 m AND mask 8) :: u8) = take_bit 10 m"
    "ucast (ucast (push_bit 6 (drop_bit 8 (take_bit 10 m)) OR take_bit 6 s) :: u8) AND mask 6 = take_bit 6 s"
  by (rule bit_eqI; auto simp: bit_simps)+

lemma chs_encode:
  assumes "unat m < 1024" "unat s < 64"
    and "r_ch r = ucast (m AND 0xff)" "r_cl r = ucast (push_bit 6 (drop_bit 8 m) OR s)"
  shows "chs_cylinder r = m \<and> chs_sector r = s"
proof -
  have n: "(0xff :: u32) = mask 8" "(0x3f :: u32) = mask 6" "(0xc0 :: u32) = push_bit 6 (mask 2)"
    by (simp_all add: mask_eq_exp_minus_1)
  have "take_bit 10 m = m" "take_bit 6 s = s" using assms(1,2) by (auto intro: take_bit_u32_less)
  then show ?thesis
    using chs_encode_bits [of m s] by (simp only: chs_cylinder_def chs_sector_def assms(3,4) n)
qed

lemma last_chs:
  assumes ok: "geometry_ok d" and "1 \<le> cylinders d" "1 \<le> heads d" "1 \<le> sectors_per_track d"
  shows "chs_valid d (cylinders d - 1) (heads d - 1) (sectors_per_track d) \<and>
    Suc (unat (chs_to_lba d (cylinders d - 1) (heads d - 1) (sectors_per_track d))) = geometry_size d"
proof -
  let ?C = "unat (cylinders d)" and ?H = "unat (heads d)" and ?S = "unat (sectors_per_track d)"
  have p: "1 \<le> ?C" "1 \<le> ?H" "1 \<le> ?S" using assms(2-4) by (simp_all add: word_le_nat_alt)
  then have u: "unat (cylinders d - 1) = ?C - 1" "unat (heads d - 1) = ?H - 1"
    by (simp_all add: unat_sub_if_size word_size)
  have v: "chs_valid d (cylinders d - 1) (heads d - 1) (sectors_per_track d)"
    using p by (simp add: chs_valid_nat u)
  obtain c h where ch: "?C = Suc c" "?H = Suc h" using p by (metis Suc_le_D One_nat_def)
  have "Suc ((c * Suc h + h) * ?S + ?S - 1) = Suc c * Suc h * ?S"
    using p by (simp add: algebra_simps)
  then show ?thesis
    using v chs_to_lba_nat [OF ok v] by (simp add: u ch geometry_size_def)
qed

text \<open>
  C17. For a device with 512-byte blocks and a geometry in range, INT 13,08 succeeds, and a
  program that unpacks the returned registers the way INT 13,02 does addresses the last
  cylinder, head and sector, whose linear address is the last one of the geometry. The
  number of drives of the device's class is returned with it.
\<close>

theorem int13_get_parameters_correct:
  assumes d: "d = priv (sandevs w s)" and "sandev_blksize s w = INT13_BLKSIZE" and "geometry_ok d"
    and "1 \<le> cylinders d" "1 \<le> heads d" "1 \<le> sectors_per_track d"
  shows "\<exists>r'. int13_get_parameters env s r w = Some (0, r', w) \<and>
    (chs_cylinder r', ucast (r_dh r'), chs_sector r') = (cylinders d - 1, heads d - 1, sectors_per_track d) \<and>
    chs_valid d (chs_cylinder r') (ucast (r_dh r')) (chs_sector r') \<and>
    Suc (unat (chs_to_lba d (chs_cylinder r') (ucast (r_dh r')) (chs_sector r'))) = geometry_size d \<and>
    r_dl r' = (if int13_is_fdd s w then num_fdds w else num_drives w)"
proof -
  have n: "unat (cylinders d - 1) < 1024" "unat (heads d - 1) < 256" "unat (sectors_per_track d) < 64"
    using geometry_nat [OF assms(3)] assms(4,5) by (auto simp: unat_sub_if_size word_size word_le_nat_alt)
  obtain r' where r: "int13_get_parameters env s r w = Some (0, r', w)"
      "r_ch r' = ucast ((cylinders d - 1) AND 0xff)"
      "r_cl r' = ucast (push_bit 6 (drop_bit 8 (cylinders d - 1)) OR sectors_per_track d)"
      "r_dh r' = ucast (heads d - 1)" "r_dl r' = (if int13_is_fdd s w then num_fdds w else num_drives w)"
    using assms(2) by (auto simp: int13_get_parameters_def Let_def d)
  have "(ucast (ucast (heads d - 1) :: u8) :: u32) = heads d - 1"
    using take_bit_u32_less [of "heads d - 1" 8] n(2) by (simp add: unsigned_ucast_eq)
  with r chs_encode [OF n(1,3) r(2,3)] last_chs [OF assms(3-6)] show ?thesis by auto
qed

theorem int13_get_parameters_correct_witness:
  "\<forall>env r. \<exists>r'. int13_get_parameters env 0 r ex_world = Some (0, r', ex_world) \<and>
     (chs_cylinder r', ucast (r_dh r'), chs_sector r', r_dl r') = (9, 9 :: u32, 10, 1)"
proof (intro allI)
  fix env :: "ref_ctl rom_env" and r
  have d: "priv (sandevs ex_world 0) = priv ex_sandev" by (simp add: ex_world_def)
  have "sandev_blksize 0 ex_world = INT13_BLKSIZE" "\<not> int13_is_fdd 0 ex_world" "num_drives ex_world = 1"
    by (simp_all add: sandev_blksize_def INT13_BLKSIZE_def int13_is_fdd_def is_fdd_drive_def ex_world_def
        ex_sandev_def)
  moreover have "geometry_ok (priv ex_sandev)" "cylinders (priv ex_sandev) = 10" "heads (priv ex_sandev) = 10"
      "sectors_per_track (priv ex_sandev) = 10"
    by (simp_all add: geometry_ok_def ex_sandev_def)
  ultimately show "\<exists>r'. int13_get_parameters env 0 r ex_world = Some (0, r', ex_world) \<and>
     (chs_cylinder r', ucast (r_dh r'), chs_sector r', r_dl r') = (9, 9 :: u32, 10, 1)"
    using int13_get_parameters_correct [OF refl, of 0 ex_world env r] unfolding d by auto
qed

lemma int13_scan_skip:
  assumes "list_all (\<lambda>s. \<not> serves r (sandevs w s) \<and> \<not> remaps r (sandevs w s)) pre"
  shows "int13_scan n env (pre @ ss) r w = int13_scan n env ss r w"
  using assms by (induction pre) (auto simp: serves_def remaps_def Let_def)

lemma int13_scan_serves:
  "serves r (sandevs w s) \<Longrightarrow> int13_scan n env (s # ss) r w =
     do { (status, r, w) \<leftarrow> int13_call n env (r_ah r) s r w; Some (int13_complete s status r w) }"
  by (auto simp: serves_def Let_def)


lemma int13_call_flags:
  "int13_call n env c s r w = Some (status, r', w') \<Longrightarrow> r_flags r' = r_flags r"
  by (auto simp: int13_call_def int13_reset_def int13_get_last_status_def int13_read_sectors_def
      int13_write_sectors_def int13_rw_sectors_def int13_get_parameters_def int13_get_disk_type_def
      int13_extension_check_def int13_extended_read_def int13_extended_write_def int13_extended_rw_def
      int13_extended_verify_def int13_extended_seek_def int13_get_extended_parameters_def
      int13_cdrom_status_terminate_def int13_cdrom_read_boot_catalog_def Let_def
      split: if_splits option.splits prod.splits bind_splits)

lemma flag_bits:
  "(x :: u32) AND CF \<noteq> 0 \<longleftrightarrow> bit x 0" "x AND OF_flag \<noteq> 0 \<longleftrightarrow> bit x 11"
  "bit CF k \<longleftrightarrow> k = 0" "bit OF_flag k \<longleftrightarrow> k = 11"
  using and_exp_eq_0_iff_not_bit [of x 0] and_exp_eq_0_iff_not_bit [of x 11]
    apply (simp_all add: CF_def OF_flag_def bit_1_iff del: push_bit_of_1)
  unfolding OF_flag_def bit_push_bit_iff bit_1_iff by auto

lemma wrapper_regs_flags:
  "bit (r_flags (wrapper_regs r)) 0" "\<not> bit (r_flags (wrapper_regs r)) 11"
  by (simp_all add: wrapper_regs_def bit_simps flag_bits)

lemma wrapper_regs_select [simp]:
  "serves (wrapper_regs r) = serves r" "remaps (wrapper_regs r) = remaps r"
  "r_ah (wrapper_regs r) = r_ah r" "r_dl (wrapper_regs r) = r_dl r"
  by (auto simp: wrapper_regs_def serves_def remaps_def fun_eq_iff)

lemma int13_complete_flags:
  assumes "int13_complete s status r w = (r', w')" "bit (r_flags r) 0"
  shows "bit (r_flags r') 11" "bit (r_flags r') 0 \<longleftrightarrow> status < 0"
  using assms by (auto simp: int13_complete_def Let_def bit_simps flag_bits split: if_splits)

lemma wrapper_served:
  assumes "san_devices (int13_check_num_drives w) = pre @ s # post"
    and "list_all (\<lambda>s. \<not> serves r (sandevs (int13_check_num_drives w) s) \<and>
           \<not> remaps r (sandevs (int13_check_num_drives w) s)) pre"
    and "serves r (sandevs (int13_check_num_drives w) s)"
    and "int13_call n env (r_ah r) s (wrapper_regs r) (int13_check_num_drives w) = Some (status, r1, w1)"
  shows "int13_wrapper n env r w =
      Some (r1\<lparr>r_ah := of_int \<bar>status\<bar>, r_flags := served_flags status r,
               r_dl := (if r_ah r = 0x15 \<and> r_dl r AND 0x80 \<noteq> 0 then r_dl r1
                        else if r_ah r \<noteq> 0x08 then r_dl r
                        else if r_dl r AND 0x80 \<noteq> 0 then num_drives w1 else num_fdds w1)\<rparr>,
            upd_priv s (\<lambda>d. d\<lparr>last_status := status\<rparr>) w1) \<and>
     (served_flags status r AND CF \<noteq> 0 \<longleftrightarrow> status < 0)"
proof -
  have i: "int13 n env (wrapper_regs r) w = Some (int13_complete s status r1 w1)"
    using assms by (simp add: int13_def Let_def int13_scan_skip int13_scan_serves del: int13_scan.simps)
  obtain r2 w2 where c: "int13_complete s status r1 w1 = (r2, w2)" by fastforce
  have "bit (r_flags r1) 0" using int13_call_flags [OF assms(4)] wrapper_regs_flags(1) by simp
  note f = int13_complete_flags [OF c this]
  have "r2 = r1\<lparr>r_ah := of_int \<bar>status\<bar>, r_flags := served_flags status r\<rparr>"
      "w2 = upd_priv s (\<lambda>d. d\<lparr>last_status := status\<rparr>) w1"
    using c int13_call_flags [OF assms(4)] by (auto simp: int13_complete_def served_flags_def Let_def split: if_splits)
  moreover have "num_drives (upd_priv s g w1) = num_drives w1" "num_fdds (upd_priv s g w1) = num_fdds w1" for g
    by (simp_all add: upd_priv_def upd_sandev_def)
  moreover have "int13_wrapper n env r w = Some (fix_dl (r_ah r) (r_dl r) r2 w2, w2)"
    using i f(1) unfolding int13_wrapper_def wrapper_regs_def [symmetric] by (simp add: c flag_bits)
  ultimately show ?thesis
    using f(2) by (auto simp: fix_dl_def flag_bits)
qed

text \<open>
  C13. A call for a drive that a SAN device provides is answered by the device's handler and
  never reaches the BIOS: the carry flag the caller sees is set exactly when the status is
  negative, \<open>%ah\<close> holds its magnitude, the status is kept for INT 13,01, \<open>%dl\<close> is the caller's
  except for the two functions that return a value in it, and all other registers are the
  handler's.
\<close>

theorem int13_wrapper_served:
  assumes "san_devices (int13_check_num_drives w) = pre @ s # post"
    and "list_all (\<lambda>s. \<not> serves r (sandevs (int13_check_num_drives w) s) \<and>
           \<not> remaps r (sandevs (int13_check_num_drives w) s)) pre"
    and "serves r (sandevs (int13_check_num_drives w) s)"
    and "int13_call n env (r_ah r) s (wrapper_regs r) (int13_check_num_drives w) = Some (status, r1, w1)"
  shows "int13_wrapper n env r w =
      Some (r1\<lparr>r_ah := of_int \<bar>status\<bar>, r_flags := served_flags status r,
               r_dl := (if r_ah r = 0x15 \<and> r_dl r AND 0x80 \<noteq> 0 then r_dl r1
                        else if r_ah r \<noteq> 0x08 then r_dl r
                        else if r_dl r AND 0x80 \<noteq> 0 then num_drives w1 else num_fdds w1)\<rparr>,
            upd_priv s (\<lambda>d. d\<lparr>last_status := status\<rparr>) w1) \<and>
     (served_flags status r AND CF \<noteq> 0 \<longleftrightarrow> status < 0)"
  using assms by (rule wrapper_served)


lemma ex_world_check:
  "int13_check_num_drives (ex_world\<lparr>nvme_hw := h\<rparr>) = ex_world\<lparr>nvme_hw := h\<rparr>"
  "int13_check_num_drives ex_world = ex_world"
proof -
  have "BDA_EQUIPMENT_WORD ex_world = 0xfffffc10" "BDA_NUM_DRIVES ex_world = 0xfffffc75"
    "BDA_EQUIPMENT_WORD (ex_world\<lparr>nvme_hw := h\<rparr>) = 0xfffffc10" "BDA_NUM_DRIVES (ex_world\<lparr>nvme_hw := h\<rparr>) = 0xfffffc75"
    by (simp_all add: BDA_EQUIPMENT_WORD_def BDA_NUM_DRIVES_def real_to_user_def phys_to_user_def ex_world_def)
  moreover have "rd16 ex_memory 0xfffffc10 = 0" "rd8 ex_memory 0xfffffc75 = 1"
    by (simp_all add: rd16_def rd8_def ex_memory_def mem_read_def mem_write_def get16_def upt_rec)
  ultimately show "int13_check_num_drives (ex_world\<lparr>nvme_hw := h\<rparr>) = ex_world\<lparr>nvme_hw := h\<rparr>"
    "int13_check_num_drives ex_world = ex_world"
    by (simp_all add: int13_check_num_drives_def ex_world_def)
qed

theorem int13_wrapper_served_witness:
  "\<exists>f. int13_wrapper 5 ex_rom (ex_regs 0x41 0x80) ex_world =
      Some ((ex_regs 0x41 0x80)\<lparr>r_bl := 0x55, r_bh := 0xaa, r_cl := 0x0d, r_ch := 0, r_ah := 0x30,
               r_flags := f\<rparr>,
            upd_priv 0 (\<lambda>d. d\<lparr>last_status := 0x30\<rparr>) ex_world) \<and> f AND CF = 0"
proof -
  have w: "san_devices ex_world = [] @ 0 # []" "sandevs ex_world 0 = ex_sandev"
    by (simp_all add: ex_world_def)
  have "int13_call 5 ex_rom (r_ah (ex_regs 0x41 0x80)) 0 (wrapper_regs (ex_regs 0x41 0x80)) ex_world =
      Some (0x30, (wrapper_regs (ex_regs 0x41 0x80))\<lparr>r_bl := 0x55, r_bh := 0xaa, r_cl := 0x0d, r_ch := 0\<rparr>, ex_world)"
    by (simp add: int13_call_def int13_extension_check_def INT13_EXTENSION_VER_3_0_def ex_regs_def
        wrapper_regs_def word16_def int13_is_fdd_def is_fdd_drive_def w ex_sandev_def)
  from int13_wrapper_served [of ex_world, unfolded ex_world_check, OF w(1) _ _ this]
  show ?thesis by (intro exI [of _ "served_flags 0x30 (ex_regs 0x41 0x80)"]) (simp add: w serves_def ex_regs_def ex_sandev_def wrapper_regs_def)
qed


lemma read_write_vector: "read_vector inum (write_vector inum v w) = v"
  using rd16_sub [of 0 "le_bytes 2 (unat (seg_offset v)) @ le_bytes 2 (unat (seg_segment v))"]
    rd16_sub [of 2 "le_bytes 2 (unat (seg_offset v)) @ le_bytes 2 (unat (seg_segment v))"]
  by (simp add: read_vector_def write_vector_def Let_def real_to_user_def phys_to_user_def le_val_bytes)

lemma write_read_vector: "write_vector inum (read_vector inum w) (write_vector inum v w) = w"
proof -
  let ?a = "real_to_user w 0 (4 * ucast inum)"
  have "le_bytes 2 (unat (rd16 (memory w) ?a)) @ le_bytes 2 (unat (rd16 (memory w) (?a + 2))) = mem_read (memory w) ?a 4"
    using mem_read_append [of "memory w" ?a 2 2] by (simp add: le_bytes_rd16)
  then show ?thesis
    by (simp add: read_vector_def write_vector_def Let_def real_to_user_def phys_to_user_def mem_upd_def
        mem_write_idem mem_write_read)
qed

lemma read_vector_cong: "read_vector inum (w\<lparr>hooked_bios_interrupts := k, int13_vector := v\<rparr>) = read_vector inum w"
   "read_vector inum (w\<lparr>hooked_bios_interrupts := k\<rparr>) = read_vector inum w"
  by (simp_all add: read_vector_def real_to_user_def phys_to_user_def)

lemma write_vector_cong: "write_vector inum x (w\<lparr>hooked_bios_interrupts := k, int13_vector := v\<rparr>) =
   (write_vector inum x w)\<lparr>hooked_bios_interrupts := k, int13_vector := v\<rparr>"
  by (simp add: write_vector_def mem_upd_def real_to_user_def phys_to_user_def)

lemma write_vector_fields: "hooked_bios_interrupts (write_vector inum x w) = hooked_bios_interrupts w"
  "int13_vector (write_vector inum x w) = int13_vector w"
  by (simp_all add: write_vector_def mem_upd_def)

text \<open>
  C19. Hooking makes the interrupt vector point to the wrapper and keeps the previous handler
  for chaining; hooking again changes nothing as long as that handler is not 0000:0000, and
  unhooking restores the whole state, the interrupt vector table and the hook count included.
\<close>

theorem int13_hook_unhook_vector:
  assumes "int13_vector w = \<lparr>seg_offset = 0, seg_segment = 0\<rparr>"
  shows "read_vector 0x13 (int13_hook_vector env w) =
      \<lparr>seg_offset = int13_wrapper_off (layout env), seg_segment = rm_cs (layout env)\<rparr> \<and>
    int13_vector (int13_hook_vector env w) = read_vector 0x13 w \<and>
    (read_vector 0x13 w \<noteq> \<lparr>seg_offset = 0, seg_segment = 0\<rparr> \<longrightarrow>
       int13_hook_vector env (int13_hook_vector env w) = int13_hook_vector env w) \<and>
    int13_unhook_vector env (int13_hook_vector env w) = w"
proof -
  let ?h = "\<lparr>seg_offset = int13_wrapper_off (layout env), seg_segment = rm_cs (layout env)\<rparr>"
  have h: "int13_hook_vector env w = (write_vector 0x13 ?h w)\<lparr>
      hooked_bios_interrupts := hooked_bios_interrupts w + 1, int13_vector := read_vector 0x13 w\<rparr>"
    using assms by (simp add: int13_hook_vector_def hook_bios_interrupt_def Let_def write_vector_fields)
  have "int13_hook_vector env v = v" if "int13_vector v \<noteq> \<lparr>seg_offset = 0, seg_segment = 0\<rparr>" for v :: "'a world"
    using that by (cases "int13_vector v") (auto simp: int13_hook_vector_def hook_bios_interrupt_def)
  moreover have "int13_unhook_vector env (int13_hook_vector env w) = w"
    using assms unfolding h
    by (simp add: int13_unhook_vector_def unhook_bios_interrupt_def Let_def read_vector_cong read_write_vector
        write_vector_cong write_read_vector)
  ultimately show ?thesis by (simp add: h read_vector_cong read_write_vector)
qed

theorem int13_hook_unhook_vector_witness:
  "\<forall>env. int13_unhook_vector env (int13_hook_vector env (ex_world\<lparr>int13_vector := \<lparr>seg_offset = 0, seg_segment = 0\<rparr>\<rparr>)) =
     ex_world\<lparr>int13_vector := \<lparr>seg_offset = 0, seg_segment = 0\<rparr>\<rparr>"
  using int13_hook_unhook_vector [of "ex_world\<lparr>int13_vector := \<lparr>seg_offset = 0, seg_segment = 0\<rparr>\<rparr>"] by simp



















end
