(* ===== verification/Disk_Read.thy ===== *)
theory Disk_Read
  imports Int13
begin

text \<open>
  Reading through all the layers: from an idle state with a hooked NVMe drive, an INT 13 read
  goes through the SAN device, its path, the block interface and the NVMe queues, and comes
  back with the blocks of the disk in the caller's buffer. The states in which this holds are
  described first; what the rest of the machine does is a hypothesis on the environment.
\<close>

section \<open>Ready states\<close>

text \<open>Processes that run for ever and, in the states considered, change nothing.\<close>

definition permanent :: "proc_id \<Rightarrow> bool" where
  "permanent p \<longleftrightarrow> p = Retry_process \<or> (\<exists>k. p = Other_process k)"

record 'h hw_contract =
  hc_quiet :: "'h \<Rightarrow> bool"
  hc_view :: "'h \<Rightarrow> ring_view"
  hc_disk :: "'h \<Rightarrow> u64 \<Rightarrow> u8 list"
  hc_status :: "'h \<Rightarrow> nvme_command \<Rightarrow> u16"

text \<open>What the rest of the machine does: a conforming controller that completes every command.\<close>

definition env_ok :: "'h rom_env \<Rightarrow> 'h hw_contract \<Rightarrow> bool" where
  "env_ok env c \<longleftrightarrow>
     nvme_controller (nvme_if env) (hc_quiet c) (hc_view c) (hc_disk c) (hc_status c) 512 \<and>
     (\<forall>h x. hc_quiet c h \<longrightarrow> hc_status c h x = 0) \<and>
     (\<forall>w. unquiesce env w = w) \<and> (\<forall>k w. other_step env k w = w) \<and>
     (\<forall>w. elapsed env w < SAN_COMMAND_TIMEOUT)"

definition plugged :: "nat \<Rightarrow> nat \<Rightarrow> nat \<Rightarrow> (intf_id \<Rightarrow> interface) \<Rightarrow> bool" where
  "plugged s p d f \<longleftrightarrow>
     intf_refcnt (f Null_intf) = None \<and> intf_desc (f Null_intf) = Some Null_desc \<and>
     intf_dest (f Dummy_intf) = Some Null_intf \<and> intf_refcnt (f Dummy_intf) = None \<and>
     f (San_command s) = \<lparr>intf_dest = Some Null_intf, intf_refcnt = Some (San_obj s),
        intf_desc = Some San_command_desc, intf_original = Some San_command_desc\<rparr> \<and>
     intf_dest (f (San_block s p)) = Some (Nvme_block d) \<and>
     intf_refcnt (f (Nvme_block d)) = Some (Nvme_obj d) \<and>
     intf_desc (f (Nvme_block d)) = Some Nvme_block_desc"

definition san_idle :: "san_device \<Rightarrow> nat \<Rightarrow> bool" where
  "san_idle v p \<longleftrightarrow> active v = Some p \<and> \<not> timer_running (san_timer v) \<and> blksize_shift v = 0 \<and>
     blksize (capacity v) = 512 \<and> max_count (capacity v) = 1"

definition nvme_idle :: "'h hw_contract \<Rightarrow> nat \<Rightarrow> 'h world \<Rightarrow> bool" where
  "nvme_idle c d w \<longleftrightarrow> \<not> busy w \<and>
     (\<exists>ctrl ns. nvme_ctrl_ptr (nvme_devs w d) = Some ctrl \<and> ctrl_ns ctrl = Some ns \<and> block_size ns = 512 \<and>
        hc_quiet c (nvme_hw w) \<and> rings_ok (hc_view c (nvme_hw w)) ctrl w \<and>
        unat (virt_to_phys w (nvme_dma_buffer w)) mod 4096 = 0 \<and>
        region (nvme_dma_buffer w) 512 \<inter> rings_region (rv_len (hc_view c (nvme_hw w))) ctrl = {})"

text \<open>Memory that belongs to the driver: the rings and the bounce buffer.\<close>

definition driver_memory :: "'h hw_contract \<Rightarrow> nat \<Rightarrow> 'h world \<Rightarrow> u32 set" where
  "driver_memory c d w =
     (case nvme_ctrl_ptr (nvme_devs w d) of
        None \<Rightarrow> {}
      | Some ctrl \<Rightarrow> rings_region (rv_len (hc_view c (nvme_hw w))) ctrl) \<union> region (nvme_dma_buffer w) 512"

definition ready :: "'h hw_contract \<Rightarrow> nat \<Rightarrow> nat \<Rightarrow> nat \<Rightarrow> 'h world \<Rightarrow> bool" where
  "ready c s p d w \<longleftrightarrow> plugged s p d (intfs w) \<and> san_idle (sandevs w s) p \<and> nvme_idle c d w \<and>
     timers w = [] \<and> distinct (run_queue w) \<and> list_all permanent (run_queue w) \<and>
     0 \<le> refcnts w (San_obj s) \<and> 0 \<le> refcnts w (Nvme_obj d)"

text \<open>The effect of reading one block into a buffer on memory, controller and driver.\<close>

definition block_read_into :: "'h hw_contract \<Rightarrow> nat \<Rightarrow> u32 \<Rightarrow> u64 \<Rightarrow> 'h world \<Rightarrow> 'h world \<Rightarrow> bool" where
  "block_read_into c d buf lba w w1 \<longleftrightarrow>
     w1 = w\<lparr>memory := memory w1, nvme_hw := nvme_hw w1, nvme_devs := nvme_devs w1\<rparr> \<and>
     nvme_idle c d w1 \<and> driver_memory c d w1 = driver_memory c d w \<and>
     same_outside (driver_memory c d w \<union> region buf 512) (memory w) (memory w1) \<and>
     mem_read (memory w1) buf 512 = hc_disk c (nvme_hw w) lba \<and> hc_disk c (nvme_hw w1) = hc_disk c (nvme_hw w)"

text \<open>A state in which a command of SAN device \<open>s\<close> to NVMe device \<open>d\<close> has been started.\<close>

definition command_running :: "nat \<Rightarrow> nat \<Rightarrow> 'h world \<Rightarrow> 'h world" where
  "command_running s d w = w\<lparr>
     refcnts := (refcnts w)(Nvme_obj d := 2 + refcnts w (Nvme_obj d), San_obj s := refcnts w (San_obj s) + 1),
     intfs := (intfs w)(Dummy_intf := (intfs w Dummy_intf)\<lparr>intf_dest := Some (San_command s)\<rparr>,
                        San_command s := (intfs w (San_command s))\<lparr>intf_dest := Some Dummy_intf\<rparr>),
     run_queue := run_queue w @ [Nvme_process d], busy := True\<rparr>"

text \<open>The devices and interfaces once the command of a running state has completed.\<close>

definition command_done :: "nat \<Rightarrow> 'h world \<Rightarrow> 'h world \<Rightarrow> bool" where
  "command_done s w w' \<longleftrightarrow>
     (\<exists>t tm. \<not> timer_running tm \<and> w' = w\<lparr>
        intfs := (intfs w)(Dummy_intf := (intfs w Dummy_intf)\<lparr>intf_desc := Some Null_desc\<rparr>),
        sandevs := (sandevs w)(s := (sandevs w s)\<lparr>san_timer := tm, command_rc := OK\<rparr>), now := t\<rparr>)"

text \<open>A running command whose timer has been started at time \<open>t\<close>.\<close>

definition command_timed :: "nat \<Rightarrow> nat \<Rightarrow> u32 \<Rightarrow> 'h world \<Rightarrow> 'h world" where
  "command_timed s d t w = w\<lparr>
     refcnts := (refcnts w)(Nvme_obj d := 2 + refcnts w (Nvme_obj d), San_obj s := 2 + refcnts w (San_obj s)),
     intfs := (intfs w)(Dummy_intf := (intfs w Dummy_intf)\<lparr>intf_dest := Some (San_command s)\<rparr>,
                        San_command s := (intfs w (San_command s))\<lparr>intf_dest := Some Dummy_intf\<rparr>),
     run_queue := run_queue w @ [Nvme_process d], busy := True, timers := [s], now := t,
     sandevs := (sandevs w)(s := (sandevs w s)\<lparr>san_timer := (san_timer (sandevs w s))
       \<lparr>timer_running := True, timer_start := t, timer_timeout := SAN_COMMAND_TIMEOUT\<rparr>\<rparr>)\<rparr>"

text \<open>What a completed read may change besides the memory it reads into.\<close>

definition io_frame :: "nat \<Rightarrow> 'h world \<Rightarrow> 'h world \<Rightarrow> bool" where
  "io_frame s w w' \<longleftrightarrow>
     (\<exists>v. w' = w\<lparr>memory := memory w', nvme_hw := nvme_hw w', nvme_devs := nvme_devs w', now := now w',
            intfs := intfs w', sandevs := (sandevs w)(s := v)\<rparr> \<and>
          v = (sandevs w s)\<lparr>san_timer := san_timer v, command_rc := command_rc v\<rparr>)"

definition blocks_read :: "'h hw_contract \<Rightarrow> nat \<Rightarrow> nat \<Rightarrow> u32 \<Rightarrow> u64 \<Rightarrow> nat \<Rightarrow> 'h world \<Rightarrow> 'h world \<Rightarrow> bool" where
  "blocks_read c s d buf lba n w w' \<longleftrightarrow>
     io_frame s w w' \<and> driver_memory c d w' = driver_memory c d w \<and>
     same_outside (driver_memory c d w \<union> region buf (512 * n)) (memory w) (memory w') \<and>
     mem_read (memory w') buf (512 * n) = disk_blocks (hc_disk c (nvme_hw w)) lba n \<and>
     hc_disk c (nvme_hw w') = hc_disk c (nvme_hw w)"

text \<open>The state of a caller of INT 13 and the device that answers.\<close>

definition answers :: "nat \<Rightarrow> i386_all_regs \<Rightarrow> 'h world \<Rightarrow> bool" where
  "answers s r w \<longleftrightarrow> int13_check_num_drives w = w \<and> serves r (sandevs w s) \<and>
     (\<exists>pre post. san_devices w = pre @ s # post \<and>
        list_all (\<lambda>s. \<not> serves r (sandevs w s) \<and> \<not> remaps r (sandevs w s)) pre)"

text \<open>The blocks have arrived in the buffer, and nothing else has changed but the driver's memory.\<close>

definition delivered :: "'h hw_contract \<Rightarrow> nat \<Rightarrow> u32 \<Rightarrow> u64 \<Rightarrow> nat \<Rightarrow> 'h world \<Rightarrow> 'h world \<Rightarrow> bool" where
  "delivered c d buf lba n w w' \<longleftrightarrow>
     mem_read (memory w') buf (512 * n) = disk_blocks (hc_disk c (nvme_hw w)) lba n \<and>
     same_outside (driver_memory c d w \<union> region buf (512 * n)) (memory w) (memory w') \<and>
     hc_disk c (nvme_hw w') = hc_disk c (nvme_hw w) \<and> virt_offset w' = virt_offset w"

text \<open>A caller in real mode reaches the wrapper, and the boot drive has at least one sector.\<close>

definition boots_from :: "'h rom_env \<Rightarrow> nat \<Rightarrow> u32 \<Rightarrow> 'h world \<Rightarrow> bool" where
  "boots_from env s drv w \<longleftrightarrow>
     read_vector 0x13 w = \<lparr>seg_offset = int13_wrapper_off (layout env), seg_segment = rm_cs (layout env)\<rparr> \<and>
     unat drv < 256 \<and>
     answers s ((real_regs env 0x02 0x01 drv)\<lparr>r_es := 0, r_bl := 0, r_bh := 0x7c, r_cl := 1, r_ch := 0\<rparr>) w \<and>
     1 \<le> cylinders (priv (sandevs w s)) \<and> 1 \<le> heads (priv (sandevs w s)) \<and>
     1 \<le> sectors_per_track (priv (sandevs w s))"

definition ex_contract :: "ref_ctl hw_contract" where
  "ex_contract = \<lparr>hc_quiet = ref_quiet 512, hc_view = rc_view, hc_disk = rc_disk, hc_status = (\<lambda>_ _. 0)\<rparr>"

definition ex_boot :: "ref_ctl world" where
  "ex_boot = ex_world\<lparr>nvme_hw := ex_ctl\<lparr>rc_disk := \<lambda>_. replicate 510 0 @ [0x55, 0xaa]\<rparr>\<rparr>"

section \<open>Lemmas\<close>

lemma rings_ok_same:
  assumes ok: "rings_ok v ctrl w" and "virt_offset w' = virt_offset w"
    and m: "same_outside R (memory w) (memory w')" and R: "R \<inter> rings_region (rv_len v) ctrl = {}"
  shows "rings_ok v ctrl w'"
proof -
  have "phase_at (memory w') (cq_cqe (io_cq ctrl) + 16 * of_nat s) = phase_at (memory w) (cq_cqe (io_cq ctrl) + 16 * of_nat s)"
    if "s < rv_len v" for s
    using rings_ok_regions(2) [OF ok that] R
    by (intro phase_at_same [OF m]) (auto simp: rings_region_def)
  with assms(1,2) show ?thesis by (simp add: rings_ok_def Let_def virt_to_phys_def user_to_phys_def)
qed

lemmas rings_ok_cong = rings_ok_same [where R = "{}", simplified]

lemma rings_region_next [simp]: "rings_region n (ring_ctrl v ctrl) = rings_region n ctrl"
  by (simp add: rings_region_def ring_ctrl_def)

lemma ring_ctrl_ns [simp]: "ctrl_ns (ring_ctrl v ctrl) = ctrl_ns ctrl"
  by (simp add: ring_ctrl_def)

lemma page_aligned_dword: "unat (x :: u32) mod 4096 = 0 \<Longrightarrow> x AND 3 = 0"
proof -
  assume a: "unat x mod 4096 = 0"
  have "x AND 3 = take_bit 2 x" by (simp add: take_bit_eq_mask mask_eq_exp_minus_1)
  moreover have "unat (take_bit 2 x) = unat x mod 2 ^ 2" unfolding unsigned_take_bit_eq by (simp only: take_bit_eq_mod)
  moreover have "unat x mod 4 = 0" using a dvd_trans [of 4 4096 "unat x"] by (simp add: mod_eq_0_iff_dvd)
  ultimately show ?thesis by (simp add: word_unat_eq_iff)
qed

lemma permanent_not_nvme: "list_all permanent qs \<Longrightarrow> Nvme_process d \<notin> set qs"
  by (induction qs) (auto simp: permanent_def)

lemma nvme_start_running:
  assumes "plugged s p d (intfs w)" "list_all permanent (run_queue w)"
  shows "nvme_start d (San_command s) w = Some (command_running s d w)"
  using assms permanent_not_nvme [OF assms(2), of d]
  by (simp add: nvme_start_def intf_plug_plug_def intf_plug_def process_add_def process_running_def
      ref_increment_def ref_decrement_def intf_get_def intf_put_def set_dest_def upd_intf_def nvme_ref_get_def
      plugged_def command_running_def Let_def fun_upd_twist)

lemma nvme_read_running:
  assumes e: "env_ok env c" and r: "plugged s p d (intfs w)" "list_all permanent (run_queue w)" "nvme_idle c d w"
    and ctrl: "nvme_ctrl_ptr (nvme_devs w d) = Some ctrl"
    and b: "region buf 512 \<inter> driver_memory c d w = {}"
  shows "\<exists>k w1. (\<forall>n>k. nvme_read n env d (San_command s) lba 1 buf 512 w = Some (OK, command_running s d w1)) \<and>
     block_read_into c d buf lba w w1"
proof -
  obtain ns where n: "ctrl_ns ctrl = Some ns" "block_size ns = 512" "\<not> busy w" "hc_quiet c (nvme_hw w)"
      "rings_ok (hc_view c (nvme_hw w)) ctrl w" "unat (virt_to_phys w (nvme_dma_buffer w)) mod 4096 = 0"
      "region (nvme_dma_buffer w) 512 \<inter> rings_region (rv_len (hc_view c (nvme_hw w))) ctrl = {}"
    using r(3) ctrl by (auto simp: nvme_idle_def)
  let ?v = "hc_view c (nvme_hw w)" and ?buf = "nvme_dma_buffer w"
  let ?ctrl = "ring_ctrl (rv_next ?v) ctrl"
  have "\<exists>k w'. io_done (hc_quiet c) (hc_view c) (hc_disk c) 512 ?v ctrl ?buf lba (1 :: u16) False True w w' \<and>
      (\<forall>n>k. nvme_io_xfer n (nvme_if env) ns lba (virt_to_phys w ?buf) 0 1 False ctrl w = Some (Inr 1, ?ctrl, w'))"
    by (rule io_xfer_correct [of "nvme_if env" "hc_quiet c" "hc_view c" "hc_disk c" "hc_status c" 512 w]) (use e n page_aligned_dword [OF n(6)] in \<open>auto simp: env_ok_def\<close>)
  then obtain k w' where io: "io_done (hc_quiet c) (hc_view c) (hc_disk c) 512 ?v ctrl ?buf lba (1 :: u16) False True w w'"
      "\<forall>n>k. nvme_io_xfer n (nvme_if env) ns lba (virt_to_phys w ?buf) 0 1 False ctrl w = Some (Inr 1, ?ctrl, w')"
    by blast
  define w1 where "w1 = mem_upd (\<lambda>m. mem_copy m buf ?buf 512) (upd_nvme d (\<lambda>v. v\<lparr>nvme_ctrl_ptr := Some ?ctrl\<rparr>) w')"
  have w': "w' = w\<lparr>memory := memory w', nvme_hw := nvme_hw w'\<rparr>" "hc_quiet c (nvme_hw w')"
      "hc_view c (nvme_hw w') = rv_next ?v" "rings_ok (rv_next ?v) ?ctrl w'"
      "same_outside (rings_region (rv_len ?v) ctrl \<union> region ?buf 512) (memory w) (memory w')"
      "hc_disk c (nvme_hw w') = hc_disk c (nvme_hw w)" "mem_read (memory w') ?buf 512 = hc_disk c (nvme_hw w) lba"
    using io(1) by (simp_all add: io_done_def disk_blocks_def)
  have f: "virt_offset w' = virt_offset w" "nvme_dma_buffer w' = ?buf" "intfs w' = intfs w" "run_queue w' = run_queue w"
      "nvme_devs w' = nvme_devs w" "busy w' = busy w"
    by (subst w'(1), simp)+
  have d: "driver_memory c d w = rings_region (rv_len ?v) ctrl \<union> region ?buf 512"
    by (simp add: driver_memory_def ctrl)
  have g: "memory w1 = mem_write (memory w') buf (hc_disk c (nvme_hw w) lba)" "virt_offset w1 = virt_offset w"
      "nvme_dma_buffer w1 = ?buf" "nvme_hw w1 = nvme_hw w'" "busy w1 = busy w" "intfs w1 = intfs w"
      "run_queue w1 = run_queue w" "nvme_ctrl_ptr (nvme_devs w1 d) = Some ?ctrl"
    by (simp_all add: w1_def mem_copy_def w'(7) upd_nvme_def mem_upd_def f)
  have wr: "w1 = w\<lparr>memory := memory w1, nvme_hw := nvme_hw w1, nvme_devs := nvme_devs w1\<rparr>"
    unfolding w1_def by (subst w'(1)) (simp add: mem_upd_def upd_nvme_def f)
  have l: "length (hc_disk c (nvme_hw w) lba) = 512" using e n(4) by (auto simp: env_ok_def nvme_controller_def)
  have s1: "same_outside (region buf 512) (memory w') (memory w1)"
    unfolding g(1) using l by (intro same_outside_write [where n = 512]) auto
  have "rings_ok (rv_next ?v) ?ctrl w1"
    by (rule rings_ok_same [OF w'(4) _ s1]) (use b d g(2) f(1) in auto)
  then have i: "nvme_idle c d w1"
    using n w'(2,3) by (simp add: nvme_idle_def g virt_to_phys_def user_to_phys_def)
  have i2: "driver_memory c d w1 = driver_memory c d w"
    unfolding d by (simp add: driver_memory_def g w'(3))
  have "nvme_read n env d (San_command s) lba 1 buf 512 w = Some (OK, command_running s d w1)" if "n > k" for n
    using io(2) that n(1-3) ctrl nvme_start_running [of s p d w1] r g(6,7) f(2)
    by (simp add: nvme_read_def w1_def upd_nvme_def)
  moreover have "same_outside (driver_memory c d w \<union> region buf 512) (memory w) (memory w1)"
    unfolding d by (rule same_outside_trans [OF w'(5) s1]) simp
  moreover have "mem_read (memory w1) buf 512 = hc_disk c (nvme_hw w) lba"
    unfolding g(1) using l by (simp add: mem_read_write_same)
  moreover have "hc_disk c (nvme_hw w1) = hc_disk c (nvme_hw w)" using w'(6) g(4) by simp
  ultimately have "block_read_into c d buf lba w w1" unfolding block_read_into_def using wr i i2 by (intro conjI)
  with \<open>\<And>n. n > k \<Longrightarrow> _\<close> show ?thesis by blast
qed

lemma sandev_command_rw_running:
  assumes e: "env_ok env c" and r: "ready c s p d w" and b: "region buf 512 \<inter> driver_memory c d w = {}"
  shows "\<exists>k w1. (\<forall>n>k. sandev_command_rw n env s \<lparr>rw_op = Block_read, rw_buffer = buf, rw_lba = lba, rw_count = 1\<rparr> w =
       Some (OK, command_running s d w1)) \<and>
     block_read_into c d buf lba w w1"
proof -
  let ?w = "w\<lparr>refcnts := (refcnts w)(Nvme_obj d := refcnts w (Nvme_obj d) + 1)\<rparr>"
  have pl: "plugged s p d (intfs w)" "0 \<le> refcnts w (Nvme_obj d)" using r by (simp_all add: ready_def)
  have "nvme_idle c d ?w"
    using r rings_ok_cong [of _ _ w ?w] by (auto simp: ready_def nvme_idle_def virt_to_phys_def user_to_phys_def)
  moreover have dm: "driver_memory c d (x\<lparr>refcnts := f\<rparr>) = driver_memory c d x" for f and x :: "'a world"
    by (simp add: driver_memory_def split: option.splits)
  moreover obtain ctrl where "nvme_ctrl_ptr (nvme_devs w d) = Some ctrl" using r by (auto simp: ready_def nvme_idle_def)
  ultimately have "\<exists>k w1. (\<forall>n>k. nvme_read n env d (San_command s) lba 1 buf 512 ?w = Some (OK, command_running s d w1)) \<and>
     block_read_into c d buf lba ?w w1"
    by (intro nvme_read_running [OF e, of s p]) (use r b in \<open>simp_all add: ready_def\<close>)
  then obtain k w1 where k: "\<forall>n>k. nvme_read n env d (San_command s) lba 1 buf 512 ?w = Some (OK, command_running s d w1)"
     "block_read_into c d buf lba ?w w1" by blast
  then have w1: "w1 = ?w\<lparr>memory := memory w1, nvme_hw := nvme_hw w1, nvme_devs := nvme_devs w1\<rparr>"
    "nvme_idle c d w1" by (auto simp: block_read_into_def simp del: fun_upd_apply)
  let ?w1 = "w1\<lparr>refcnts := refcnts w\<rparr>"
  have f: "refcnts w1 = (refcnts w)(Nvme_obj d := refcnts w (Nvme_obj d) + 1)" "intfs w1 = intfs w"
    by (subst w1(1), simp)+
  have "sandev_command_rw n env s \<lparr>rw_op = Block_read, rw_buffer = buf, rw_lba = lba, rw_count = 1\<rparr> w =
      Some (OK, command_running s d ?w1)" if "n > k" for n
    using k(1) [rule_format, OF that] pl r
    by (simp add: sandev_command_rw_def block_read_def intf_get_dest_op_def plugged_def ready_def san_idle_def
        intf_get_def ref_increment_def intf_put_def ref_decrement_def command_running_def f Let_def fun_upd_twist)
  moreover have "?w1 = w\<lparr>memory := memory ?w1, nvme_hw := nvme_hw ?w1, nvme_devs := nvme_devs ?w1\<rparr>"
    by (subst w1(1)) simp
  moreover have "nvme_idle c d ?w1"
    using w1(2) rings_ok_cong [of _ _ w1 ?w1] by (auto simp: nvme_idle_def virt_to_phys_def user_to_phys_def)
  ultimately have "block_read_into c d buf lba w ?w1"
    using k(2) unfolding block_read_into_def dm by simp
  with \<open>\<And>n. n > k \<Longrightarrow> _\<close> show ?thesis by blast
qed

lemma wait_permanent:
  assumes "env_ok env c" "timer_running (san_timer (sandevs w s))"
    "timer_timeout (san_timer (sandevs w s)) = SAN_COMMAND_TIMEOUT" "timers w = [s]"
    and "run_queue w = qs @ rest" "list_all permanent qs" "distinct qs"
    and "Retry_process \<in> set qs \<longrightarrow> now w = timer_start (san_timer (sandevs w s))"
  shows "\<exists>t. \<forall>n. wait_command (length qs + n) env s w =
    wait_command n env s (w\<lparr>run_queue := rest @ qs, now := t\<rparr>)"
  using assms(2-)
proof (induction qs arbitrary: w rest)
  case Nil
  then have "w\<lparr>run_queue := rest, now := now w\<rparr> = w" by (intro world.equality) auto
  then show ?case by (intro exI [of _ "now w"]) simp
next
  case (Cons q qs)
  let ?t = "if q = Retry_process then now w + elapsed env (w\<lparr>run_queue := qs @ rest @ [q]\<rparr>) else now w"
  let ?w = "w\<lparr>run_queue := qs @ rest @ [q], now := ?t\<rparr>"
  have e: "\<not> SAN_COMMAND_TIMEOUT \<le> elapsed env x" "other_step env k x = x" for x k
    using assms(1) by (simp_all add: env_ok_def not_le)
  have "step (proc_step n env) w = Some ?w" for n
  proof (cases "q = Retry_process")
    case True
    then show ?thesis
      using Cons.prems e(1) [of "w\<lparr>run_queue := qs @ rest @ [q]\<rparr>"]
      by (simp add: step_def ref_increment_def ref_decrement_def retry_poll_def currticks_def timer_due_def Let_def)
  next
    case False
    then obtain k where "q = Other_process k" using Cons.prems(5) by (auto simp: permanent_def)
    then show ?thesis
      using Cons.prems e(2) by (simp add: step_def ref_increment_def ref_decrement_def)
  qed
  moreover have "\<exists>t. \<forall>n. wait_command (length qs + n) env s ?w =
      wait_command n env s (?w\<lparr>run_queue := (rest @ [q]) @ qs, now := t\<rparr>)"
    by (rule Cons.IH) (use Cons.prems in auto)
  then obtain t where "\<forall>n. wait_command (length qs + n) env s ?w =
      wait_command n env s (?w\<lparr>run_queue := (rest @ [q]) @ qs, now := t\<rparr>)" ..
  ultimately show ?case using Cons.prems(1) by (intro exI [of _ t]) simp
qed

lemma restart_command:
  assumes "intf_dest (intfs w (San_command s)) = Some Dummy_intf"
    "intf_desc (intfs w Dummy_intf) = Some Null_desc" "intf_refcnt (intfs w Dummy_intf) = None"
  shows "intf_restart (Suc n) (close_method (Suc m) env) (San_command s) rc w =
    Some (upd_intf (San_command s) (\<lambda>i. i\<lparr>intf_dest := Some Null_intf, intf_desc := intf_original i\<rparr>) w)"
  using assms
  by (simp add: intf_restart_def intf_close_to_def intf_get_dest_op_def intf_get_def intf_put_def ref_increment_def
      ref_decrement_def intf_nullify_def set_dest_def upd_intf_def intf_reinit_def Let_def)

lemma stop_running_timer:
  assumes "timer_running (san_timer (sandevs w s))" "timers w = [s]" "0 < refcnts w (San_obj s)"
  shows "\<exists>tm. \<not> timer_running tm \<and> stop_timer env s w =
    Some (w\<lparr>timers := [], refcnts := (refcnts w)(San_obj s := refcnts w (San_obj s) - 1), now := now w + elapsed env w,
      sandevs := (sandevs w)(s := (sandevs w s)\<lparr>san_timer := tm\<rparr>)\<rparr>)"
proof -
  let ?r = "san_timer (sandevs w s)"
  let ?tm = "if timer_count ?r \<noteq> 0 then ?r\<lparr>timer_running := False, timer_count := timer_count ?r - 1\<rparr>
    else ?r\<lparr>timer_running := False, timer_timeout := timer_timeout ?r - drop_bit 3 (timer_timeout ?r) +
      drop_bit 1 (now w + elapsed env w - timer_start ?r)\<rparr>"
  show ?thesis
    using assms by (intro exI [of _ ?tm]) (simp add: stop_timer_def currticks_def upd_timer_def upd_sandev_def
        ref_decrement_def Let_def)
qed

lemma command_close:
  assumes "timer_running (san_timer (sandevs w s))" "timers w = [s]" "0 < refcnts w (San_obj s)"
    and "intf_dest (intfs w (San_command s)) = Some Dummy_intf"
      "intf_desc (intfs w Dummy_intf) = Some Null_desc" "intf_refcnt (intfs w Dummy_intf) = None"
  shows "\<exists>tm. \<not> timer_running tm \<and> (\<forall>n m. sandev_command_close (Suc n) env (close_method (Suc m) env) s rc w =
    Some (w\<lparr>timers := [], refcnts := (refcnts w)(San_obj s := refcnts w (San_obj s) - 1), now := now w + elapsed env w,
      sandevs := (sandevs w)(s := (sandevs w s)\<lparr>san_timer := tm, command_rc := rc\<rparr>),
      intfs := (intfs w)(San_command s := (intfs w (San_command s))
         \<lparr>intf_dest := Some Null_intf, intf_desc := intf_original (intfs w (San_command s))\<rparr>)\<rparr>))"
  using stop_running_timer [OF assms(1-3), of env] assms(4-)
  by (elim exE) (auto simp: sandev_command_close_def restart_command upd_intf_def upd_sandev_def)

lemma shutdown_dummy:
  assumes "timer_running (san_timer (sandevs w s))" "timers w = [s]" "1 < refcnts w (San_obj s)"
    and "intfs w (San_command s) = \<lparr>intf_dest = Some Dummy_intf, intf_refcnt = Some (San_obj s),
        intf_desc = Some San_command_desc, intf_original = Some San_command_desc\<rparr>"
      "intf_dest (intfs w Dummy_intf) = Some (San_command s)" "intf_refcnt (intfs w Dummy_intf) = None"
  shows "\<exists>tm t. \<not> timer_running tm \<and> (\<forall>n m. intfs_shutdown (Suc n) (close_method (Suc (Suc m)) env) OK [Dummy_intf] w =
    Some (w\<lparr>timers := [], refcnts := (refcnts w)(San_obj s := refcnts w (San_obj s) - 2), now := t,
      sandevs := (sandevs w)(s := (sandevs w s)\<lparr>san_timer := tm, command_rc := OK\<rparr>),
      intfs := (intfs w)(San_command s := \<lparr>intf_dest = Some Null_intf, intf_refcnt = Some (San_obj s),
        intf_desc = Some San_command_desc, intf_original = Some San_command_desc\<rparr>,
        Dummy_intf := (intfs w Dummy_intf)\<lparr>intf_desc := Some Null_desc, intf_dest := Some Null_intf\<rparr>)\<rparr>))"
proof -
  let ?w = "w\<lparr>intfs := (intfs w)(Dummy_intf := (intfs w Dummy_intf)\<lparr>intf_desc := Some Null_desc, intf_dest := Some Null_intf\<rparr>),
    refcnts := (refcnts w)(San_obj s := refcnts w (San_obj s) + 1)\<rparr>"
  obtain tm where tm: "\<not> timer_running tm" "\<forall>n m. sandev_command_close (Suc n) env (close_method (Suc m) env) s OK ?w =
    Some (?w\<lparr>timers := [], refcnts := (refcnts ?w)(San_obj s := refcnts ?w (San_obj s) - 1), now := now ?w + elapsed env ?w,
      sandevs := (sandevs ?w)(s := (sandevs ?w s)\<lparr>san_timer := tm, command_rc := OK\<rparr>),
      intfs := (intfs ?w)(San_command s := (intfs ?w (San_command s))
         \<lparr>intf_dest := Some Null_intf, intf_desc := intf_original (intfs ?w (San_command s))\<rparr>)\<rparr>)"
    using command_close [of ?w s env OK] assms by auto
  show ?thesis
    using assms(3-) tm
    by (intro exI [of _ tm] exI [of _ "now w + elapsed env ?w"]) (simp add: intfs_shutdown_def intf_close_to_def intf_get_dest_op_def intf_get_def intf_put_def ref_increment_def
      ref_decrement_def intf_nullify_def set_dest_def upd_intf_def Let_def fun_upd_twist)
qed

lemma start_timer_timed:
  assumes "timers w = []" "\<not> timer_running (san_timer (sandevs w s))"
  shows "\<exists>t. start_timer_fixed env s SAN_COMMAND_TIMEOUT (command_running s d w) = command_timed s d t w"
proof -
  obtain t where t: "t = fst (currticks env (upd_timer s (\<lambda>t. t\<lparr>timer_running := True\<rparr>)
      (ref_increment (Some (San_obj s)) ((command_running s d w)\<lparr>timers := [s]\<rparr>))))" by simp
  show ?thesis
    by (rule exI [of _ t]) (rule world.equality; use assms in \<open>simp add: t start_timer_fixed_def command_running_def
      currticks_def upd_timer_def upd_sandev_def ref_increment_def command_timed_def Let_def\<close>)
qed

lemma nvme_process_completes:
  assumes r: "ready c s p d w"
    and v: "v = (command_timed s d t0 w)\<lparr>run_queue := Nvme_process d # run_queue w, now := t\<rparr>"
  shows "\<exists>w'. command_done s w w' \<and> (\<forall>n. step (proc_step (Suc (Suc n)) env) v = Some w')"
proof -
  have nq: "Nvme_process d \<notin> set (run_queue w)"
    using r permanent_not_nvme by (auto simp: ready_def)
  have r: "plugged s p d (intfs w)" "0 \<le> refcnts w (San_obj s)" "0 \<le> refcnts w (Nvme_obj d)" "timers w = []"
    "\<not> timer_running (san_timer (sandevs w s))" "\<not> busy w"
    using r by (auto simp: ready_def san_idle_def nvme_idle_def)
  let ?v1 = "v\<lparr>run_queue := run_queue w\<rparr>"
  obtain tm t' where tm: "\<not> timer_running tm" "\<forall>n m. intfs_shutdown (Suc n) (close_method (Suc (Suc m)) env) OK [Dummy_intf] ?v1 =
    Some (?v1\<lparr>timers := [], refcnts := (refcnts ?v1)(San_obj s := refcnts ?v1 (San_obj s) - 2), now := t',
      sandevs := (sandevs ?v1)(s := (sandevs ?v1 s)\<lparr>san_timer := tm, command_rc := OK\<rparr>),
      intfs := (intfs ?v1)(San_command s := \<lparr>intf_dest = Some Null_intf, intf_refcnt = Some (San_obj s),
        intf_desc = Some San_command_desc, intf_original = Some San_command_desc\<rparr>,
        Dummy_intf := (intfs ?v1 Dummy_intf)\<lparr>intf_desc := Some Null_desc, intf_dest := Some Null_intf\<rparr>)\<rparr>)"
    using shutdown_dummy [of ?v1 s env] r by (auto simp: v command_timed_def plugged_def)
  let ?w = "w\<lparr>intfs := (intfs w)(Dummy_intf := (intfs w Dummy_intf)\<lparr>intf_desc := Some Null_desc\<rparr>),
        sandevs := (sandevs w)(s := (sandevs w s)\<lparr>san_timer := tm, command_rc := OK\<rparr>), now := t'\<rparr>"
  have f: "run_queue v = Nvme_process d # run_queue w" "refcnts v (Nvme_obj d) = 2 + refcnts w (Nvme_obj d)"
    by (simp_all add: v command_timed_def)
  have del: "process_del (Nvme_process d) (ref_increment (Some (Nvme_obj d)) v) = Some ?v1"
    using f r(3) by (simp add: process_del_def process_running_def ref_increment_def ref_decrement_def Let_def)
      (rule world.equality; simp add: fun_eq_iff)
  let ?x = "\<lambda>k. ?w\<lparr>busy := True, refcnts := (refcnts w)(Nvme_obj d := k + refcnts w (Nvme_obj d))\<rparr>"
  have sd: "intfs_shutdown (Suc (Suc n)) (close_method (Suc (Suc n)) env) OK [Dummy_intf] ?v1 = Some (?x 2)" for n
    unfolding tm(2) [rule_format] option.inject
    by (rule world.equality) (use r in \<open>auto simp: v command_timed_def plugged_def fun_eq_iff\<close>)
  have "nvme_step (Suc (Suc n)) (close_method (Suc (Suc n)) env) d ?v1 = Some (?x 1\<lparr>busy := False\<rparr>)" for n
    using r(3) nq unfolding nvme_step_def sd
    by (simp add: process_del_def process_running_def ref_decrement_def Let_def)
  moreover have "ref_decrement (Some (Nvme_obj d)) (?x 1\<lparr>busy := False\<rparr>) = Some ?w"
    using r(3,6) by (simp add: ref_decrement_def Let_def)
  ultimately have "step (proc_step (Suc (Suc n)) env) v = Some ?w" for n
    using f(1) del by (simp add: step_def)
  then show ?thesis using tm(1) by (auto simp: command_done_def)
qed

lemma wait_command_completes:
  assumes e: "env_ok env c" and r: "ready c s p d w"
  shows "\<exists>w'. command_done s w w' \<and> (\<forall>n. wait_command (length (run_queue w) + Suc (Suc (Suc n))) env s
     (start_timer_fixed env s SAN_COMMAND_TIMEOUT (command_running s d w)) = Some w')"
proof -
  have ti: "timers w = []" "\<not> timer_running (san_timer (sandevs w s))" using r by (simp_all add: ready_def san_idle_def)
  obtain t0 where t0: "start_timer_fixed env s SAN_COMMAND_TIMEOUT (command_running s d w) = command_timed s d t0 w"
    using start_timer_timed [OF ti] by blast
  have "\<exists>t. \<forall>n. wait_command (length (run_queue w) + n) env s (command_timed s d t0 w) =
      wait_command n env s ((command_timed s d t0 w)\<lparr>run_queue := [Nvme_process d] @ run_queue w, now := t\<rparr>)"
    by (rule wait_permanent [OF e]) (use r in \<open>simp_all add: command_timed_def ready_def\<close>)
  then obtain t where t: "\<forall>n. wait_command (length (run_queue w) + n) env s (command_timed s d t0 w) =
      wait_command n env s ((command_timed s d t0 w)\<lparr>run_queue := Nvme_process d # run_queue w, now := t\<rparr>)" (is "\<forall>n. _ = wait_command n env s ?v")
    by auto
  obtain w' where w': "command_done s w w'" "\<forall>n. step (proc_step (Suc (Suc n)) env) ?v = Some w'"
    using nvme_process_completes [OF r refl] by blast
  have "wait_command (Suc (Suc (Suc n))) env s ?v = Some w'" for n
  proof -
    have "timer_running (san_timer (sandevs ?v s))" by (simp add: command_timed_def)
    moreover have "\<not> timer_running (san_timer (sandevs w' s))" using w'(1) by (auto simp: command_done_def)
    ultimately show ?thesis using w'(2) by simp
  qed
  then have "wait_command (length (run_queue w) + Suc (Suc (Suc n))) env s (command_timed s d t0 w) = Some w'" for n
    by (simp only: t)
  with w'(1) show ?thesis unfolding t0 by blast
qed

lemma command_done_ready:
  assumes r: "ready c s p d w" and b: "block_read_into c d buf lba w w1" and e: "command_done s w1 w'"
  shows "ready c s p d w' \<and> blocks_read c s d buf lba 1 w w' \<and> command_rc (sandevs w' s) = OK"
proof -
  obtain t tm where tm: "\<not> timer_running tm" and w': "w' = w1\<lparr>
      intfs := (intfs w1)(Dummy_intf := (intfs w1 Dummy_intf)\<lparr>intf_desc := Some Null_desc\<rparr>),
      sandevs := (sandevs w1)(s := (sandevs w1 s)\<lparr>san_timer := tm, command_rc := OK\<rparr>), now := t\<rparr>"
    using e by (auto simp: command_done_def)
  have w1: "w1 = w\<lparr>memory := memory w1, nvme_hw := nvme_hw w1, nvme_devs := nvme_devs w1\<rparr>"
    using b by (auto simp: block_read_into_def)
  have f: "intfs w1 = intfs w" "sandevs w1 = sandevs w" "timers w1 = timers w" "run_queue w1 = run_queue w"
      "refcnts w1 = refcnts w" "busy w1 = busy w" "virt_offset w1 = virt_offset w" "nvme_dma_buffer w1 = nvme_dma_buffer w"
    by (subst w1, simp)+
  have "nvme_idle c d w'"
    using b rings_ok_cong [of _ _ w1 w'] by (auto simp: block_read_into_def nvme_idle_def w' virt_to_phys_def user_to_phys_def)
  then have "ready c s p d w'"
    using r tm by (auto simp: ready_def plugged_def san_idle_def w' f)
  moreover have "io_frame s w w'"
    unfolding io_frame_def
    by (rule exI [of _ "(sandevs w s)\<lparr>san_timer := tm, command_rc := OK\<rparr>"])
      (rule conjI, rule world.equality, simp_all add: w' f, (subst w1, simp)+)
  moreover have "driver_memory c d w' = driver_memory c d w1"
    by (simp add: driver_memory_def w' split: option.splits)
  ultimately show ?thesis
    using b by (simp add: blocks_read_def block_read_into_def disk_blocks_def w')
qed

lemma sandev_command_reads:
  assumes e: "env_ok env c" and r: "ready c s p d w" and b: "region buf 512 \<inter> driver_memory c d w = {}"
  shows "\<exists>k w'. (\<forall>n>k. sandev_command n env s (Command_rw \<lparr>rw_op = Block_read, rw_buffer = buf, rw_lba = lba, rw_count = 1\<rparr>) w =
       Some (OK, w')) \<and> ready c s p d w' \<and> blocks_read c s d buf lba 1 w w'"
proof -
  obtain k w1 where k: "\<forall>n>k. sandev_command_rw n env s \<lparr>rw_op = Block_read, rw_buffer = buf, rw_lba = lba, rw_count = 1\<rparr> w =
       Some (OK, command_running s d w1)" "block_read_into c d buf lba w w1"
    using sandev_command_rw_running [OF e r b] by blast
  have f: "w1 = w\<lparr>memory := memory w1, nvme_hw := nvme_hw w1, nvme_devs := nvme_devs w1\<rparr>" "nvme_idle c d w1"
    using k(2) by (auto simp: block_read_into_def)
  have "intfs w1 = intfs w" "sandevs w1 = sandevs w" "timers w1 = timers w" "run_queue w1 = run_queue w" "refcnts w1 = refcnts w"
    by (subst f(1), simp)+
  then have "ready c s p d w1" using r f(2) by (simp add: ready_def)
  then obtain w' where w': "command_done s w1 w'" "\<forall>n. wait_command (length (run_queue w1) + Suc (Suc (Suc n))) env s
     (start_timer_fixed env s SAN_COMMAND_TIMEOUT (command_running s d w1)) = Some w'"
    using wait_command_completes [OF e] by blast
  note d = command_done_ready [OF r k(2) w'(1)]
  let ?k = "k + length (run_queue w1) + 4"
  have "sandev_command n env s (Command_rw \<lparr>rw_op = Block_read, rw_buffer = buf, rw_lba = lba, rw_count = 1\<rparr>) w = Some (OK, w')"
    if n: "n > ?k" for n
  proof -
    obtain m where m: "n = Suc m" "m = length (run_queue w1) + Suc (Suc (Suc (m - length (run_queue w1) - 3)))" "k < m"
      using n by (cases n) auto
    have "wait_command m env s (start_timer_fixed env s SAN_COMMAND_TIMEOUT (command_running s d w1)) = Some w'"
      by (subst m(2)) (rule w'(2) [rule_format])
    moreover have "active (sandevs w s) = Some p" "unquiesce env w = w"
      using r e by (simp_all add: ready_def san_idle_def env_ok_def)
    ultimately show ?thesis
      using m(1,3) k(1) d by (simp add: sandev_command_def command_attempt_def del: wait_command.simps)
  qed
  with d show ?thesis by blast
qed

lemma io_frame_refl: "io_frame s w w"
  by (auto simp: io_frame_def intro!: exI [of _ "sandevs w s"] world.equality)

lemma io_frame_trans:
  assumes "io_frame s w w'" "io_frame s w' w''"
  shows "io_frame s w w''"
proof -
  obtain v where v: "w' = w\<lparr>memory := memory w', nvme_hw := nvme_hw w', nvme_devs := nvme_devs w', now := now w',
      intfs := intfs w', sandevs := (sandevs w)(s := v)\<rparr>"
    "v = (sandevs w s)\<lparr>san_timer := san_timer v, command_rc := command_rc v\<rparr>"
    using assms(1) by (auto simp: io_frame_def)
  obtain u where u: "w'' = w'\<lparr>memory := memory w'', nvme_hw := nvme_hw w'', nvme_devs := nvme_devs w'', now := now w'',
      intfs := intfs w'', sandevs := (sandevs w')(s := u)\<rparr>"
    "u = (sandevs w' s)\<lparr>san_timer := san_timer u, command_rc := command_rc u\<rparr>"
    using assms(2) by (auto simp: io_frame_def)
  have s: "sandevs w' = (sandevs w)(s := v)" by (subst v(1)) simp
  have "w'' = w\<lparr>memory := memory w'', nvme_hw := nvme_hw w'', nvme_devs := nvme_devs w'', now := now w'',
      intfs := intfs w'', sandevs := (sandevs w)(s := u)\<rparr>"
    by (subst u(1), subst v(1)) (simp add: s)
  moreover have "u = (sandevs w s)\<lparr>san_timer := san_timer u, command_rc := command_rc u\<rparr>"
    by (subst u(2), subst s, simp, subst v(2)) simp
  ultimately show ?thesis unfolding io_frame_def by blast
qed

interpretation nvme_reader: block_reader "\<lambda>n params. sandev_command n env s (Command_rw params)"
  "\<lambda>w. blksize (capacity (sandevs w s))" "\<lambda>w. env_ok env c \<and> ready c s p d w" memory
  "\<lambda>w. hc_disk c (nvme_hw w)" "driver_memory c d" "io_frame s"
  for env c s p d
proof (unfold_locales, goal_cases)
  case (1 w buf lba)
  then show ?case
    using sandev_command_reads [of env c s p d w buf lba] by (auto simp: blocks_read_def disk_blocks_def)
next
  case (2 w)
  then show ?case by (simp add: ready_def san_idle_def)
next
  case (3 w)
  show ?case by (rule io_frame_refl)
next
  case (4 w w' w'')
  then show ?case by (rule io_frame_trans)
qed

lemma sandev_read_ready:
  assumes "env_ok env c" "ready c s p d w" "region buf (512 * unat count) \<inter> driver_memory c d w = {}"
    and "512 * unat count \<le> 2 ^ 32"
  shows "\<exists>k w'. (\<forall>n>k. sandev_read n env s lba count buf w = Some (OK, w')) \<and>
     ready c s p d w' \<and> blocks_read c s d buf lba (unat count) w w'"
proof -
  have i: "blksize_shift (sandevs w s) = 0" "max_count (capacity (sandevs w s)) = 1"
    using assms(2) by (simp_all add: ready_def san_idle_def)
  obtain k w' where k: "\<forall>n>k. \<forall>m>k. rw_loop m (\<lambda>params. sandev_command n env s (Command_rw params))
      (\<lambda>w. blksize (capacity (sandevs w s)))
      \<lparr>rw_op = Block_read, rw_buffer = buf, rw_lba = lba, rw_count = 1\<rparr> count w = Some (OK, w')"
    "ready c s p d w'" "blocks_read c s d buf lba (unat count) w w'"
    using nvme_reader.rw_loop_reads [of env c s p d w buf count lba] assms
    by (auto simp: blocks_read_def)
  have "sandev_read n env s lba count buf w = Some (OK, w')" if "n > k" for n
    using k(1) that by (simp add: sandev_read_def sandev_rw_def i Let_def)
  with k(2,3) show ?thesis by blast
qed

text \<open>
  C6. Reading any number of blocks through a ready SAN device returns successfully, for every
  large enough fuel: the buffer holds exactly the blocks of the disk from the given address on,
  the disk is unchanged, no byte outside the buffer and the driver's own memory is, and the
  device is ready again. The fragments of one block each that the NVMe driver takes are put
  together without a gap.
\<close>

theorem sandev_read_correct:
  assumes "env_ok env c" "ready c s p d w" "region buf (512 * unat count) \<inter> driver_memory c d w = {}"
    and "512 * unat count \<le> 2 ^ 32"
  shows "\<exists>k w'. (\<forall>n>k. sandev_read n env s lba count buf w = Some (OK, w')) \<and>
     ready c s p d w' \<and> blocks_read c s d buf lba (unat count) w w'"
  using assms by (rule sandev_read_ready)

lemma ready_upd_priv [simp]: "ready c s p d (upd_priv t f w) = ready c s p d w"
proof -
  have "rings_ok v ctrl (upd_priv t f w) = rings_ok v ctrl w" for v ctrl
    by (auto intro: rings_ok_cong simp: upd_priv_def upd_sandev_def)
  then show ?thesis
    by (simp add: ready_def nvme_idle_def san_idle_def upd_priv_def upd_sandev_def virt_to_phys_def user_to_phys_def)
qed

lemma served_flags_ok: "served_flags 0 r AND CF = 0"
  using flag_bits(1) [of "served_flags 0 r"] by (simp add: served_flags_def Let_def bit_simps flag_bits(3,4))

lemma wrapper_answers:
  assumes "answers s r w" "int13_call n env (r_ah r) s (wrapper_regs r) w = Some (0, wrapper_regs r, w1)"
    and "r_ah r \<noteq> 0x15" "r_ah r \<noteq> 0x08"
  shows "int13_wrapper n env r w = Some (r\<lparr>r_ah := 0, r_flags := served_flags 0 r\<rparr>,
      upd_priv s (\<lambda>d. d\<lparr>last_status := 0\<rparr>) w1)"
proof -
  obtain pre post where "san_devices w = pre @ s # post"
    "list_all (\<lambda>s. \<not> serves r (sandevs w s) \<and> \<not> remaps r (sandevs w s)) pre"
    using assms(1) by (auto simp: answers_def)
  moreover have "(wrapper_regs r)\<lparr>r_ah := 0, r_flags := f, r_dl := r_dl r\<rparr> = r\<lparr>r_ah := 0, r_flags := f\<rparr>" for f
    by (rule i386_all_regs.equality) (simp_all add: wrapper_regs_def)
  ultimately show "int13_wrapper n env r w = Some (r\<lparr>r_ah := 0, r_flags := served_flags 0 r\<rparr>,
      upd_priv s (\<lambda>d. d\<lparr>last_status := 0\<rparr>) w1)"
    using assms wrapper_served [of w pre s post r n env 0 "wrapper_regs r" w1] by (auto simp: answers_def)
qed

lemma io_frame_virt_offset: "io_frame s w w' \<Longrightarrow> virt_offset w' = virt_offset w"
  unfolding io_frame_def by (elim exE conjE) (erule ssubst, simp)

lemma delivered_upd_priv: "blocks_read c s d buf lba n w w' \<Longrightarrow> delivered c d buf lba n w (upd_priv t f w')"
  using io_frame_virt_offset [of s w w'] by (simp add: blocks_read_def delivered_def upd_priv_def upd_sandev_def)

lemma ready_blksize: "ready c s p d w \<Longrightarrow> sandev_blksize s w = INT13_BLKSIZE"
  by (simp add: ready_def san_idle_def sandev_blksize_def INT13_BLKSIZE_def)

lemma unat_al: "unat (ucast (x :: u8) :: u32) = unat x"
  using unsigned_less [of x, where 'a = nat] by (simp add: unsigned_ucast_eq take_bit_nat_eq_self)

lemma wrapper_regs_chs:
  "chs_cylinder (wrapper_regs r) = chs_cylinder r" "chs_sector (wrapper_regs r) = chs_sector r"
  "r_dh (wrapper_regs r) = r_dh r" "r_al (wrapper_regs r) = r_al r" "r_es (wrapper_regs r) = r_es r"
  "r_bl (wrapper_regs r) = r_bl r" "r_bh (wrapper_regs r) = r_bh r"
  by (simp_all add: chs_cylinder_def chs_sector_def wrapper_regs_def)

lemma int13_reads:
  assumes e: "env_ok env c" and r: "ready c s p d w" and a: "answers s r w" "r_ah r = 0x02"
    and v: "chs_valid (priv (sandevs w s)) (chs_cylinder r) (ucast (r_dh r)) (chs_sector r)"
    and b: "buf = real_to_user w (r_es r) (word16 (r_bl r) (r_bh r))"
    and m: "region buf (512 * unat (r_al r)) \<inter> driver_memory c d w = {}"
  shows "\<exists>k w'. (\<forall>n>k. int13_wrapper n env r w = Some (r\<lparr>r_ah := 0, r_flags := served_flags 0 r\<rparr>, w')) \<and>
     ready c s p d w' \<and> delivered c d buf (ucast (chs_to_lba (priv (sandevs w s)) (chs_cylinder r) (ucast (r_dh r)) (chs_sector r)))
        (unat (r_al r)) w w'"
proof -
  let ?lba = "ucast (chs_to_lba (priv (sandevs w s)) (chs_cylinder r) (ucast (r_dh r)) (chs_sector r))"
  have "512 * unat (r_al r) \<le> 2 ^ 32" using unsigned_less [of "r_al r", where 'a = nat] by simp
  then obtain k w' where k: "\<forall>n>k. sandev_read n env s ?lba (ucast (r_al r)) buf w = Some (OK, w')"
      "ready c s p d w'" "blocks_read c s d buf ?lba (unat (r_al r)) w w'"
    using sandev_read_ready [OF e r, of buf "ucast (r_al r)" ?lba] m unfolding unat_al by blast
  have "int13_call n env (r_ah r) s (wrapper_regs r) w = Some (0, wrapper_regs r, w')" if "n > k" for n
    using k(1) that v ready_blksize [OF r]
    by (simp add: a(2) int13_call_def int13_read_sectors_def int13_rw_sectors_def Let_def wrapper_regs_chs b)
  then have "int13_wrapper n env r w = Some (r\<lparr>r_ah := 0, r_flags := served_flags 0 r\<rparr>,
      upd_priv s (\<lambda>d. d\<lparr>last_status := 0\<rparr>) w')" if "n > k" for n
    using wrapper_answers [OF a(1)] a(2) that by simp
  then show ?thesis using k(2) delivered_upd_priv [OF k(3)] ready_upd_priv by blast
qed

text \<open>
  C1. INT 13,02 for a drive that a ready SAN device provides, with a valid cylinder, head and
  sector: the call returns with the carry flag clear and \<open>%ah\<close> zero, all other registers as the
  caller left them, and the buffer at \<open>%es:%bx\<close> holds \<open>%al\<close> blocks of the NVMe disk from the
  linear address on; nothing else but the driver's own memory has changed, and the device is
  ready for the next call.
\<close>

theorem int13_read_correct:
  assumes "env_ok env c" and "ready c s p d w" and "answers s r w" "r_ah r = 0x02"
    and "chs_valid (priv (sandevs w s)) (chs_cylinder r) (ucast (r_dh r)) (chs_sector r)"
    and "buf = real_to_user w (r_es r) (word16 (r_bl r) (r_bh r))"
    and "region buf (512 * unat (r_al r)) \<inter> driver_memory c d w = {}"
  shows "served_flags 0 r AND CF = 0 \<and>
     (\<exists>k w'. (\<forall>n>k. int13_wrapper n env r w = Some (r\<lparr>r_ah := 0, r_flags := served_flags 0 r\<rparr>, w')) \<and>
        ready c s p d w' \<and>
        delivered c d buf (ucast (chs_to_lba (priv (sandevs w s)) (chs_cylinder r) (ucast (r_dh r)) (chs_sector r)))
          (unat (r_al r)) w w')"
  using int13_reads [OF assms] served_flags_ok by blast

text \<open>
  C7. The same for INT 13,42: the packet at \<open>%ds:%si\<close>, with a size from 16 to 32, names the
  block address, the count and the buffer, the latter two in the classic or the long form.
\<close>

theorem int13_extended_read_correct:
  assumes e: "env_ok env c" and r: "ready c s p d w" and a: "answers s r w" "r_ah r = 0x42"
    and f: "\<not> int13_is_fdd s w" and q: "q = real_to_user w (r_ds r) (r_si r)"
      "16 \<le> unat (rd8 (memory w) q)" "unat (rd8 (memory w) q) \<le> 32"
    and k: "packet_count (read_packet (memory w) q) = Some count"
    and b: "buf = packet_buffer w (read_packet (memory w) q)"
    and m: "region buf (512 * unat count) \<inter> driver_memory c d w = {}" "512 * unat count \<le> 2 ^ 32"
  shows "\<exists>k w'. (\<forall>n>k. int13_wrapper n env r w = Some (r\<lparr>r_ah := 0, r_flags := served_flags 0 r\<rparr>, w')) \<and>
     ready c s p d w' \<and> delivered c d buf (addr_lba (read_packet (memory w) q)) (unat count) w w'"
proof -
  let ?lba = "addr_lba (read_packet (memory w) q)"
  obtain j w' where j: "\<forall>n>j. sandev_read n env s ?lba count buf w = Some (OK, w')"
      "ready c s p d w'" "blocks_read c s d buf ?lba (unat count) w w'"
    using sandev_read_ready [OF e r m] by blast
  have g: "r_ds (wrapper_regs r) = r_ds r" "r_si (wrapper_regs r) = r_si r" by (simp_all add: wrapper_regs_def)
  have "int13_call n env (r_ah r) s (wrapper_regs r) w = Some (0, wrapper_regs r, w')" if "n > j" for n
    using j(1) that f q k b
    by (simp add: a(2) int13_call_def int13_extended_read_def int13_extended_rw_def Let_def g sizeof_disk_address_def)
  then have "int13_wrapper n env r w = Some (r\<lparr>r_ah := 0, r_flags := served_flags 0 r\<rparr>,
      upd_priv s (\<lambda>d. d\<lparr>last_status := 0\<rparr>) w')" if "n > j" for n
    using wrapper_answers [OF a(1)] a(2) that by simp
  then show ?thesis using j(2) delivered_upd_priv [OF j(3)] ready_upd_priv by blast
qed

lemma rd16_block:
  assumes "mem_read m a 512 = bs"
  shows "rd16 m (a + 510) = get16 bs 510"
proof -
  have "mem_read m (a + 510) 2 = take 2 (drop 510 bs)"
    unfolding assms [symmetric] by (intro nth_equalityI) (simp_all add: add.assoc)
  then show ?thesis by (simp add: rd16_def get16_def)
qed

lemma load_mbr_reads:
  assumes e: "env_ok env c" and r: "ready c s p d w" and b: "boots_from env s drv w"
    and m: "region (real_to_user w 0 0x7c00) 512 \<inter> driver_memory c d w = {}"
  shows "\<exists>k w'. (\<forall>n>k. int13_load_mbr n env drv w =
        Some (if get16 (hc_disk c (nvme_hw w) 0) 510 = INT13_MBR_MAGIC then OK else Err ENOEXEC,
              \<lparr>seg_offset = 0x7c00, seg_segment = 0\<rparr>, w')) \<and>
     ready c s p d w' \<and> delivered c d (real_to_user w 0 0x7c00) 0 1 w w'"
proof -
  let ?r = "(real_regs env 0x02 0x01 drv)\<lparr>r_es := 0, r_bl := 0, r_bh := 0x7c, r_cl := 1, r_ch := 0\<rparr>"
  let ?d = "priv (sandevs w s)" and ?buf = "real_to_user w 0 0x7c00"
  have "unat drv div 256 = 0" using b by (simp add: boots_from_def)
  then have "drop_bit 8 drv = 0" by (simp add: word_unat_eq_iff drop_bit_eq_div unat_div_distrib)
  then have dh: "r_dh ?r = 0" by (simp add: real_regs_def)
  have c: "chs_cylinder ?r = 0" "chs_sector ?r = 1" by (simp_all add: chs_cylinder_def chs_sector_def)
  have v: "chs_valid ?d (chs_cylinder ?r) (ucast (r_dh ?r)) (chs_sector ?r)"
    using b unfolding c dh by (auto simp: boots_from_def chs_valid_def)
  have l: "chs_to_lba ?d (chs_cylinder ?r) (ucast (r_dh ?r)) (chs_sector ?r) = 0"
    unfolding c dh by (simp add: chs_to_lba_def)
  have "\<exists>k w'. (\<forall>n>k. int13_wrapper n env ?r w = Some (?r\<lparr>r_ah := 0, r_flags := served_flags 0 ?r\<rparr>, w')) \<and>
     ready c s p d w' \<and> delivered c d ?buf (ucast (chs_to_lba ?d (chs_cylinder ?r) (ucast (r_dh ?r)) (chs_sector ?r)))
       (unat (r_al ?r)) w w'"
    by (rule int13_reads [OF e r _ _ v]) (use b m in \<open>simp_all add: boots_from_def real_regs_def word16_def\<close>)
  then obtain k w' where k: "\<forall>n>k. int13_wrapper n env ?r w = Some (?r\<lparr>r_ah := 0, r_flags := served_flags 0 ?r\<rparr>, w')"
      "ready c s p d w'" "delivered c d ?buf 0 1 w w'"
    unfolding l by (auto simp: real_regs_def)
  have "rd16 (memory w') (?buf + 510) = get16 (hc_disk c (nvme_hw w) 0) 510"
    using k(3) rd16_block [of "memory w'" ?buf] by (simp add: delivered_def disk_blocks_def)
  moreover have "real_to_user w' 0 0x7c00 = ?buf"
    using k(3) by (simp add: delivered_def real_to_user_def phys_to_user_def)
  ultimately have "int13_load_mbr n env drv w = Some (if get16 (hc_disk c (nvme_hw w) 0) 510 = INT13_MBR_MAGIC then OK else Err ENOEXEC,
              \<lparr>seg_offset = 0x7c00, seg_segment = 0\<rparr>, w')" if "n > k" for n
    using k(1) that b served_flags_ok [of ?r]
    by (simp add: int13_load_mbr_def int_0x13_def boots_from_def call_status_def Let_def)
  with k(2,3) show ?thesis by blast
qed

text \<open>
  C5. Booting from a ready drive whose first block ends in the boot signature starts the boot
  sector at 0000:7C00 with the drive number, in a state in which that address holds the first
  block of the disk; when the boot sector returns, so does the boot, with its error or with
  \<open>ECANCELED\<close>.
\<close>

theorem int13_boot_correct:
  assumes "env_ok env c" and "ready c s p d w" and "boots_from env s drv w"
    and "region (real_to_user w 0 0x7c00) 512 \<inter> driver_memory c d w = {}"
    and sig: "get16 (hc_disk c (nvme_hw w) 0) 510 = INT13_MBR_MAGIC"
  shows "\<exists>k w'. mem_read (memory w') (real_to_user w' 0 0x7c00) 512 = hc_disk c (nvme_hw w) 0 \<and> ready c s p d w' \<and>
     (\<forall>n>k. int13_boot n env drv w =
        do { (rc, w) \<leftarrow> bootsector env 0 0x7c00 drv w'; Some (if rc \<noteq> OK then rc else Err ECANCELED, w) })"
proof -
  obtain k w' where k: "\<forall>n>k. int13_load_mbr n env drv w = Some (OK, \<lparr>seg_offset = 0x7c00, seg_segment = 0\<rparr>, w')"
      "ready c s p d w'" "delivered c d (real_to_user w 0 0x7c00) 0 1 w w'"
    using load_mbr_reads [OF assms(1-4)] sig by auto
  then have "mem_read (memory w') (real_to_user w' 0 0x7c00) 512 = hc_disk c (nvme_hw w) 0"
    by (simp add: delivered_def disk_blocks_def real_to_user_def phys_to_user_def)
  with k show ?thesis by (intro exI [of _ k] exI [of _ w']) (simp add: int13_boot_def)
qed

section \<open>The concrete state\<close>

lemma ex_env_ok: "env_ok ex_rom ex_contract"
  using ref_controller [of "\<lambda>_ _. 0" 512]
  by (simp add: env_ok_def ex_rom_def ex_contract_def unquiesce_def SAN_COMMAND_TIMEOUT_def TICKS_PER_SEC_def)

lemma ex_world_rings: "rings_ok ex_view (ex_ctrl\<lparr>ctrl_ns := Some ex_ns\<rparr>) (ex_world\<lparr>nvme_hw := h\<rparr>)"
proof -
  have z: "rd32 (\<lambda>_. 0) a = 0" for a
    by (simp add: rd32_def get32_def mem_read_def map_replicate_const)
  have "\<not> phase_at ex_memory (0x2000 + 16 * of_nat s)" if "s < 2" for s
    using less_2_cases [OF that] by (auto simp: phase_at_def ex_memory_def rd_write_other ranges_disjoint_num z)
  moreover have "\<exists>p. 1 \<le> p \<and> p \<le> 15 \<and> (2 :: nat) = 2 ^ p" by (intro exI [of _ 1]) simp
  ultimately show ?thesis
    by (simp add: rings_ok_def ring_layout_def ex_world_def ex_view_def ex_ctrl_def Let_def
        rv_slot_def rv_phase_def virt_to_phys_def user_to_phys_def)
qed

lemma ex_regions:
  "region 0x3800 512 \<inter> rings_region (rv_len ex_view) (ex_ctrl\<lparr>ctrl_ns := Some ex_ns\<rparr>) = {}"
  "a = 0x7400 \<or> a = 0x4daa \<Longrightarrow>
   region a 1024 \<inter> (rings_region (rv_len ex_view) (ex_ctrl\<lparr>ctrl_ns := Some ex_ns\<rparr>) \<union> region 0x3800 512) = {}"
proof -
  have "region 0x3800 512 \<inter> region 0x1000 128 = {}" "region 0x3800 512 \<inter> region 0x2000 32 = {}"
    "region 0x7400 1024 \<inter> region 0x1000 128 = {}" "region 0x7400 1024 \<inter> region 0x2000 32 = {}"
    "region 0x7400 1024 \<inter> region 0x3800 512 = {}" "region 0x4daa 1024 \<inter> region 0x1000 128 = {}"
    "region 0x4daa 1024 \<inter> region 0x2000 32 = {}" "region 0x4daa 1024 \<inter> region 0x3800 512 = {}"
    by (auto simp: region_nat)
  then show "region 0x3800 512 \<inter> rings_region (rv_len ex_view) (ex_ctrl\<lparr>ctrl_ns := Some ex_ns\<rparr>) = {}"
    "a = 0x7400 \<or> a = 0x4daa \<Longrightarrow>
     region a 1024 \<inter> (rings_region (rv_len ex_view) (ex_ctrl\<lparr>ctrl_ns := Some ex_ns\<rparr>) \<union> region 0x3800 512) = {}"
    by (auto simp: rings_region_def ex_view_def ex_ctrl_def Let_def Int_Un_distrib)
qed

lemma ex_ready:
  assumes "\<And>l. length (f l) = 512"
  shows "ready ex_contract 0 0 0 (ex_world\<lparr>nvme_hw := ex_ctl\<lparr>rc_disk := f\<rparr>\<rparr>)"
proof -
  let ?w = "ex_world\<lparr>nvme_hw := ex_ctl\<lparr>rc_disk := f\<rparr>\<rparr>"
  have f: "nvme_devs ?w 0 = \<lparr>nvme_opened = True, nvme_ctrl_ptr = Some (ex_ctrl\<lparr>ctrl_ns := Some ex_ns\<rparr>)\<rparr>"
    "busy ?w = False" "nvme_dma_buffer ?w = 0x3800" "virt_offset ?w = 0x800" "nvme_hw ?w = ex_ctl\<lparr>rc_disk := f\<rparr>"
    "intfs ?w = ex_intfs" "sandevs ?w 0 = ex_sandev" "timers ?w = []" "run_queue ?w = [Retry_process]" "refcnts ?w = (\<lambda>_. 1)"
    by (simp_all add: ex_world_def)
  have "unat (virt_to_phys ?w 0x3800) mod 4096 = 0" by (simp add: virt_to_phys_def user_to_phys_def ex_world_def)
  then have "nvme_idle ex_contract 0 ?w"
    unfolding nvme_idle_def f using assms ex_world_rings ex_regions(1)
    by (simp add: ex_contract_def ref_quiet_def ex_ctl_def ex_ns_def ex_view_def)
  then show ?thesis
    unfolding ready_def f by (simp add: plugged_def san_idle_def ex_intfs_def ex_sandev_def permanent_def)
qed

lemma ex_driver_memory:
  assumes "a = 0x7400 \<or> a = 0x4daa" "n \<le> 1024"
  shows "region a n \<inter> driver_memory ex_contract 0 (ex_world\<lparr>nvme_hw := ex_ctl\<lparr>rc_disk := f\<rparr>\<rparr>) = {}"
proof -
  have "driver_memory ex_contract 0 (ex_world\<lparr>nvme_hw := ex_ctl\<lparr>rc_disk := f\<rparr>\<rparr>) =
      rings_region (rv_len ex_view) (ex_ctrl\<lparr>ctrl_ns := Some ex_ns\<rparr>) \<union> region 0x3800 512"
    by (simp add: driver_memory_def ex_contract_def ex_world_def ex_ctl_def)
  then show ?thesis using ex_regions(2) [OF assms(1)] region_mono [OF assms(2), of a] by auto
qed

lemma ex_world_disk: "ex_world = ex_world\<lparr>nvme_hw := ex_ctl\<lparr>rc_disk := rc_disk ex_ctl\<rparr>\<rparr>"
  by (simp add: ex_world_def)

lemma ex_world_ready: "ready ex_contract 0 0 0 ex_world"
  by (subst ex_world_disk) (rule ex_ready, simp add: ex_ctl_def)

lemma ex_answers:
  assumes "r_dl r = 0x80" "w = ex_world\<lparr>nvme_hw := h\<rparr>"
  shows "answers 0 r w"
proof -
  have w: "sandevs w 0 = ex_sandev" "san_devices w = [] @ 0 # []" by (simp_all add: assms(2) ex_world_def)
  have "int13_check_num_drives w = w" using ex_world_check(1) by (simp add: assms(2))
  then show ?thesis unfolding answers_def using assms(1) w by (intro conjI exI) (auto simp: serves_def ex_sandev_def)
qed

theorem sandev_read_correct_witness:
  "\<exists>k w'. (\<forall>n>k. sandev_read n ex_rom 0 5 2 0x7400 ex_world = Some (OK, w')) \<and>
     mem_read (memory w') 0x7400 1024 = replicate 512 5 @ replicate 512 6"
proof -
  have "region 0x7400 (512 * unat (2 :: u32)) \<inter> driver_memory ex_contract 0 ex_world = {}"
    by (subst ex_world_disk) (rule ex_driver_memory, simp_all)
  moreover have "disk_blocks (rc_disk ex_ctl) 5 2 = replicate 512 5 @ replicate 512 6"
    by (simp add: disk_blocks_def ex_ctl_def upt_rec)
  moreover have "hc_disk ex_contract (nvme_hw ex_world) = rc_disk ex_ctl" by (simp add: ex_contract_def ex_world_def)
  ultimately show ?thesis
    using sandev_read_correct [OF ex_env_ok ex_world_ready, of "0x7400" 2 5] by (auto simp: blocks_read_def)
qed

theorem int13_read_correct_witness:
  "\<exists>k w'. (\<forall>n>k. \<exists>f. int13_wrapper n ex_rom (ex_regs 0x02 0x80) ex_world =
       Some ((ex_regs 0x02 0x80)\<lparr>r_ah := 0, r_flags := f\<rparr>, w')) \<and> mem_read (memory w') 0x4daa 512 = replicate 512 0"
proof -
  have b: "0x4daa = real_to_user ex_world (r_es (ex_regs 0x02 0x80)) (word16 (r_bl (ex_regs 0x02 0x80)) (r_bh (ex_regs 0x02 0x80)))"
    by (simp add: real_to_user_def phys_to_user_def word16_def ex_regs_def ex_world_def)
  have m: "region 0x4daa (512 * unat (r_al (ex_regs 0x02 0x80))) \<inter> driver_memory ex_contract 0 ex_world = {}"
    by (subst ex_world_disk) (rule ex_driver_memory, simp_all add: ex_regs_def)
  have d: "priv (sandevs ex_world 0) = priv ex_sandev" "hc_disk ex_contract (nvme_hw ex_world) 0 = replicate 512 0"
    by (simp_all add: ex_world_def ex_contract_def ex_ctl_def)
  have v: "chs_cylinder (ex_regs 0x02 0x80) = 0" "chs_sector (ex_regs 0x02 0x80) = 1" "r_dh (ex_regs 0x02 0x80) = 0"
    by (simp_all add: chs_cylinder_def chs_sector_def ex_regs_def)
  then have v': "chs_valid (priv (sandevs ex_world 0)) (chs_cylinder (ex_regs 0x02 0x80)) (ucast (r_dh (ex_regs 0x02 0x80)))
      (chs_sector (ex_regs 0x02 0x80))"
    unfolding d v by (simp add: chs_valid_def ex_sandev_def)
  have a: "answers 0 (ex_regs 0x02 0x80) ex_world"
    by (rule ex_answers [where h = ex_ctl]) (simp_all add: ex_regs_def ex_world_def)
  have l: "chs_to_lba (priv (sandevs ex_world 0)) (chs_cylinder (ex_regs 0x02 0x80)) (ucast (r_dh (ex_regs 0x02 0x80)))
      (chs_sector (ex_regs 0x02 0x80)) = 0" "r_ah (ex_regs 0x02 0x80) = 0x02" "unat (r_al (ex_regs 0x02 0x80)) = 1"
    unfolding v by (simp_all add: chs_to_lba_def ex_regs_def)
  obtain k w' where "\<forall>n>k. int13_wrapper n ex_rom (ex_regs 0x02 0x80) ex_world =
       Some ((ex_regs 0x02 0x80)\<lparr>r_ah := 0, r_flags := served_flags 0 (ex_regs 0x02 0x80)\<rparr>, w')"
      "delivered ex_contract 0 0x4daa 0 1 ex_world w'"
    using int13_read_correct [OF ex_env_ok ex_world_ready a l(2) v' b m] unfolding l by auto
  then show ?thesis
    using d(2) by (intro exI [of _ k] exI [of _ w']) (auto simp: delivered_def disk_blocks_def)
qed

theorem int13_extended_read_correct_witness:
  "\<exists>k w'. (\<forall>n>k. \<exists>f. int13_wrapper n ex_rom ((ex_regs 0x42 0x80)\<lparr>r_si := 0x500\<rparr>) ex_world =
       Some ((ex_regs 0x42 0x80)\<lparr>r_si := 0x500, r_ah := 0, r_flags := f\<rparr>, w')) \<and>
     mem_read (memory w') 0x7400 512 = replicate 512 5"
proof -
  let ?r = "(ex_regs 0x42 0x80)\<lparr>r_si := 0x500\<rparr>"
  have q: "0xfffffd00 = real_to_user ex_world (r_ds ?r) (r_si ?r)"
    by (simp add: real_to_user_def phys_to_user_def ex_regs_def ex_world_def)
  have m: "mem_read (memory ex_world) 0xfffffd00 16 = [16, 0, 1, 0, 0, 0x7c, 0, 0, 5, 0, 0, 0, 0, 0, 0, 0]"
    "rd8 (memory ex_world) 0xfffffd00 = 16"
    by (simp_all add: ex_world_def ex_memory_def mem_read_write_same rd8_def) (simp add: mem_write_def)
  have p: "read_packet (memory ex_world) 0xfffffd00 = \<lparr>addr_bufsize = 16, addr_count = 1,
      addr_buffer = \<lparr>seg_offset = 0x7c00, seg_segment = 0\<rparr>, addr_lba = 5, addr_buffer_phys = 0, addr_long_count = 0\<rparr>"
  proof -
    have "read_packet (memory ex_world) 0xfffffd00 = decode_disk_address
        ([16, 0, 1, 0, 0, 0x7c, 0, 0, 5, 0, 0, 0, 0, 0, 0, 0] @ replicate 16 0)"
      by (simp add: read_packet_def m sizeof_disk_address_def)
    also have "\<dots> = \<lparr>addr_bufsize = 16, addr_count = 1, addr_buffer = \<lparr>seg_offset = 0x7c00, seg_segment = 0\<rparr>,
        addr_lba = 5, addr_buffer_phys = 0, addr_long_count = 0\<rparr>"
      by (simp add: decode_disk_address_def get8_def get16_def get32_def get64_def)
    finally show ?thesis .
  qed
  have b: "0x7400 = packet_buffer ex_world (read_packet (memory ex_world) 0xfffffd00)"
    unfolding p by (simp add: packet_buffer_def real_to_user_def phys_to_user_def ex_world_def)
  have c: "packet_count (read_packet (memory ex_world) 0xfffffd00) = Some 1" unfolding p by (simp add: packet_count_def)
  have g: "region 0x7400 (512 * unat (1 :: u32)) \<inter> driver_memory ex_contract 0 ex_world = {}"
    by (subst ex_world_disk) (rule ex_driver_memory, simp_all)
  have a: "answers 0 ?r ex_world" by (rule ex_answers [where h = ex_ctl]) (simp_all add: ex_regs_def ex_world_def)
  have f: "\<not> int13_is_fdd 0 ex_world" "r_ah ?r = 0x42"
    by (simp_all add: int13_is_fdd_def is_fdd_drive_def ex_world_def ex_sandev_def ex_regs_def)
  obtain k w' where "\<forall>n>k. int13_wrapper n ex_rom ?r ex_world = Some (?r\<lparr>r_ah := 0, r_flags := served_flags 0 ?r\<rparr>, w')"
      "delivered ex_contract 0 0x7400 5 1 ex_world w'"
    using int13_extended_read_correct [OF ex_env_ok ex_world_ready a f(2,1) q _ _ c b g] by (auto simp: m p)
  then show ?thesis
    by (intro exI [of _ k] exI [of _ w']) (auto simp: delivered_def disk_blocks_def ex_contract_def ex_world_def ex_ctl_def)
qed

theorem int13_boot_correct_witness:
  "\<exists>k w'. mem_read (memory w') (real_to_user w' 0 0x7c00) 512 = replicate 510 0 @ [0x55, 0xaa] \<and>
     (\<forall>n>k. int13_boot n ex_rom 0x80 ex_boot = Some (Err ECANCELED, w'))"
proof -
  let ?f = "\<lambda>_ :: u64. replicate 510 0 @ [0x55, 0xaa :: u8]"
  have r: "ready ex_contract 0 0 0 ex_boot" unfolding ex_boot_def by (rule ex_ready) simp
  have "read_vector 0x13 ex_boot = \<lparr>seg_offset = 0x100, seg_segment = 0x9000\<rparr>"
    by (simp add: read_vector_def real_to_user_def phys_to_user_def ex_boot_def ex_world_def ex_memory_def rd_write_other
        ranges_disjoint_num) (simp add: rd16_def mem_read_def mem_write_def get16_def upt_rec)
  moreover have "answers 0 r ex_boot" if "r_dl r = 0x80" for r
    by (rule ex_answers [OF that, where h = "ex_ctl\<lparr>rc_disk := ?f\<rparr>"]) (simp add: ex_boot_def)
  ultimately have b: "boots_from ex_rom 0 0x80 ex_boot"
    by (simp add: boots_from_def real_regs_def ex_rom_def ex_boot_def) (simp add: ex_world_def ex_sandev_def)
  have m: "region (real_to_user ex_boot 0 0x7c00) 512 \<inter> driver_memory ex_contract 0 ex_boot = {}"
    unfolding ex_boot_def
    by (rule ex_driver_memory) (simp_all add: real_to_user_def phys_to_user_def ex_world_def)
  have d: "hc_disk ex_contract (nvme_hw ex_boot) = ?f" by (simp add: ex_contract_def ex_boot_def)
  have s: "get16 (hc_disk ex_contract (nvme_hw ex_boot) 0) 510 = INT13_MBR_MAGIC"
    unfolding d by (simp add: get16_def INT13_MBR_MAGIC_def)
  show ?thesis
    using int13_boot_correct [OF ex_env_ok r b m s] unfolding d by (auto simp: ex_rom_def)
qed

end
