(* ===== verification/Disk_Write.thy ===== *)
theory Disk_Write
  imports Disk_Read
begin

text \<open>
  Writing through all the layers, from the same ready states as in \<open>Disk_Read\<close>: the command is
  started, completed and reported as successful without a transfer.
\<close>

section \<open>Commands without effect\<close>

text \<open>A command that has left memory, the controller and the driver's view of it alone.\<close>

definition nothing_done :: "nat \<Rightarrow> 'h world \<Rightarrow> 'h world \<Rightarrow> bool" where
  "nothing_done s w w' \<longleftrightarrow> io_frame s w w' \<and> memory w' = memory w \<and> nvme_hw w' = nvme_hw w \<and> nvme_devs w' = nvme_devs w"

section \<open>Lemmas\<close>

lemma nothing_done_trans: "nothing_done s w w1 \<Longrightarrow> nothing_done s w1 w2 \<Longrightarrow> nothing_done s w w2"
  by (auto simp: nothing_done_def intro: io_frame_trans)

lemma write_command_running:
  assumes "ready c s p d w"
  shows "sandev_command_rw n env s \<lparr>rw_op = Block_write, rw_buffer = buf, rw_lba = lba, rw_count = 1\<rparr> w =
    Some (OK, command_running s d w)"
proof -
  let ?w = "w\<lparr>refcnts := (refcnts w)(Nvme_obj d := refcnts w (Nvme_obj d) + 1)\<rparr>"
  have "nvme_start d (San_command s) ?w = Some (command_running s d ?w)"
    using assms by (intro nvme_start_running [of s p]) (simp_all add: ready_def)
  then show ?thesis
    using assms
    by (simp add: sandev_command_rw_def block_write_def nvme_write_def intf_get_dest_op_def plugged_def ready_def san_idle_def
        intf_get_def ref_increment_def intf_put_def ref_decrement_def command_running_def Let_def fun_upd_twist)
qed

lemma command_done_nothing:
  assumes r: "ready c s p d w" and e: "command_done s w w'"
  shows "ready c s p d w' \<and> nothing_done s w w' \<and> command_rc (sandevs w' s) = OK"
proof -
  obtain t tm where tm: "\<not> timer_running tm" and w': "w' = w\<lparr>
      intfs := (intfs w)(Dummy_intf := (intfs w Dummy_intf)\<lparr>intf_desc := Some Null_desc\<rparr>),
      sandevs := (sandevs w)(s := (sandevs w s)\<lparr>san_timer := tm, command_rc := OK\<rparr>), now := t\<rparr>"
    using e by (auto simp: command_done_def)
  have "nvme_idle c d w'"
    using r rings_ok_cong [of _ _ w w'] by (auto simp: ready_def nvme_idle_def w' virt_to_phys_def user_to_phys_def)
  then have "ready c s p d w'"
    using r tm by (auto simp: ready_def plugged_def san_idle_def w')
  moreover have "io_frame s w w'"
    unfolding io_frame_def
    by (rule exI [of _ "(sandevs w s)\<lparr>san_timer := tm, command_rc := OK\<rparr>"])
      (rule conjI, rule world.equality, simp_all add: w')
  ultimately show ?thesis by (simp add: nothing_done_def w')
qed

lemma sandev_command_writes:
  assumes e: "env_ok env c" and r: "ready c s p d w"
  shows "\<exists>k w'. (\<forall>n>k. \<forall>buf lba. sandev_command n env s (Command_rw \<lparr>rw_op = Block_write, rw_buffer = buf, rw_lba = lba, rw_count = 1\<rparr>) w =
       Some (OK, w')) \<and> ready c s p d w' \<and> nothing_done s w w'"
proof -
  obtain w' where w': "command_done s w w'" "\<forall>n. wait_command (length (run_queue w) + Suc (Suc (Suc n))) env s
     (start_timer_fixed env s SAN_COMMAND_TIMEOUT (command_running s d w)) = Some w'"
    using wait_command_completes [OF e r] by blast
  note d = command_done_nothing [OF r w'(1)]
  have "sandev_command n env s (Command_rw \<lparr>rw_op = Block_write, rw_buffer = buf, rw_lba = lba, rw_count = 1\<rparr>) w = Some (OK, w')"
    if n: "n > length (run_queue w) + 4" for n buf lba
  proof -
    obtain m where m: "n = Suc m" "m = length (run_queue w) + Suc (Suc (Suc (m - length (run_queue w) - 3)))"
      using n by (cases n) auto
    have "wait_command m env s (start_timer_fixed env s SAN_COMMAND_TIMEOUT (command_running s d w)) = Some w'"
      by (subst m(2)) (rule w'(2) [rule_format])
    moreover have "active (sandevs w s) = Some p" "unquiesce env w = w"
      using r e by (simp_all add: ready_def san_idle_def env_ok_def)
    ultimately show ?thesis
      using m(1) write_command_running [OF r, of m env buf lba] d
      by (simp add: sandev_command_def command_attempt_def del: wait_command.simps)
  qed
  with d show ?thesis by blast
qed

lemma rw_loop_writes:
  assumes "env_ok env c" "ready c s p d w"
  shows "\<exists>k w'. (\<forall>n>k. \<forall>m>k. rw_loop m (\<lambda>params. sandev_command n env s (Command_rw params)) (\<lambda>w. blksize (capacity (sandevs w s)))
         \<lparr>rw_op = Block_write, rw_buffer = buf, rw_lba = lba, rw_count = 1\<rparr> count w = Some (OK, w')) \<and>
       ready c s p d w' \<and> nothing_done s w w'"
  using assms(2)
proof (induction "unat count" arbitrary: count buf lba w)
  case 0
  then have "count = 0" by (simp add: unat_eq_0)
  moreover have "rw_loop m f b q 0 w = Some (OK, w)" if "m > 0" for m f b q using that by (cases m) auto
  moreover have "nothing_done s w w" by (simp add: nothing_done_def io_frame_refl)
  ultimately show ?case using 0 by blast
next
  case (Suc j)
  have j: "unat (count - 1) = j" "count \<noteq> 0" using Suc.hyps(2) by (auto simp: unat_sub_if_size word_size)
  obtain k1 w1 where w1: "\<forall>n>k1. \<forall>buf lba. sandev_command n env s (Command_rw \<lparr>rw_op = Block_write, rw_buffer = buf, rw_lba = lba, rw_count = 1\<rparr>) w =
       Some (OK, w1)" "ready c s p d w1" "nothing_done s w w1"
    using sandev_command_writes [OF assms(1) Suc.prems] by blast
  obtain k2 w' where w': "\<forall>n>k2. \<forall>m>k2. rw_loop m (\<lambda>params. sandev_command n env s (Command_rw params)) (\<lambda>w. blksize (capacity (sandevs w s)))
         \<lparr>rw_op = Block_write, rw_buffer = buf + blksize (capacity (sandevs w1 s)), rw_lba = lba + 1, rw_count = 1\<rparr> (count - 1) w1 = Some (OK, w')"
      "ready c s p d w'" "nothing_done s w1 w'"
    using Suc.hyps(1) [OF j(1) [symmetric] w1(2)] by blast
  have "rw_loop m (\<lambda>params. sandev_command n env s (Command_rw params)) (\<lambda>w. blksize (capacity (sandevs w s)))
         \<lparr>rw_op = Block_write, rw_buffer = buf, rw_lba = lba, rw_count = 1\<rparr> count w = Some (OK, w')"
    if "n > k1 + k2" "m > k1 + k2 + 1" for n m
    using that j w1(1) w'(1) word_less_1 [of count] by (cases m) auto
  then show ?case
    using w'(2) nothing_done_trans [OF w1(3) w'(3)] by (intro exI [of _ "k1 + k2 + 1"] exI [of _ w']) auto
qed

lemma sandev_write_ready:
  assumes "env_ok env c" "\<And>w. quiesce env w = w" "ready c s p d w"
  shows "\<exists>k w'. (\<forall>n>k. sandev_write n env s lba count buf w = Some (OK, w')) \<and> ready c s p d w' \<and> nothing_done s w w'"
proof -
  have i: "blksize_shift (sandevs w s) = 0" "max_count (capacity (sandevs w s)) = 1"
    using assms(3) by (simp_all add: ready_def san_idle_def)
  obtain k w' where k: "\<forall>n>k. \<forall>m>k. rw_loop m (\<lambda>params. sandev_command n env s (Command_rw params)) (\<lambda>w. blksize (capacity (sandevs w s)))
         \<lparr>rw_op = Block_write, rw_buffer = buf, rw_lba = lba, rw_count = 1\<rparr> count w = Some (OK, w')"
       "ready c s p d w'" "nothing_done s w w'"
    using rw_loop_writes [OF assms(1,3), of buf lba count] by blast
  have "sandev_write n env s lba count buf w = Some (OK, w')" if "n > k" for n
    using k(1) that assms(2) by (simp add: sandev_write_def sandev_rw_def i Let_def)
  with k(2,3) show ?thesis by blast
qed

section \<open>Properties\<close>

text \<open>
  C9. INT 13,03 for a drive that a ready SAN device provides, with a valid cylinder, head and sector, returns with
  the carry flag clear and \<open>%ah\<close> zero, but the controller never sees a command: its state and memory are unchanged,
  and the data is not on the disk.
\<close>

theorem int13_write_discarded:
  assumes "env_ok env c" "\<And>w. quiesce env w = w" and r: "ready c s p d w" and a: "answers s r w" "r_ah r = 0x03"
    and v: "chs_valid (priv (sandevs w s)) (chs_cylinder r) (ucast (r_dh r)) (chs_sector r)"
  shows "served_flags 0 r AND CF = 0 \<and>
     (\<exists>k w'. (\<forall>n>k. int13_wrapper n env r w = Some (r\<lparr>r_ah := 0, r_flags := served_flags 0 r\<rparr>, w')) \<and>
        ready c s p d w' \<and> memory w' = memory w \<and> nvme_hw w' = nvme_hw w)"
proof -
  let ?lba = "ucast (chs_to_lba (priv (sandevs w s)) (chs_cylinder r) (ucast (r_dh r)) (chs_sector r))"
  let ?buf = "real_to_user w (r_es r) (word16 (r_bl r) (r_bh r))"
  obtain k w' where k: "\<forall>n>k. sandev_write n env s ?lba (ucast (r_al r)) ?buf w = Some (OK, w')"
      "ready c s p d w'" "nothing_done s w w'"
    using sandev_write_ready [OF assms(1-3)] by blast
  have "int13_call n env (r_ah r) s (wrapper_regs r) w = Some (0, wrapper_regs r, w')" if "n > k" for n
    using k(1) that v ready_blksize [OF r]
    by (simp add: a(2) int13_call_def int13_write_sectors_def int13_rw_sectors_def Let_def wrapper_regs_chs)
  then have "int13_wrapper n env r w = Some (r\<lparr>r_ah := 0, r_flags := served_flags 0 r\<rparr>,
      upd_priv s (\<lambda>d. d\<lparr>last_status := 0\<rparr>) w')" if "n > k" for n
    using wrapper_answers [OF a(1)] a(2) that by simp
  moreover have "memory (upd_priv t f w') = memory w" "nvme_hw (upd_priv t f w') = nvme_hw w" for t f
    using k(3) by (simp_all add: nothing_done_def upd_priv_def upd_sandev_def)
  ultimately show ?thesis using k(2) served_flags_ok ready_upd_priv by blast
qed

theorem int13_write_discarded_witness:
  "\<exists>k w'. (\<forall>n>k. \<exists>f. int13_wrapper n ex_rom (ex_regs 0x03 0x80) ex_world =
       Some ((ex_regs 0x03 0x80)\<lparr>r_ah := 0, r_flags := f\<rparr>, w')) \<and> rc_disk (nvme_hw w') = rc_disk ex_ctl"
proof -
  have v: "chs_cylinder (ex_regs 0x03 0x80) = 0" "chs_sector (ex_regs 0x03 0x80) = 1" "r_dh (ex_regs 0x03 0x80) = 0"
    by (simp_all add: chs_cylinder_def chs_sector_def ex_regs_def)
  then have v': "chs_valid (priv (sandevs ex_world 0)) (chs_cylinder (ex_regs 0x03 0x80)) (ucast (r_dh (ex_regs 0x03 0x80)))
      (chs_sector (ex_regs 0x03 0x80))"
    unfolding v by (simp add: chs_valid_def ex_sandev_def ex_world_def)
  have a: "answers 0 (ex_regs 0x03 0x80) ex_world" "r_ah (ex_regs 0x03 0x80) = 0x03"
    by (rule ex_answers [where h = ex_ctl]) (simp_all add: ex_regs_def ex_world_def)
  obtain k w' where "\<forall>n>k. int13_wrapper n ex_rom (ex_regs 0x03 0x80) ex_world =
       Some ((ex_regs 0x03 0x80)\<lparr>r_ah := 0, r_flags := served_flags 0 (ex_regs 0x03 0x80)\<rparr>, w')" "nvme_hw w' = nvme_hw ex_world"
    using int13_write_discarded [OF ex_env_ok _ ex_world_ready a v'] by (auto simp: quiesce_def ex_rom_def)
  then show ?thesis by (intro exI [of _ k] exI [of _ w']) (auto simp: ex_world_def)
qed

end
