(* ===== verification/San_Retry.thy ===== *)
theory San_Retry
  imports Disk_Read
begin

text \<open>
  SAN commands that cannot be carried out, and the loops of \<open>src/src/core/sanboot.c\<close> and
  \<open>src/src/core/timer.c\<close> that end by themselves: the delay between two attempts, the attempts
  of a command, and the search for the CD-ROM block size.
\<close>

section \<open>States without an open path\<close>






section \<open>Lemmas\<close>

















lemma cdrom_shift_returns:
  assumes "0 < bs" "2048 \<le> unat bs * 2 ^ j" "j < n"
  shows "\<exists>i\<le>j. cdrom_shift n bs shift = Some (push_bit i bs, shift + i) \<and> unat (push_bit i bs) = unat bs * 2 ^ i \<and>
    2048 \<le> unat bs * 2 ^ i \<and> (i = 0 \<or> unat bs * 2 ^ i < 4096)"
  using assms
proof (induction j arbitrary: n bs shift)
  case 0
  then show ?case by (cases n) (auto simp: ISO9660_BLKSIZE_def word_less_nat_alt)
next
  case (Suc j)
  obtain m where m: "n = Suc m" "j < m" using Suc.prems(3) by (cases n) auto
  show ?case
  proof (cases "bs < ISO9660_BLKSIZE")
    case False
    then show ?thesis
      by (intro exI [of _ 0]) (simp add: m ISO9660_BLKSIZE_def word_less_nat_alt not_less)
  next
    case True
    then have l: "unat bs < 2048" by (simp add: ISO9660_BLKSIZE_def word_less_nat_alt)
    have d: "push_bit 1 bs = 2 * bs" by (simp add: push_bit_eq_mult)
    have u: "unat (push_bit 1 bs) = 2 * unat bs" using l unfolding d by (simp add: unat_word_ariths)
    have "0 < push_bit 1 bs" using u Suc.prems(1) by (simp add: word_less_nat_alt)
    then obtain i where i: "i \<le> j" "cdrom_shift m (push_bit 1 bs) (Suc shift) = Some (push_bit i (push_bit 1 bs), Suc shift + i)"
        "unat (push_bit i (push_bit 1 bs)) = unat (push_bit 1 bs) * 2 ^ i" "2048 \<le> unat (push_bit 1 bs) * 2 ^ i"
        "i = 0 \<or> unat (push_bit 1 bs) * 2 ^ i < 4096"
      using Suc.IH [of "push_bit 1 bs" m "Suc shift"] Suc.prems(2) m(2) u by (auto simp: ac_simps)
    have p: "push_bit (Suc i) bs = push_bit i (push_bit 1 bs)" by (simp add: push_bit_push_bit)
    show ?thesis
      using i l u True by (intro exI [of _ "Suc i"]) (auto simp: m p ac_simps simp del: push_bit_Suc push_bit_push_bit)
  qed
qed

section \<open>Properties\<close>



text \<open>
  C33. For a block size other than 0 the search for the shift to the CD-ROM block size ends within twelve turns,
  without overflow, at the first power of two times the block size that reaches 2048.
\<close>

theorem cdrom_shift_terminates:
  assumes "0 < bs" "12 \<le> n"
  shows "\<exists>i\<le>11. cdrom_shift n bs 0 = Some (push_bit i bs, i) \<and> unat (push_bit i bs) = unat bs * 2 ^ i \<and>
    2048 \<le> unat bs * 2 ^ i \<and> (i = 0 \<or> unat bs * 2 ^ i < 4096)"
  using cdrom_shift_returns [of bs 11 n 0] assms by (simp add: word_less_nat_alt)

theorem cdrom_shift_terminates_witness:
  "\<exists>i\<le>11. cdrom_shift 12 512 0 = Some (push_bit i 512, i) \<and> 2048 \<le> 512 * (2 :: nat) ^ i \<and> (i = 0 \<or> 512 * (2 :: nat) ^ i < 4096)"
  using cdrom_shift_terminates [of 512 12] by auto

text \<open>For a block size of 0 it never ends.\<close>

theorem cdrom_shift_zero: "cdrom_shift n 0 shift = None"
  by (induction n arbitrary: shift) (simp_all add: ISO9660_BLKSIZE_def)

end
