(* ===== verification/Nvme_Init.thy ===== *)
theory Nvme_Init
  imports Nvme_Admin Nvme_Ring
begin

text \<open>
  From the heap to the rings: what \<open>nvme_init_cq\<close> and \<open>nvme_init_sq\<close> of \<open>Nvme_Queue\<close>
  establish for the I/O queues, in terms of the invariant of \<open>Nvme_Ring\<close> that every transfer
  relies on.
\<close>

section \<open>Fresh rings\<close>

text \<open>The view of the I/O queues when they have just been initialised, with a length of \<open>len\<close>.\<close>

definition initial_view :: "nat \<Rightarrow> nvme_ctrl \<Rightarrow> ('h, 'z) nvme_state_scheme \<Rightarrow> ring_view" where
  "initial_view len ctrl w =
     \<lparr>rv_sq = virt_to_phys w (sq_sqe (io_sq ctrl)), rv_cq = virt_to_phys w (cq_cqe (io_cq ctrl)),
      rv_sqdbl = ctrl_reg ctrl + 0x1000 + 2 * doorbell_stride ctrl,
      rv_cqdbl = ctrl_reg ctrl + 0x1000 + 3 * doorbell_stride ctrl, rv_len = len, rv_n = 0\<rparr>"

text \<open>A controller whose queues have two entries, and a heap of 16 KB.\<close>

definition ex_cap_env :: "(ref_ctl, ref_ctl nvme_state) nvme_env" where
  "ex_cap_env = (ex_env 0)\<lparr>mmio_read64 := \<lambda>_ _. 1\<rparr>"

definition ex_pool :: "ref_ctl nvme_state" where
  "ex_pool = ex_state\<lparr>free_blocks := [(0x1000, 0x4000)]\<rparr>"

section \<open>Lemmas\<close>

lemma dma_alloc_pool:
  assumes "pool_ok voff lo hi w" "discarders env = []" "dma_alloc (Suc n) env sz 4096 w = Some (e, w')" "e \<noteq> 0"
    "unat sz = c"
  shows "pool_ok voff lo hi w' \<and> memory w' = memory w \<and> unat e + c \<le> 2 ^ 32 \<and>
    {unat e ..< unat e + c} \<subseteq> free_set (free_blocks w) \<and>
    free_set (free_blocks w') \<inter> {unat e ..< unat e + c} = {}"
proof -
  have "(2 :: u32) ^ 12 = 4096" by simp
  then have "malloc_phys (Suc n) [] sz (2 ^ 12) w = Some (e, w')" using assms(2,3) by (simp add: dma_alloc_def)
  note m = malloc_phys_pool [OF assms(1) _ this]
  have "hi \<le> 2 ^ 32" using assms(1) by (simp add: pool_ok_def heap_ok_def region_ok_def)
  then show ?thesis using m assms(4,5) by (auto simp: span_def)
qed

lemma io_queue_length_le: "unat (io_queue_length env ctrl w) \<le> 256"
  by (auto simp: io_queue_length_def Let_def NVME_PAGE_SIZE_def NVME_CQE_SIZE_def word_less_nat_alt not_less)

lemma phase_at_memset:
  assumes "s < len" "16 * len \<le> 2 ^ 32"
  shows "\<not> phase_at (memset a 0 (16 * len) m) (a + 16 * of_nat s)"
proof -
  have "unat (16 * of_nat s :: u32) = 16 * s" using unat_scale [OF assms] by simp
  then have "unat (16 * of_nat s + 12 :: u32) = 16 * s + 12"
    using assms by (subst unat_add_no_wrap) auto
  then have "rd32 (memset a 0 (16 * len) m) (a + (16 * of_nat s + 12)) = 0"
    using assms by (intro rd_memset) auto
  then show ?thesis by (simp add: phase_at_def add.assoc)
qed

lemma init_cq_io:
  assumes "pool_ok voff lo hi w" "discarders env = []" "nvme_init_cq (Suc n) env IO i len ctrl w = Some (rc, ctrl', w')"
  shows "\<exists>e. e \<noteq> 0 \<and> ctrl' = ctrl\<lparr>io_cq := \<lparr>cq_common = nvme_init_queue_common ctrl i len, cq_cqe = e, cq_head = 0, cq_phase = 1\<rparr>\<rparr> \<and>
    pool_ok voff lo hi w' \<and> memory w' = memset e 0 (16 * unat len) (memory w) \<and> unat e + 16 * unat len \<le> 2 ^ 32 \<and>
    free_set (free_blocks w') \<inter> {unat e ..< unat e + 16 * unat len} = {}"
proof -
  obtain e w1 where e: "dma_alloc (Suc n) env (NVME_CQE_SIZE * ucast len) 4096 w = Some (e, w1)" "e \<noteq> 0"
      "w' = mem_upd (memset e 0 (16 * unat len)) w1"
      "ctrl' = ctrl\<lparr>io_cq := \<lparr>cq_common = nvme_init_queue_common ctrl i len, cq_cqe = e, cq_head = 0, cq_phase = 1\<rparr>\<rparr>"
    using assms(3) by (auto simp: nvme_init_cq_def Option.bind_eq_Some_conv split: if_splits)
  have "unat (NVME_CQE_SIZE * ucast len) = 16 * unat len"
    using unsigned_less [of len, where 'a = nat] by (simp add: NVME_CQE_SIZE_def unat_word_ariths unat_ucast_u16)
  from dma_alloc_pool [OF assms(1,2) e(1,2) this] show ?thesis
    using e by (intro exI [of _ e]) (simp add: pool_ok_def heap_ok_def mem_upd_def)
qed

lemma init_sq_io:
  assumes "pool_ok voff lo hi w" "discarders env = []" "nvme_init_sq (Suc n) env IO i len IO ctrl w = Some (rc, ctrl', w')"
  shows "\<exists>e. e \<noteq> 0 \<and> ctrl' = ctrl\<lparr>io_sq := \<lparr>sq_common = nvme_init_queue_common ctrl i len, sq_sqe = e, sq_cq = IO, sq_head = 0, sq_tail = 0\<rparr>\<rparr> \<and>
    pool_ok voff lo hi w' \<and> memory w' = memset e 0 (64 * unat len) (memory w) \<and> unat e + 64 * unat len \<le> 2 ^ 32 \<and>
    {unat e ..< unat e + 64 * unat len} \<subseteq> free_set (free_blocks w)"
proof -
  obtain e w1 where e: "dma_alloc (Suc n) env (NVME_SQE_SIZE * ucast len) 4096 w = Some (e, w1)" "e \<noteq> 0"
      "w' = mem_upd (memset e 0 (64 * unat len)) w1"
      "ctrl' = ctrl\<lparr>io_sq := \<lparr>sq_common = nvme_init_queue_common ctrl i len, sq_sqe = e, sq_cq = IO, sq_head = 0, sq_tail = 0\<rparr>\<rparr>"
    using assms(3) by (auto simp: nvme_init_sq_def Option.bind_eq_Some_conv split: if_splits)
  have "unat (NVME_SQE_SIZE * ucast len) = 64 * unat len"
    using unsigned_less [of len, where 'a = nat] by (simp add: NVME_SQE_SIZE_def unat_word_ariths unat_ucast_u16)
  from dma_alloc_pool [OF assms(1,2) e(1,2) this] show ?thesis
    using e by (intro exI [of _ e]) (simp add: pool_ok_def heap_ok_def mem_upd_def)
qed

text \<open>Two freshly initialised rings that lie apart, with no phase tag set, are in step.\<close>

lemma initial_rings:
  assumes l: "unat l = 2 ^ p" "1 \<le> p" "unat (l :: u32) \<le> 256"
    and c: "io_cq ctrl' = \<lparr>cq_common = nvme_init_queue_common ctrl' 3 (ucast l), cq_cqe = e, cq_head = 0, cq_phase = 1\<rparr>"
      "io_sq ctrl' = \<lparr>sq_common = nvme_init_queue_common ctrl' 2 (ucast l), sq_sqe = f, sq_cq = IO, sq_head = 0, sq_tail = 0\<rparr>"
    and lay: "ring_layout (unat l) ctrl'" and ph: "\<And>s. s < unat l \<Longrightarrow> \<not> phase_at (memory w') (e + 16 * of_nat s)"
  shows "rings_ok (initial_view (unat l) ctrl' w') ctrl' w'"
proof -
  let ?v = "initial_view (unat l) ctrl' w'"
  have "p \<le> 15"
  proof (rule ccontr)
    assume "\<not> p \<le> 15"
    then have "2 ^ 16 \<le> (2 :: nat) ^ p" by (intro power_increasing) auto
    then show False using l(1,3) by simp
  qed
  then have q: "\<exists>q. 1 \<le> q \<and> q \<le> 15 \<and> unat l = 2 ^ q" using l by auto
  have u: "unat (ucast l :: u16) = unat l" using l(3) by (simp add: unsigned_ucast_eq take_bit_nat_eq_self)
  have "1 \<le> unat l" using l(1) by simp
  have "of_nat (unat (ucast l :: u16)) = (ucast l :: u16)" by simp
  then have mask: "(ucast l :: u16) - 1 = of_nat (unat l - 1)" unfolding u of_nat_diff [OF \<open>1 \<le> unat l\<close>] by simp
  have "q_mask (sq_common (io_sq ctrl')) = ucast l - 1" "q_mask (cq_common (io_cq ctrl')) = ucast l - 1"
    by (simp_all add: c nvme_init_queue_common_def)
  note masks = this [unfolded mask]
  have v: "rv_slot ?v = 0" "rv_phase ?v" "rv_len ?v = unat l" "rv_sq ?v = virt_to_phys w' (sq_sqe (io_sq ctrl'))"
      "rv_cq ?v = virt_to_phys w' (cq_cqe (io_cq ctrl'))"
    by (simp_all add: initial_view_def rv_slot_def rv_phase_def)
  have d: "sq_cq (io_sq ctrl') = IO" "sq_head (io_sq ctrl') = of_nat 0" "sq_tail (io_sq ctrl') = of_nat 0"
    "cq_head (io_cq ctrl') = of_nat 0" "cq_phase (io_cq ctrl') = of_bool True" "cq_cqe (io_cq ctrl') = e"
    "q_dbl (sq_common (io_sq ctrl')) = rv_sqdbl ?v" "q_dbl (cq_common (io_cq ctrl')) = rv_cqdbl ?v"
    by (simp_all add: c initial_view_def nvme_init_queue_common_def)
  show ?thesis
    unfolding rings_ok_def Let_def v(1,3-5)
    by (intro conjI q lay masks d refl) (use v(2) d ph in auto)
qed

section \<open>Properties\<close>

text \<open>
  C10. When the length that the driver derives from the capabilities of the controller is a power of two, initialising
  the I/O completion queue and then the I/O submission queue in a well-formed heap establishes the invariant of the
  transfers, for a controller that has not executed a command yet: the rings do not overlap, no completion slot
  carries the current phase tag, and the heap is well formed again.
\<close>

theorem io_queues_initialised:
  assumes "pool_ok voff lo hi w" "discarders env = []" and len: "unat (io_queue_length env ctrl w) = 2 ^ p" "1 \<le> p"
    and cq: "nvme_init_cq (Suc n) env IO 3 (ucast (io_queue_length env ctrl w)) ctrl w = Some (rc, ctrl1, w1)"
    and sq: "nvme_init_sq (Suc m) env IO 2 (ucast (io_queue_length env ctrl w)) IO ctrl1 w1 = Some (rc', ctrl', w')"
  shows "rings_ok (initial_view (unat (io_queue_length env ctrl w)) ctrl' w') ctrl' w' \<and> pool_ok voff lo hi w'"
proof -
  define l where "l = io_queue_length env ctrl w"
  have le: "unat l \<le> 256" using io_queue_length_le by (simp add: l_def)
  have u: "unat (ucast l :: u16) = unat l" using le by (simp add: unsigned_ucast_eq take_bit_nat_eq_self)
  obtain e where e: "ctrl1 = ctrl\<lparr>io_cq := \<lparr>cq_common = nvme_init_queue_common ctrl 3 (ucast l), cq_cqe = e, cq_head = 0, cq_phase = 1\<rparr>\<rparr>"
      "pool_ok voff lo hi w1" "memory w1 = memset e 0 (16 * unat l) (memory w)" "unat e + 16 * unat l \<le> 2 ^ 32"
      "free_set (free_blocks w1) \<inter> {unat e ..< unat e + 16 * unat l} = {}"
    using init_cq_io [OF assms(1,2) cq] u by (auto simp: l_def)
  obtain f where f: "f \<noteq> 0" "ctrl' = ctrl1\<lparr>io_sq := \<lparr>sq_common = nvme_init_queue_common ctrl1 2 (ucast l), sq_sqe = f, sq_cq = IO, sq_head = 0, sq_tail = 0\<rparr>\<rparr>"
      "pool_ok voff lo hi w'" "memory w' = memset f 0 (64 * unat l) (memory w1)" "unat f + 64 * unat l \<le> 2 ^ 32"
      "{unat f ..< unat f + 64 * unat l} \<subseteq> free_set (free_blocks w1)"
    using init_sq_io [OF e(2) assms(2) sq] u by (auto simp: l_def)
  have dj: "{unat f ..< unat f + 64 * unat l} \<inter> {unat e ..< unat e + 16 * unat l} = {}" using e(5) f(6) by blast
  have so: "same_outside (region f (64 * unat l)) (memory w1) (memory w')"
    unfolding f(4) memset_def by (rule same_outside_write [where n = "64 * unat l"]) simp_all
  have r: "region f (64 * unat l) \<inter> region e (16 * unat l) = {}"
    using dj unfolding region_nat [OF e(4)] region_nat [OF f(5)] by auto
  have ph: "\<not> phase_at (memory w') (e + 16 * of_nat s)" if "s < unat l" for s
  proof -
    have "region (e + 16 * of_nat s) 16 \<subseteq> region e (16 * unat l)" using slot_region_sub [OF that, of 16 e] e(4) by simp
    then have "phase_at (memory w') (e + 16 * of_nat s) = phase_at (memory w1) (e + 16 * of_nat s)"
      using r by (intro phase_at_same [OF so]) blast
    then show ?thesis using phase_at_memset [OF that, of e "memory w"] e(3,4) by simp
  qed
  have c: "io_cq ctrl' = \<lparr>cq_common = nvme_init_queue_common ctrl' 3 (ucast l), cq_cqe = e, cq_head = 0, cq_phase = 1\<rparr>"
      "io_sq ctrl' = \<lparr>sq_common = nvme_init_queue_common ctrl' 2 (ucast l), sq_sqe = f, sq_cq = IO, sq_head = 0, sq_tail = 0\<rparr>"
    by (simp_all add: e(1) f(2) nvme_init_queue_common_def)
  have "ring_layout (unat l) ctrl'" using f(1,5) e(4) dj by (simp add: ring_layout_def c)
  then show ?thesis
    using initial_rings [OF _ len(2) le c _ ph] len(1) f(3) by (simp add: l_def)
qed

lemmas ex_alloc_simps = dma_alloc_def malloc_phys_def alloc_memblock_cases [of 0, simplified] actual_size_def MIN_MEMBLOCK_SIZE_def
  align_mask_of_def split_block_def account_alloc_def Let_def

lemma ex_init_cq:
  "\<exists>rc ctrl1 w1. nvme_init_cq 1 ex_cap_env IO 3 2 ex_ctrl ex_pool = Some (rc, ctrl1, w1) \<and>
     free_blocks w1 = [(0x1000, 0x800), (0x1820, 0x37e0)] \<and> virt_offset w1 = 0x800"
  by (simp add: nvme_init_cq_def NVME_CQE_SIZE_def ex_cap_env_def ref_env_def ex_pool_def ex_state_def ex_alloc_simps mem_upd_def)

lemma ex_init_sq:
  "free_blocks w1 = [(0x1000, 0x800), (0x1820, 0x37e0)] \<Longrightarrow> virt_offset w1 = 0x800 \<Longrightarrow>
   \<exists>rc ctrl' w'. nvme_init_sq 1 ex_cap_env IO 2 2 IO ctrl1 w1 = Some (rc, ctrl', w')"
  by (simp add: nvme_init_sq_def NVME_SQE_SIZE_def ex_cap_env_def ref_env_def ex_alloc_simps)

theorem io_queues_initialised_witness:
  "\<exists>rc ctrl1 w1 rc' ctrl' w'. nvme_init_cq 1 ex_cap_env IO 3 2 ex_ctrl ex_pool = Some (rc, ctrl1, w1) \<and>
     nvme_init_sq 1 ex_cap_env IO 2 2 IO ctrl1 w1 = Some (rc', ctrl', w') \<and>
     rings_ok (initial_view 2 ctrl' w') ctrl' w' \<and> pool_ok 0x800 0x1000 0x5000 w'"
proof -
  obtain rc ctrl1 w1 rc' ctrl' w' where i: "nvme_init_cq (Suc 0) ex_cap_env IO 3 2 ex_ctrl ex_pool = Some (rc, ctrl1, w1)"
      "nvme_init_sq (Suc 0) ex_cap_env IO 2 2 IO ctrl1 w1 = Some (rc', ctrl', w')"
    using ex_init_cq ex_init_sq by (metis One_nat_def)
  have l: "io_queue_length ex_cap_env ex_ctrl ex_pool = 2"
    by (simp add: io_queue_length_def ex_cap_env_def Let_def NVME_PAGE_SIZE_def NVME_CQE_SIZE_def)
  have "pool_ok 0x800 0x1000 0x5000 ex_pool"
    by (simp add: pool_ok_def heap_ok_def region_ok_def ex_pool_def ex_state_def take_bit_4_dvd)
  moreover have "discarders ex_cap_env = []" by (simp add: ex_cap_env_def ref_env_def)
  ultimately show ?thesis
    using io_queues_initialised [of "0x800" "0x1000" "0x5000" ex_pool ex_cap_env ex_ctrl 1 0 rc ctrl1 w1 0 rc' ctrl' w'] i l by auto
qed

text \<open>
  A queue of three entries, which a controller may offer, gets the mask 2: the tail index never leaves 0, so that
  the doorbell announces no command.
\<close>

theorem three_entries_stuck:
  assumes "q_mask (sq_common (io_sq ctrl)) = 3 - 1" "sq_tail (io_sq ctrl) = 0"
  shows "sq_tail (io_sq (fst (nvme_commit_sqe env IO ctrl w))) = 0"
  using assms by (simp add: nvme_commit_sqe_def Let_def)

end
