(* ===== verification/Uri_Roundtrip.thy ===== *)
theory Uri_Roundtrip
  imports Uri
begin

text \<open>
  What the URI functions promise together: formatting a well-formed URI and parsing the result
  gives the URI back; formatting respects the bounds of its buffer; decoding in place is
  decoding; relative paths resolve against their base. The parser is followed through the parts
  of a URI string: scheme, authority, path, query and fragment.
\<close>

section \<open>Well-formed URIs and the parts of their strings\<close>

definition scheme_char :: "char \<Rightarrow> bool" where
  "scheme_char c \<longleftrightarrow> isalpha (schar c) \<or> c = CHR ''-'' \<or> c = CHR ''_''"

definition visible :: "string \<Rightarrow> bool" where
  "visible s = list_all (\<lambda>c. isprint (schar c) \<and> c \<noteq> CHR '' '') s"

definition ascii :: "string \<Rightarrow> bool" where
  "ascii s = list_all (\<lambda>c. c \<noteq> NUL \<and> uchar c < 128) s"

definition hexchars :: string where
  "hexchars = ''0123456789ABCDEF''"

text \<open>The URIs that the parser produces and whose encoding it recovers.\<close>

definition wf_authority :: "uri \<Rightarrow> string \<Rightarrow> bool" where
  "wf_authority u host \<longleftrightarrow>
     (uri_user u = None \<longrightarrow> uri_password u = None) \<and>
     (case uri_port u of
        None \<Rightarrow> CHR '':'' \<notin> set host \<or> last host = CHR '']''
      | Some port \<Rightarrow> port = [] \<or> last port \<noteq> CHR '']'') \<and>
     (case uri_epath u of None \<Rightarrow> True | Some e \<Rightarrow> first_char e = CHR ''/'')"

definition wf_shape :: "uri \<Rightarrow> bool" where
  "wf_shape u \<longleftrightarrow>
     (case uri_opaque u of
        Some s \<Rightarrow> uri_scheme u \<noteq> None \<and> uri_user u = None \<and> uri_password u = None \<and> uri_host u = None \<and>
          uri_port u = None \<and> uri_epath u = None \<and> uri_equery u = None \<and> first_char s \<noteq> CHR ''/''
      | None \<Rightarrow>
          (case uri_host u of
             Some host \<Rightarrow> uri_scheme u \<noteq> None \<and> wf_authority u host
           | None \<Rightarrow> uri_user u = None \<and> uri_password u = None \<and> uri_port u = None \<and>
               (case uri_epath u of
                  None \<Rightarrow> uri_scheme u = None
                | Some e \<Rightarrow> if uri_scheme u = None then scheme_end e = None
                            else first_char e = CHR ''/'' \<and> take 2 e \<noteq> ''//'')))"

definition field_all :: "(string \<Rightarrow> bool) \<Rightarrow> string option \<Rightarrow> bool" where
  "field_all P f = (case f of None \<Rightarrow> True | Some s \<Rightarrow> P s)"

definition wf_uri :: "uri \<Rightarrow> bool" where
  "wf_uri u \<longleftrightarrow> uri_params u = None \<and> wf_shape u \<and>
     field_all (list_all scheme_char) (uri_scheme u) \<and>
     list_all (field_all ascii) [uri_opaque u, uri_user u, uri_password u, uri_host u, uri_port u] \<and>
     field_all (\<lambda>e. visible e \<and> e \<noteq> [] \<and> CHR ''#'' \<notin> set e \<and> CHR ''?'' \<notin> set e) (uri_epath u) \<and>
     uri_path u = map_option (\<lambda>e. c_string (decoded e)) (uri_epath u) \<and>
     field_all (\<lambda>q. visible q \<and> CHR ''#'' \<notin> set q) (uri_equery u) \<and>
     field_all (\<lambda>f. visible f \<and> CHR ''#'' \<notin> set f) (uri_efragment u)"

text \<open>The three parts of the authority.\<close>

definition host_string :: "uri \<Rightarrow> string \<Rightarrow> string" where
  "host_string u host = encoded URI_HOST host @ (case uri_port u of None \<Rightarrow> [] | Some p \<Rightarrow> CHR '':'' # encoded URI_PORT p)"

definition user_string :: "uri \<Rightarrow> string" where
  "user_string u = (case uri_user u of None \<Rightarrow> [] | Some s \<Rightarrow> encoded URI_USER s) @
     (case uri_password u of None \<Rightarrow> [] | Some p \<Rightarrow> CHR '':'' # encoded URI_PASSWORD p)"

definition authority_string :: "uri \<Rightarrow> string \<Rightarrow> string" where
  "authority_string u host = (if uri_user u = None then [] else user_string u @ ''@'') @ host_string u host"

definition query_string :: "uri \<Rightarrow> string" where
  "query_string u = (case uri_equery u of None \<Rightarrow> [] | Some q \<Rightarrow> CHR ''?'' # q)"

definition fragment_string :: "uri \<Rightarrow> string" where
  "fragment_string u = (case uri_efragment u of None \<Rightarrow> [] | Some f \<Rightarrow> CHR ''#'' # f)"

definition scheme_string :: "uri \<Rightarrow> string" where
  "scheme_string u = (case uri_scheme u of None \<Rightarrow> [] | Some s \<Rightarrow> s @ CHR '':'' # (if uri_host u \<noteq> None then ''//'' else []))"

definition opaque_string :: "uri \<Rightarrow> string" where
  "opaque_string u = (case uri_opaque u of None \<Rightarrow> [] | Some s \<Rightarrow> encoded URI_OPAQUE s)"

definition path_string :: "uri \<Rightarrow> string" where
  "path_string u = (case uri_epath u of None \<Rightarrow> [] | Some e \<Rightarrow> e)"

definition body_string :: "uri \<Rightarrow> string" where
  "body_string u = scheme_string u @ opaque_string u @
     (case uri_host u of None \<Rightarrow> [] | Some h \<Rightarrow> authority_string u h) @ path_string u @ query_string u"

text \<open>The fields before decoding.\<close>

definition raw_fields :: "uri \<Rightarrow> uri" where
  "raw_fields u = u\<lparr>uri_opaque := map_option (encoded URI_OPAQUE) (uri_opaque u),
     uri_user := map_option (encoded URI_USER) (uri_user u), uri_password := map_option (encoded URI_PASSWORD) (uri_password u),
     uri_host := map_option (encoded URI_HOST) (uri_host u), uri_port := map_option (encoded URI_PORT) (uri_port u),
     uri_path := uri_epath u\<rparr>"

definition ex_uri :: uri where
  "ex_uri = uri_empty\<lparr>uri_scheme := Some ''http'', uri_user := Some ''a:b'', uri_password := Some ''c@d'',
     uri_host := Some ''[fe80::1]'', uri_port := Some ''8080'', uri_path := Some ''/x y'', uri_epath := Some ''/x%20y'',
     uri_equery := Some ''q=1'', uri_efragment := Some ''top''\<rparr>"

section \<open>Lemmas\<close>

subsection \<open>Characters of encoded fields\<close>

lemma hex_digit_0: "hex_digit num 0 \<in> set hexchars"
proof -
  have "unat (num AND 0xf) < 16" by (simp add: unat_nibble)
  then have "''0123456789ABCDEF'' ! unat (num AND 0xf) \<in> set hexchars" unfolding hexchars_def by (intro nth_mem) simp
  moreover have "low_char (of_char c :: u32) = c" for c
  proof -
    have "uchar (low_char (of_char c :: u32)) = uchar c"
    proof -
      obtain k where k: "k < 256" "uchar c = int k" using uchar_nat by blast
      have "(of_char c :: u32) = of_nat (of_char c)" by (rule of_nat_of_char [symmetric])
      moreover have "uchar c = int (of_char c)" unfolding uchar_def by (rule of_nat_of_char [symmetric])
      ultimately have "(of_char c :: u32) = of_int (uchar c)" by simp
      then show ?thesis using low_char_of_int [of "uchar c"] k by simp
    qed
    then show ?thesis by simp
  qed
  ultimately show ?thesis by (simp add: hex_digit_def)
qed

lemma hex_digits_chars: "set (hex_digits 0 num ptr) \<subseteq> set hexchars \<union> set ptr"
proof (induction "0 :: u32" num ptr rule: hex_digits.induct)
  case (1 num ptr)
  then show ?case using hex_digit_0 [of num] by (auto simp: hex_digits.simps [of 0 num ptr] Let_def split: if_splits)
qed

lemma escape_digits_chars: "set (escape_digits c) \<subseteq> set hexchars"
  using hex_digits_chars [of _ "[]"] by (auto simp: escape_digits_def Let_def hexchars_def)

lemma encoded_chars:
  assumes "x \<in> set (encoded field s)" "x \<notin> set (CHR ''%'' # hexchars)"
  shows "x \<in> set s \<and> \<not> uri_character_escaped x field"
  using assms escape_digits_chars by (auto simp: encoded_def encode_char_def split: if_splits)

lemma escaped_char: "escaped field = Some e \<Longrightarrow> x \<in> set e \<Longrightarrow> NUL \<notin> set e \<Longrightarrow> uchar x < 128 \<Longrightarrow> uri_character_escaped x field"
  using strchr_conv [of e x] by (auto simp: uri_character_escaped_def schar_def)

lemma encoded_notin:
  assumes "escaped field = Some e" "x \<in> set e" "x \<in> set ''/#:@?''"
  shows "x \<notin> set (encoded field s)"
proof
  assume "x \<in> set (encoded field s)"
  moreover have "x \<notin> set (CHR ''%'' # hexchars)" using assms(3) by (auto simp: hexchars_def)
  moreover have "uri_character_escaped x field"
  proof (rule escaped_char [OF assms(1,2)])
    show "NUL \<notin> set e" using assms(1) by (cases field) (auto simp: NUL_def)
    show "uchar x < 128" using assms(3) by (auto simp: uchar_def)
  qed
  ultimately show False using encoded_chars by blast
qed

lemma encoded_visible: "escaped field = None \<Longrightarrow> visible s \<Longrightarrow> encoded field s = s"
  by (induction s) (auto simp: encoded_def encode_char_def uri_character_escaped_def visible_def)

lemma encoded_no_NUL: "NUL \<notin> set s \<Longrightarrow> NUL \<notin> set (encoded field s)"
  using encoded_chars [of NUL field s] by (auto simp: NUL_def hexchars_def)

lemma visible_no_NUL: "visible s \<Longrightarrow> NUL \<notin> set s"
proof (induction s)
  case (Cons c s)
  have "\<not> isprint (schar NUL)" by (simp add: isprint_def schar_def)
  then show ?case using Cons by (auto simp: visible_def)
qed simp

lemma encoded_scheme: "list_all scheme_char s \<Longrightarrow> encoded URI_SCHEME s = s"
proof (induction s)
  case (Cons c s)
  have "strchr ''/#:@?=&'' (schar c) = None" "isprint (schar c)" "c \<noteq> CHR '' ''" "c \<noteq> CHR ''%''"
    using Cons.prems by (auto simp: scheme_char_def isalpha_def isupper_def islower_def isprint_def NUL_def uchar_def schar_def)
  then show ?case using Cons by (auto simp: encoded_def encode_char_def uri_character_escaped_def)
qed (simp add: encoded_def)

subsection \<open>Splitting\<close>

lemma cut_found: "NUL \<notin> set a \<Longrightarrow> NUL \<notin> set b \<Longrightarrow> c \<noteq> NUL \<Longrightarrow> c \<notin> set a \<Longrightarrow> cut c (a @ c # b) = (a, Some b)"
proof -
  assume *: "NUL \<notin> set a" "NUL \<notin> set b" "c \<noteq> NUL" "c \<notin> set a"
  have "takeWhile (\<lambda>x. x \<noteq> c) (a @ c # b) = a" using *(4) by (induction a) auto
  then show ?thesis using * strchr_conv [of "a @ c # b" c] by (auto simp: cut_def)
qed

lemma cut_none: "NUL \<notin> set a \<Longrightarrow> c \<noteq> NUL \<Longrightarrow> c \<notin> set a \<Longrightarrow> cut c a = (a, None)"
  using strchr_conv [of a c] by (simp add: cut_def)

lemma scheme_end_found: "list_all scheme_char s \<Longrightarrow> scheme_end (s @ CHR '':'' # r) = Some (length s)"
  by (induction s) (auto simp: scheme_char_def isalpha_def isupper_def islower_def schar_def uchar_def)

lemma scheme_end_append:
  "scheme_end e = None \<Longrightarrow> r = [] \<or> first_char r = CHR ''?'' \<Longrightarrow> scheme_end (e @ r) = None"
proof (induction e)
  case Nil
  then show ?case by (cases r) (auto simp: isalpha_def isupper_def islower_def schar_def uchar_def NUL_def)
qed (auto split: if_splits)

lemma strstr_no_params: "(\<And>a b. s \<noteq> a @ ''##'' @ b) \<Longrightarrow> strstr s ''##params'' = None"
proof (induction s)
  case (Cons c s)
  have l: "unat (strlen ''##params'') = 8" by (subst strlen_conv) (auto simp: NUL_def)
  have "memcmp (c # s) ''##params'' 8 \<noteq> 0"
  proof
    assume m: "memcmp (c # s) ''##params'' 8 = 0"
    have n: "memcmp a b (Suc k) = 0 \<longleftrightarrow> first_char a = first_char b \<and> memcmp (tl a) (tl b) k = 0" for a b k
      by (auto simp: Let_def)
    have "c = CHR ''#''" "first_char s = CHR ''#''"
      using m n [of "c # s" "''##params''" 7] n [of s "''#params''" 6] by (simp_all add: eval_nat_numeral del: memcmp.simps)
    then show False using Cons.prems [of "[]"] by (cases s) (auto simp: NUL_def)
  qed
  moreover have "strstr s ''##params'' = None" using Cons.IH Cons.prems by (metis append_Cons)
  ultimately show ?case using l by simp
qed simp

subsection \<open>Round trip\<close>

lemma ascii_no_NUL: "ascii s \<Longrightarrow> NUL \<notin> set s"
  by (induction s) (auto simp: ascii_def)

lemma decode_encoded:
  assumes "ascii s" "escaped field \<noteq> None"
  shows "c_string (decoded (encoded field s)) = s"
  using decoded_encoded [of s field "[]"] assms c_string_id [OF ascii_no_NUL] by (auto simp: ascii_def list_all_iff)

lemma last_encoded:
  assumes "s \<noteq> []"
  shows "last (encoded field s) = last s \<or> last (encoded field s) \<in> set hexchars"
proof -
  obtain t c where s: "s = t @ [c]" using assms by (cases s rule: rev_cases) auto
  have "escape_digits c \<noteq> []"
    using hex_digits_first [of 0 "ucast (of_int (schar c) :: u32)" "[]"] by (auto simp: escape_digits_def Let_def)
  then have "last (escape_digits c) \<in> set hexchars" using escape_digits_chars [of c] last_in_set by blast
  then show ?thesis using \<open>escape_digits c \<noteq> []\<close> by (auto simp: s encoded_def encode_char_def)
qed

lemma last_encoded_bracket: "s \<noteq> [] \<Longrightarrow> last s = CHR '']'' \<Longrightarrow> last (encoded URI_HOST s) = CHR '']''"
proof -
  assume "s \<noteq> []" "last s = CHR '']''"
  then obtain t where s: "s = t @ '']''" by (metis append_butlast_last_id)
  have "\<not> uri_character_escaped (CHR '']'') URI_HOST"
    by (simp add: uri_character_escaped_def isprint_def schar_def uchar_def NUL_def)
  then show ?thesis by (simp add: s encoded_def encode_char_def)
qed

lemma parse_host_string:
  assumes "ascii host" "wf_authority u host" "uri_port v = None" "field_all ascii (uri_port u)"
  shows "parse_host (host_string u host) v =
    v\<lparr>uri_host := Some (encoded URI_HOST host), uri_port := map_option (encoded URI_PORT) (uri_port u)\<rparr>"
proof (cases "uri_port u")
  case None
  have H: "host_string u host = encoded URI_HOST host" using None by (simp add: host_string_def)
  have v: "v\<lparr>uri_host := x, uri_port := None\<rparr> = v\<lparr>uri_host := x\<rparr>" for x
    using assms(3) by (intro uri.equality) auto
  show ?thesis
  proof (cases "CHR '':'' \<in> set host")
    case False
    then have "CHR '':'' \<notin> set (encoded URI_HOST host)"
      using encoded_chars [of "CHR '':''" URI_HOST host] by (auto simp: hexchars_def)
    then have "strrchr (encoded URI_HOST host) (uchar (CHR '':'')) = None"
      using strrchr_none encoded_no_NUL [OF ascii_no_NUL [OF assms(1)]] by blast
    then show ?thesis using None v by (simp add: parse_host_def H)
  next
    case True
    then have "host \<noteq> []" "last host = CHR '']''" using assms(2) None by (auto simp: wf_authority_def)
    then have "last (encoded URI_HOST host) = CHR '']''" "encoded URI_HOST host \<noteq> []"
      using last_encoded_bracket by (auto simp: encoded_def)
    then show ?thesis using None v by (auto simp: parse_host_def H last_conv_nth split: option.split)
  qed
next
  case (Some p)
  let ?H = "encoded URI_HOST host" and ?P = "encoded URI_PORT p"
  have H: "host_string u host = ?H @ CHR '':'' # ?P" using Some by (simp add: host_string_def)
  have "ascii p" using assms(4) Some by (simp add: field_all_def)
  then have "strrchr (host_string u host) (uchar (CHR '':'')) = Some (length ?H)"
    unfolding H using assms(1) encoded_notin [of URI_PORT "''/#:@?''" "CHR '':''" p]
    by (intro strrchr_last encoded_no_NUL ascii_no_NUL) (auto simp: NUL_def)
  moreover have "last (host_string u host) \<noteq> CHR '']''"
  proof (cases "p = []")
    case True
    then show ?thesis by (simp add: H encoded_def)
  next
    case False
    then have "last ?P \<noteq> CHR '']''"
      using last_encoded [of p URI_PORT] assms(2) Some by (auto simp: wf_authority_def hexchars_def)
    moreover have "?P \<noteq> []" using False by (cases p) (auto simp: encoded_def)
    ultimately show ?thesis by (simp add: H)
  qed
  then have "host_string u host ! (length (host_string u host) - 1) \<noteq> CHR '']''"
    using last_conv_nth [of "host_string u host"] by (simp add: H)
  ultimately show ?thesis using Some by (simp add: parse_host_def) (simp add: H)
qed

lemma parse_authority_string:
  assumes "ascii host" "wf_authority u host" "list_all (field_all ascii) [uri_user u, uri_password u, uri_port u]"
    "uri_user v = None" "uri_password v = None" "uri_port v = None"
  shows "parse_authority (authority_string u host) v =
    v\<lparr>uri_user := map_option (encoded URI_USER) (uri_user u), uri_password := map_option (encoded URI_PASSWORD) (uri_password u),
      uri_host := Some (encoded URI_HOST host), uri_port := map_option (encoded URI_PORT) (uri_port u)\<rparr>"
proof -
  have auth: "parse_authority a w =
      (case cut (CHR ''@'') a of
         (h, None) \<Rightarrow> parse_host h w
       | (us, Some h) \<Rightarrow> (let (us, pw) = cut (CHR '':'') us in parse_host h (w\<lparr>uri_user := Some us, uri_password := pw\<rparr>)))" for a w
    by (simp add: parse_authority_def Let_def split: prod.split option.split)
  have host: "CHR ''@'' \<notin> set (host_string u host)" "NUL \<notin> set (host_string u host)"
    using encoded_notin [of URI_HOST "''/#@?''" "CHR ''@''" host] encoded_notin [of URI_PORT "''/#:@?''" "CHR ''@''"]
      encoded_no_NUL ascii_no_NUL assms(1,3) by (cases "uri_port u"; auto simp: host_string_def field_all_def NUL_def)+
  show ?thesis
  proof (cases "uri_user u")
    case None
    then have "uri_password u = None" using assms(2) by (simp add: wf_authority_def)
    moreover have "v\<lparr>uri_user := None, uri_password := None, uri_host := h, uri_port := p\<rparr> = v\<lparr>uri_host := h, uri_port := p\<rparr>" for h p
      using assms(4,5) by (intro uri.equality) auto
    ultimately show ?thesis
      using None host cut_none [of "host_string u host" "CHR ''@''"] parse_host_string [OF assms(1,2,6)] assms(3)
      by (simp add: auth authority_string_def NUL_def)
  next
    case (Some us)
    have us: "ascii us" "field_all ascii (uri_password u)" using assms(3) Some by (simp_all add: field_all_def)
    have U: "CHR ''@'' \<notin> set (encoded URI_USER us)" "CHR '':'' \<notin> set (encoded URI_USER us)" "NUL \<notin> set (encoded URI_USER us)"
      using encoded_notin [of URI_USER "''/#:@?''" _ us] encoded_no_NUL ascii_no_NUL us by auto
    have P: "CHR ''@'' \<notin> set (encoded URI_PASSWORD p)" "NUL \<notin> set (encoded URI_PASSWORD p)" if "uri_password u = Some p" for p
      using that encoded_notin [of URI_PASSWORD "''/#:@?''" _ p] encoded_no_NUL ascii_no_NUL us by (auto simp: field_all_def)
    have "CHR ''@'' \<notin> set (user_string u)" "NUL \<notin> set (user_string u)"
      using U P Some by (auto simp: user_string_def NUL_def split: option.split)
    then have "cut (CHR ''@'') (authority_string u host) = (user_string u, Some (host_string u host))"
      using cut_found [of "user_string u" "host_string u host" "CHR ''@''"] host Some by (auto simp: authority_string_def NUL_def)
    moreover have "cut (CHR '':'') (user_string u) = (encoded URI_USER us, map_option (encoded URI_PASSWORD) (uri_password u))"
    proof (cases "uri_password u")
      case None
      then show ?thesis using cut_none [of "encoded URI_USER us" "CHR '':''"] U Some by (simp add: user_string_def NUL_def)
    next
      case (Some p)
      then show ?thesis using cut_found [of "encoded URI_USER us" "encoded URI_PASSWORD p" "CHR '':''"] U P \<open>uri_user u = Some us\<close>
        by (simp add: user_string_def NUL_def)
    qed
    ultimately show ?thesis
      using Some parse_host_string [OF assms(1,2), of "v\<lparr>uri_user := Some (encoded URI_USER us), uri_password := map_option (encoded URI_PASSWORD) (uri_password u)\<rparr>"]
        assms(3,6) by (simp add: auth)
  qed
qed

lemma wf_uriD:
  assumes "wf_uri u"
  shows "uri_params u = None" "wf_shape u"
    "uri_scheme u = Some s \<Longrightarrow> list_all scheme_char s"
    "uri_opaque u = Some s \<Longrightarrow> ascii s" "uri_user u = Some s \<Longrightarrow> ascii s" "uri_password u = Some s \<Longrightarrow> ascii s"
    "uri_host u = Some s \<Longrightarrow> ascii s" "uri_port u = Some s \<Longrightarrow> ascii s"
    "uri_epath u = Some s \<Longrightarrow> visible s \<and> s \<noteq> [] \<and> CHR ''#'' \<notin> set s \<and> CHR ''?'' \<notin> set s"
    "uri_path u = map_option (\<lambda>e. c_string (decoded e)) (uri_epath u)"
    "uri_equery u = Some s \<Longrightarrow> visible s \<and> CHR ''#'' \<notin> set s"
    "uri_efragment u = Some s \<Longrightarrow> visible s \<and> CHR ''#'' \<notin> set s"
  using assms by (auto simp: wf_uri_def field_all_def)

lemma shape_host_None:
  "wf_shape u \<Longrightarrow> uri_host u = None \<Longrightarrow> uri_user u = None \<and> uri_password u = None \<and> uri_port u = None"
  by (auto simp: wf_shape_def split: option.splits)

lemma shape_no_user: "wf_shape u \<Longrightarrow> uri_user u = None \<Longrightarrow> uri_password u = None"
  by (auto simp: wf_shape_def wf_authority_def split: option.splits)

lemma uri_string_body:
  assumes "wf_uri u"
  shows "uri_string u = body_string u @ fragment_string u"
proof -
  note wf = wf_uriD [OF assms]
  have scheme: "field_string u URI_SCHEME = scheme_string u"
    using encoded_scheme wf(3) by (auto simp: field_string_def scheme_string_def field_prefix_def field_suffix_def split: option.split)
  have opaque: "field_string u URI_OPAQUE = opaque_string u"
    by (auto simp: field_string_def opaque_string_def field_prefix_def field_suffix_def split: option.split)
  have auth: "field_string u URI_USER @ field_string u URI_PASSWORD @ field_string u URI_HOST @ field_string u URI_PORT =
      (case uri_host u of None \<Rightarrow> [] | Some h \<Rightarrow> authority_string u h)"
  proof (cases "uri_host u")
    case None
    then show ?thesis using shape_host_None [OF wf(2)] by (simp add: field_string_def)
  next
    case (Some h)
    then show ?thesis using shape_no_user [OF wf(2)]
      by (cases "uri_user u")
         (auto simp: field_string_def field_prefix_def field_suffix_def authority_string_def user_string_def host_string_def split: option.split)
  qed
  have path: "field_string u URI_PATH @ field_string u URI_EPATH = path_string u"
    using wf(9,10) encoded_visible [of URI_EPATH]
    by (auto simp: field_string_def field_prefix_def field_suffix_def path_string_def split: option.split)
  have query: "field_string u URI_EQUERY = query_string u"
    using wf(11) encoded_visible [of URI_EQUERY]
    by (auto simp: field_string_def field_prefix_def field_suffix_def query_string_def split: option.split)
  have frag: "field_string u URI_EFRAGMENT = fragment_string u"
    using wf(12) encoded_visible [of URI_EFRAGMENT]
    by (auto simp: field_string_def field_prefix_def field_suffix_def fragment_string_def split: option.split)
  show ?thesis
    using scheme opaque auth path query frag by (simp add: uri_string_def all_fields_def body_string_def flip: append_assoc)
qed

lemma scheme_chars: "list_all scheme_char s \<Longrightarrow> NUL \<notin> set s \<and> CHR ''#'' \<notin> set s"
proof (induction s)
  case (Cons c s)
  then have "c \<noteq> NUL" "c \<noteq> CHR ''#''"
    by (auto simp: scheme_char_def isalpha_def isupper_def islower_def schar_def uchar_def NUL_def)
  then show ?case using Cons by auto
qed simp

lemma authority_chars:
  assumes "wf_uri u" "uri_host u = Some h"
  shows "NUL \<notin> set (authority_string u h)" "CHR ''#'' \<notin> set (authority_string u h)"
    "CHR ''/'' \<notin> set (authority_string u h)" "CHR ''?'' \<notin> set (authority_string u h)"
proof -
  note wf = wf_uriD [OF assms(1)]
  have nul: "NUL \<notin> set (encoded field s)" if "ascii s" for field s using that encoded_no_NUL ascii_no_NUL by blast
  have sp: "x \<notin> set (encoded f s)" if "x \<in> set ''#/?''" "f \<in> {URI_USER, URI_PASSWORD, URI_HOST, URI_PORT}" for x f s
    using that encoded_notin [of f _ x s] by auto
  show "NUL \<notin> set (authority_string u h)"
    using nul wf(5-8) assms(2) by (auto simp: authority_string_def user_string_def host_string_def NUL_def split: option.split)
  show "CHR ''#'' \<notin> set (authority_string u h)" "CHR ''/'' \<notin> set (authority_string u h)" "CHR ''?'' \<notin> set (authority_string u h)"
    using sp by (auto simp: authority_string_def user_string_def host_string_def split: option.split)
qed

lemma body_chars:
  assumes "wf_uri u"
  shows "NUL \<notin> set (body_string u)" "CHR ''#'' \<notin> set (body_string u)"
proof -
  note wf = wf_uriD [OF assms]
  have s: "NUL \<notin> set (scheme_string u) \<and> CHR ''#'' \<notin> set (scheme_string u)"
    using wf(3) scheme_chars by (auto simp: scheme_string_def NUL_def split: option.split)
  have o: "NUL \<notin> set (opaque_string u) \<and> CHR ''#'' \<notin> set (opaque_string u)"
    using wf(4) encoded_no_NUL ascii_no_NUL encoded_notin [of URI_OPAQUE "''#''" "CHR ''#''"]
    by (auto simp: opaque_string_def split: option.split)
  have p: "NUL \<notin> set (path_string u) \<and> CHR ''#'' \<notin> set (path_string u)"
    using wf(9) visible_no_NUL by (auto simp: path_string_def split: option.split)
  have q: "NUL \<notin> set (query_string u) \<and> CHR ''#'' \<notin> set (query_string u)"
    using wf(11) visible_no_NUL by (auto simp: query_string_def NUL_def split: option.split)
  show "NUL \<notin> set (body_string u)" "CHR ''#'' \<notin> set (body_string u)"
    using s o p q authority_chars [OF assms] by (auto simp: body_string_def split: option.split)
qed

lemma takeWhile_found: "c \<notin> set a \<Longrightarrow> takeWhile (\<lambda>x. x \<noteq> c) (a @ c # b) = a"
  by (induction a) auto

lemma query_cut:
  assumes "wf_uri u" "NUL \<notin> set x" "CHR ''?'' \<notin> set x"
  shows "cut (CHR ''?'') (x @ query_string u) = (x, uri_equery u)"
proof (cases "uri_equery u")
  case None
  then show ?thesis using assms cut_none by (auto simp: query_string_def NUL_def)
next
  case (Some q)
  then show ?thesis using wf_uriD(11) [OF assms(1) Some] visible_no_NUL assms cut_found [of x q "CHR ''?''"]
    by (auto simp: query_string_def NUL_def)
qed

lemma first_encoded: "first_char s \<noteq> CHR ''/'' \<Longrightarrow> first_char (encoded field s) \<noteq> CHR ''/''"
  by (cases s) (auto simp: encoded_def encode_char_def NUL_def)

lemma strncmp_slashes: "strncmp e ''//'' 2 = 0 \<longleftrightarrow> take 2 e = ''//''"
proof -
  have "strncmp e ''//'' 2 = 0 \<longleftrightarrow> first_char e = CHR ''/'' \<and> first_char (tl e) = CHR ''/''"
    by (simp add: strncmp.simps [of e] strncmp.simps [of "tl e"] strncmp.simps [of "tl (tl e)"] Let_def NUL_def)
  also have "\<dots> \<longleftrightarrow> take 2 e = ''//''"
  proof (cases e)
    case (Cons a t)
    then show ?thesis by (cases t) (auto simp: NUL_def)
  qed (simp add: NUL_def)
  finally show ?thesis .
qed

lemma decoded_plain: "CHR ''%'' \<notin> set s \<Longrightarrow> decoded s = s"
  by (induction s) auto

lemma decode_raw_fields:
  assumes "wf_uri u"
  shows "decode_fields (raw_fields u) = u"
proof -
  note wf = wf_uriD [OF assms]
  have scheme: "decode_field (uri_scheme u) = uri_scheme u"
  proof (cases "uri_scheme u")
    case (Some s)
    have "CHR ''%'' \<notin> set s" using wf(3) [OF Some]
      by (induction s) (auto simp: scheme_char_def isalpha_def isupper_def islower_def schar_def uchar_def)
    then show ?thesis using Some scheme_chars [OF wf(3) [OF Some]] c_string_id by (simp add: decode_field_def decoded_plain)
  qed (simp add: decode_field_def)
  have enc: "decode_field (map_option (encoded f) x) = x" if "\<And>s. x = Some s \<Longrightarrow> ascii s" "escaped f \<noteq> None" for f x
    using that decode_encoded by (cases x) (auto simp: decode_field_def)
  show ?thesis
    using scheme wf(10) enc [OF wf(4), where f = URI_OPAQUE] enc [OF wf(5), where f = URI_USER] enc [OF wf(6), where f = URI_PASSWORD]
      enc [OF wf(7), where f = URI_HOST] enc [OF wf(8), where f = URI_PORT]
    by (intro uri.equality) (simp_all add: decode_fields_def raw_fields_def, simp add: decode_field_def)
qed

lemma parse_hierarchical_path:
  assumes "wf_uri u" "uri_host u = None" "uri_opaque u = None" "uri_epath u = Some e" "uri_scheme v = uri_scheme u"
  shows "parse_hierarchical (e @ query_string u) v = v\<lparr>uri_equery := uri_equery u, uri_epath := Some e, uri_path := Some e\<rparr>"
proof -
  note e = wf_uriD(9) [OF assms(1,4)]
  have "\<not> (uri_scheme u \<noteq> None \<and> strncmp e ''//'' 2 = 0)"
    using wf_uriD(2) [OF assms(1)] assms(2-4) by (auto simp: wf_shape_def strncmp_slashes split: if_splits)
  then show ?thesis
    using query_cut [OF assms(1), of e] e visible_no_NUL assms(5) by (auto simp: parse_hierarchical_def Let_def)
qed

lemma parse_hierarchical_net:
  assumes "wf_uri u" "uri_host u = Some h" "uri_scheme v \<noteq> None" "uri_user v = None" "uri_password v = None" "uri_port v = None"
    "uri_epath v = None" "uri_path v = None"
  shows "parse_hierarchical (''//'' @ authority_string u h @ path_string u @ query_string u) v =
    v\<lparr>uri_user := uri_user (raw_fields u), uri_password := uri_password (raw_fields u), uri_host := uri_host (raw_fields u),
      uri_port := uri_port (raw_fields u), uri_epath := uri_epath u, uri_path := uri_epath u, uri_equery := uri_equery u\<rparr>"
proof -
  note wf = wf_uriD [OF assms(1)]
  note a = authority_chars [OF assms(1,2)]
  have sh: "wf_authority u h" using wf(2) assms(2) by (auto simp: wf_shape_def split: option.splits)
  have p: "NUL \<notin> set (path_string u)" "CHR ''?'' \<notin> set (path_string u)"
    using wf(9) visible_no_NUL by (auto simp: path_string_def split: option.split)
  have c: "cut (CHR ''?'') (''//'' @ authority_string u h @ path_string u @ query_string u) =
      (''//'' @ authority_string u h @ path_string u, uri_equery u)"
    using query_cut [OF assms(1), of "''//'' @ authority_string u h @ path_string u"] a p by (auto simp: NUL_def)
  have pa: "parse_authority (authority_string u h) w =
      w\<lparr>uri_user := uri_user (raw_fields u), uri_password := uri_password (raw_fields u), uri_host := uri_host (raw_fields u),
        uri_port := uri_port (raw_fields u)\<rparr>" if "uri_user w = None" "uri_password w = None" "uri_port w = None" for w
    using parse_authority_string [OF wf(7) [OF assms(2)] sh _ that] wf(5,6,8) assms(2)
    by (auto simp: raw_fields_def field_all_def split: option.splits)
  show ?thesis
  proof (cases "uri_epath u")
    case None
    then have "strchr (authority_string u h @ path_string u) (uchar (CHR ''/'')) = None"
      using strchr_conv [of "authority_string u h" "CHR ''/''"] a by (auto simp: path_string_def NUL_def)
    then show ?thesis
      using c assms(3-) None pa [of "v\<lparr>uri_equery := uri_equery u\<rparr>"]
      by (auto simp: parse_hierarchical_def Let_def strncmp_slashes path_string_def intro!: uri.equality)
  next
    case (Some e)
    have e: "first_char e = CHR ''/''" using sh Some by (simp add: wf_authority_def)
    obtain t where t: "e = CHR ''/'' # t" using e by (cases e) (auto simp: NUL_def)
    have tw: "takeWhile (\<lambda>x. x \<noteq> CHR ''/'') (authority_string u h @ e) = authority_string u h"
      unfolding t using a(3) by (rule takeWhile_found)
    have "strchr (authority_string u h @ path_string u) (uchar (CHR ''/'')) = Some (length (authority_string u h))"
      using strchr_conv [of "authority_string u h @ e" "CHR ''/''"] a p Some tw t by (auto simp: path_string_def NUL_def)
    then show ?thesis
      using c assms(3-) Some pa [of "v\<lparr>uri_equery := uri_equery u, uri_epath := Some e, uri_path := Some e\<rparr>"]
      by (auto simp: parse_hierarchical_def Let_def strncmp_slashes path_string_def intro!: uri.equality)
  qed
qed

lemma parse_body_string:
  assumes "wf_uri u" "v = uri_empty\<lparr>uri_params := None, uri_efragment := uri_efragment u\<rparr>"
  shows "parse_body (body_string u) v = raw_fields u"
proof (cases "uri_scheme u")
  case None
  have sh: "uri_opaque u = None" "uri_host u = None"
    using wf_uriD(2) [OF assms(1)] None by (auto simp: wf_shape_def split: option.splits)
  note user = shape_host_None [OF wf_uriD(2) [OF assms(1)] sh(2)]
  have body: "body_string u = path_string u @ query_string u"
    using None sh by (simp add: body_string_def scheme_string_def opaque_string_def)
  have "scheme_end (path_string u) = None"
    using wf_uriD(2) [OF assms(1)] None sh by (auto simp: wf_shape_def path_string_def split: option.splits if_splits)
  then have "scheme_end (body_string u) = None"
    unfolding body by (intro scheme_end_append) (auto simp: query_string_def split: option.split)
  then have b: "parse_body (body_string u) v = parse_hierarchical (path_string u @ query_string u) v"
    by (simp add: parse_body_def body)
  show ?thesis
  proof (cases "uri_epath u")
    case e: None
    have "parse_hierarchical (query_string u) v = v\<lparr>uri_equery := uri_equery u\<rparr>"
      using query_cut [OF assms(1), of "[]"] by (simp add: parse_hierarchical_def)
    then show ?thesis unfolding b using e None sh user wf_uriD(1) [OF assms(1)]
      by (auto simp: path_string_def raw_fields_def assms(2) uri_empty_def intro!: uri.equality)
  next
    case (Some e)
    then show ?thesis
      unfolding b using parse_hierarchical_path [OF assms(1) sh(2,1) Some, of v] None sh user wf_uriD(1) [OF assms(1)]
      by (auto simp: path_string_def raw_fields_def assms(2) uri_empty_def intro!: uri.equality)
  qed
next
  case (Some s)
  note wf = wf_uriD [OF assms(1)]
  define tmp where "tmp = (if uri_host u \<noteq> None then ''//'' else []) @ opaque_string u @
     (case uri_host u of None \<Rightarrow> [] | Some h \<Rightarrow> authority_string u h) @ path_string u @ query_string u"
  have "body_string u = s @ CHR '':'' # tmp" using Some by (simp add: body_string_def scheme_string_def tmp_def)
  then have b: "parse_body (body_string u) v =
      (if first_char tmp = CHR ''/'' then parse_hierarchical tmp (v\<lparr>uri_scheme := Some s\<rparr>)
       else v\<lparr>uri_scheme := Some s, uri_opaque := Some tmp\<rparr>)"
    using scheme_end_found [OF wf(3) [OF Some], of tmp] by (simp add: parse_body_def)
  show ?thesis
  proof (cases "uri_opaque u")
    case o: (Some p)
    then have n: "uri_user u = None" "uri_password u = None" "uri_host u = None" "uri_port u = None" "uri_epath u = None"
        "uri_equery u = None" "first_char p \<noteq> CHR ''/''" using wf(2) by (auto simp: wf_shape_def)
    then have "tmp = encoded URI_OPAQUE p" using o by (simp add: tmp_def opaque_string_def path_string_def query_string_def)
    then show ?thesis unfolding b using first_encoded [OF n(7)] n o Some wf(1,10)
      by (auto simp: raw_fields_def assms(2) uri_empty_def intro!: uri.equality)
  next
    case o: None
    show ?thesis
    proof (cases "uri_host u")
      case h: (Some h)
      then have t: "tmp = ''//'' @ authority_string u h @ path_string u @ query_string u" using o by (simp add: tmp_def opaque_string_def)
      then show ?thesis
        unfolding b using parse_hierarchical_net [OF assms(1) h, of "v\<lparr>uri_scheme := Some s\<rparr>"] o Some wf(1)
        by (auto simp: raw_fields_def assms(2) uri_empty_def intro!: uri.equality)
    next
      case h: None
      note user = shape_host_None [OF wf(2) h]
      obtain e where e: "uri_epath u = Some e" "first_char e = CHR ''/''"
        using wf(2) Some o h by (auto simp: wf_shape_def split: option.splits if_splits)
      have t: "tmp = e @ query_string u" using o h e by (simp add: tmp_def opaque_string_def path_string_def)
      have "first_char tmp = CHR ''/''" using e(2) by (cases e) (auto simp: t NUL_def)
      then show ?thesis
        unfolding b using parse_hierarchical_path [OF assms(1) h o e(1), of "v\<lparr>uri_scheme := Some s\<rparr>"] o h e user Some wf(1)
        by (auto simp: t raw_fields_def assms(2) uri_empty_def intro!: uri.equality)
    qed
  qed
qed

lemma parse_uri_string:
  assumes "wf_uri u"
  shows "parse_fields (uri_string u) ps = Some (u, ps)"
proof -
  note str = uri_string_body [OF assms] and bc = body_chars [OF assms]
  have "uri_string u \<noteq> a @ ''##'' @ b" for a b
  proof
    assume "uri_string u = a @ ''##'' @ b"
    then have "2 \<le> count_list (uri_string u) (CHR ''#'')" by simp
    moreover have "count_list (uri_string u) (CHR ''#'') \<le> 1"
      using bc(2) wf_uriD(12) [OF assms] by (auto simp: str fragment_string_def split: option.split)
    ultimately show False by simp
  qed
  then have params: "parse_params (uri_string u) ps = Some (uri_string u, None, ps)"
    using strstr_no_params by (simp add: parse_params_def)
  have cut: "cut (CHR ''#'') (uri_string u) = (body_string u, uri_efragment u)"
  proof (cases "uri_efragment u")
    case None
    then show ?thesis using cut_none bc by (simp add: str fragment_string_def NUL_def)
  next
    case (Some f)
    then show ?thesis using cut_found [of "body_string u" f "CHR ''#''"] bc wf_uriD(12) [OF assms Some] visible_no_NUL
      by (auto simp: str fragment_string_def NUL_def)
  qed
  have "parse_fields (uri_string u) ps =
      Some (decode_fields (parse_body (body_string u) (uri_empty\<lparr>uri_params := None, uri_efragment := uri_efragment u\<rparr>)), ps)"
    using params cut by (simp add: parse_fields_def)
  then show ?thesis using parse_body_string [OF assms refl] decode_raw_fields [OF assms] by simp
qed

lemma format_uri_string:
  assumes "len < 2 ^ 31" "length (uri_string u) < 2 ^ 31" "len \<le> length buf"
  shows "format_uri (Some u) (of_nat len) buf = Some (of_nat (length (uri_string u)),
    if len = 0 then buf else patch 0 (take (len - 1) (uri_string u) @ [NUL]) buf)"
proof (cases "len = 0")
  case True
  then show ?thesis using format_fields_emit [OF assms(1), of 0 u all_fields buf] assms
    by (simp add: format_uri_def uri_string_def emit_def)
next
  case False
  then have l: "(of_nat len :: u32) \<noteq> 0" using unat_small [OF assms(1)] by auto
  have nul: "buf[0 := NUL] ! 0 = NUL" using False assms(3) by (cases buf) auto
  have "format_fields u (of_nat len) all_fields (of_nat 0) (buf[0 := NUL]) =
      Some (of_nat (length (uri_string u)), emit len 0 (uri_string u) (buf[0 := NUL]))"
    using format_fields_emit [OF assms(1), of 0 u all_fields "buf[0 := NUL]"] assms False nul by (simp add: uri_string_def)
  moreover have "emit len 0 (uri_string u) (buf[0 := NUL]) = patch 0 (take (len - 1) (uri_string u) @ [NUL]) buf"
    using False by (simp add: emit_def patch_def)
  ultimately show ?thesis using False l assms(3) by (auto simp: format_uri_def buf_put_def)
qed

lemma uri_string_no_NUL: "wf_uri u \<Longrightarrow> NUL \<notin> set (uri_string u)"
  using body_chars [of u] wf_uriD(12) [of u] visible_no_NUL
  by (auto simp: uri_string_body fragment_string_def NUL_def split: option.split)

subsection \<open>Allocated strings\<close>

lemma free_memory: "free p h = Some h' \<Longrightarrow> memory h' = memory h"
proof -
  assume "free p h = Some h'"
  then have "realloc_old p NOWHERE 0 h = Some h'" by (auto simp: free_def realloc_def realloc_new_def NOWHERE_def Option.bind_eq_Some_conv)
  moreover have "mem_copy m d s 0 = m" for m d s by (simp add: mem_copy_def mem_read_def mem_write_def)
  ultimately show ?thesis
    by (auto simp: realloc_old_def free_memblock_def Let_def split: if_splits option.splits)
qed

lemma mem_upd_string:
  "length s < 2 ^ 32 - 1 \<Longrightarrow> mem_read (memory (mem_upd (\<lambda>m. mem_write m p (string_bytes s)) h)) p (Suc (length s)) = string_bytes s"
  using mem_read_write_same [of "string_bytes s" "Suc (length s)" "memory h" p] by (simp add: mem_upd_def string_bytes_def)

lemma strdup_string:
  assumes "strdup n D s h = Some (p, h')" "p \<noteq> 0" "NUL \<notin> set s" "length s < 2 ^ 32 - 1"
  shows "mem_read (memory h') p (Suc (length s)) = string_bytes s"
proof -
  have "strnlen s (NOT 0) = of_nat (length s)" using assms(3,4) by (intro strnlen_conv) auto
  moreover have "unat (of_nat (length s) :: u32) = length s" using assms(4) by (simp add: unsigned_of_nat take_bit_nat_eq_self)
  ultimately obtain h1 where "h' = mem_upd (\<lambda>m. mem_write m p (string_bytes s)) h1"
    using assms(1,2) by (auto simp: strdup_def strndup_def Let_def Option.bind_eq_Some_conv)
  then show ?thesis using mem_upd_string [OF assms(4)] by simp
qed

lemma vasprintf_string:
  assumes "formatted fmt args = Some out" "length out < 2 ^ 32 - 1" "vasprintf n D fmt args h = Some (OK, len, p, h')"
  shows "len = of_nat (length out)" "mem_read (memory h') p (Suc (length out)) = string_bytes out"
proof -
  let ?n = "of_nat (Suc (length out)) :: u32"
  have u: "unat ?n = Suc (length out)" using assms(2) by (simp add: unsigned_of_nat take_bit_nat_eq_self del: of_nat_Suc)
  have u': "unat (of_nat (length out) + 1 :: u32) = Suc (length out)" using u by (simp add: add.commute)
  have s: "?n \<noteq> 0" using u by auto
  have first: "vsnprintf [] 0 0 fmt args = Some (of_nat (length out), [])"
    using vsnprintf_formatted [OF assms(1), of 0 0 "[]"] assms(2) by simp
  have second: "vsnprintf b 0 ?n fmt args = Some (of_nat (length out), out @ [NUL])" if "length b = Suc (length out)" for b
    using vsnprintf_formatted [OF assms(1), of ?n 0 b] assms(2) that u s by (simp add: patch_def del: of_nat_Suc)
  have nul: "string_bytes out = map of_char (out @ [NUL])" by (simp add: string_bytes_def NUL_def)
  have second': "vsnprintf b 0 (of_nat (length out) + 1) fmt args = Some (of_nat (length out), out @ [NUL])"
    if "length b = Suc (length out)" for b using second [OF that] by (simp add: add.commute)
  obtain h1 where "len = of_nat (length out)" "h' = mem_upd (\<lambda>m. mem_write m p (string_bytes out)) h1"
    using assms(3) second' u' unfolding vasprintf_def first nul
    by (auto simp: Let_def Option.bind_eq_Some_conv split: if_splits)
  then show "len = of_nat (length out)" "mem_read (memory h') p (Suc (length out)) = string_bytes out"
    using mem_upd_string [of out p h1] assms(2) by simp_all
qed

subsection \<open>Relative paths\<close>

lemma strip_dots_parents: "strip_dots base (concat (replicate k ''../'') @ r) = strip_dots ((dirname ^^ k) base) r"
  by (induction k arbitrary: base) (simp_all add: funpow_swap1)

lemma strip_dots_done: "first_char r \<noteq> CHR ''.'' \<Longrightarrow> strip_dots base r = (base, r)"
  by (cases "(base, r)" rule: strip_dots.cases) auto

lemma dirname_nonempty [simp]: "dirname p \<noteq> []"
proof (cases "strrchr p 0x2f")
  case (Some i)
  have "i < length (takeWhile (\<lambda>c. c \<noteq> NUL) p)" using Some strrchr_from_Some unfolding strrchr_def by blast
  then have "i < length p" using length_takeWhile_le less_le_trans by blast
  then show ?thesis using Some by (auto simp: dirname_def)
qed (simp add: dirname_def)

lemma formatted_sss: "NUL \<notin> set a \<Longrightarrow> NUL \<notin> set b \<Longrightarrow> NUL \<notin> set c \<Longrightarrow>
  formatted ''%s%s%s'' [Arg_string (Some a), Arg_string (Some b), Arg_string (Some c)] = Some (a @ b @ c)"
  by (simp add: format_evals c_string_id [unfolded NUL_def])

lemma dirname_no_NUL: "NUL \<notin> set p \<Longrightarrow> NUL \<notin> set (dirname p)"
  by (auto simp: dirname_def NUL_def split: option.splits dest: in_set_takeD)

lemma length_dirname: "length (dirname p) \<le> Suc (length p)"
  by (auto simp: dirname_def split: option.split)

lemma strip_dots_string:
  assumes "strip_dots b r = (b', r')" "NUL \<notin> set b" "NUL \<notin> set r" "b \<noteq> []"
  shows "NUL \<notin> set b' \<and> NUL \<notin> set r' \<and> b' \<noteq> [] \<and> length b' + length r' \<le> length b + length r"
  using assms
proof (induction b r rule: strip_dots.induct)
  case (1 base c1 c2 c3 s)
  then show ?case using length_dirname [of base] dirname_no_NUL [of base]
    by (auto split: if_splits)
next
  case (2 base c1 c2)
  then show ?case using length_dirname [of base] dirname_no_NUL [of base] by (auto split: if_splits)
qed (auto split: if_splits)

lemma resolve_path_string:
  assumes "resolve_path n D base rel h = Some (Some (p, s), h')" "NUL \<notin> set base" "NUL \<notin> set rel"
    "length base + length rel < 2 ^ 31"
  shows "s = resolved_path base rel" "p \<noteq> 0 \<Longrightarrow> mem_read (memory h') p (Suc (length s)) = string_bytes s"
proof -
  have "s = resolved_path base rel \<and> (p \<noteq> 0 \<longrightarrow> mem_read (memory h') p (Suc (length s)) = string_bytes s)"
  proof (cases "first_char rel = CHR ''/''")
    case True
    then have "strdup n D rel h = Some (p, h')" "s = rel" "s = resolved_path base rel"
      using assms(1) by (auto simp: resolve_path_def resolved_path_def Option.bind_eq_Some_conv split: if_splits)
    then show ?thesis using strdup_string [of n D rel h p h'] assms(3,4) by auto
  next
    case False
    obtain bt r where sd: "strip_dots (dirname base) rel = (bt, r)" by fastforce
    define sep where "sep = (if last bt = CHR ''/'' then [] else ''/'')"
    note st = strip_dots_string [OF sd dirname_no_NUL [OF assms(2)] assms(3) dirname_nonempty]
    obtain c h1 len h2 where v: "vasprintf n D ''%s%s%s'' [Arg_string (Some bt), Arg_string (Some sep), Arg_string (Some r)] h1 = Some (OK, len, p, h2)"
        and f: "free c h2 = Some h'" and s: "s = resolved_path base rel"
      using assms(1) False sd unfolding resolve_path_def sep_def
      by (auto simp: Option.bind_eq_Some_conv split: if_splits)
    have r: "resolved_path base rel = bt @ sep @ r" using False sd by (simp add: resolved_path_def sep_def)
    have "formatted ''%s%s%s'' [Arg_string (Some bt), Arg_string (Some sep), Arg_string (Some r)] = Some (bt @ sep @ r)"
      using st by (intro formatted_sss) (auto simp: sep_def NUL_def)
    moreover have "length (bt @ sep @ r) < 2 ^ 32 - 1"
      using st length_dirname [of base] assms(4) by (auto simp: sep_def)
    ultimately have "mem_read (memory h2) p (Suc (length (bt @ sep @ r))) = string_bytes (bt @ sep @ r)"
      using vasprintf_string(2) [OF _ _ v] by blast
    then show ?thesis using s r free_memory [OF f] by simp
  qed
  then show "s = resolved_path base rel" "p \<noteq> 0 \<Longrightarrow> mem_read (memory h') p (Suc (length s)) = string_bytes s" by auto
qed

section \<open>Theorems\<close>

text \<open>
  C25. Formatting a well-formed URI into a buffer that is large enough and parsing the result
  gives the URI back: every field, with its percent encoding, and no request parameter list is
  claimed.
\<close>

theorem uri_roundtrip:
  assumes "wf_uri u" "length (uri_string u) < len" "len < 2 ^ 31" "len \<le> length buf"
  shows "\<exists>k buf'. format_uri (Some u) (of_nat len) buf = Some (k, buf') \<and>
    unat k = length (c_string buf') \<and> parse_fields (c_string buf') ps = Some (u, ps)"
proof -
  have "c_string (patch 0 (uri_string u @ [NUL]) buf) = uri_string u"
    using c_string_append [OF uri_string_no_NUL [OF assms(1)]] by (simp add: patch_def)
  then show ?thesis
    using format_uri_string [OF assms(3) _ assms(4), of u] assms(2,3) parse_uri_string [OF assms(1)]
    by (auto simp: unat_small)
qed

theorem uri_roundtrip_witness:
  "\<exists>k buf. format_uri (Some ex_uri) (of_nat 64) (replicate 64 NUL) = Some (k, buf) \<and>
     unat k = length (c_string buf) \<and> parse_fields (c_string buf) [] = Some (ex_uri, [])"
proof -
  have "wf_uri ex_uri" by code_simp
  moreover have "uri_string ex_uri = ''http://a%3Ab:c%40d@[fe80::1]:8080/x%20y?q=1#top''" by code_simp
  then have "length (uri_string ex_uri) < 64" by simp
  ultimately show ?thesis using uri_roundtrip [of ex_uri 64 "replicate 64 NUL" "[]"] by simp
qed

text \<open>
  C26. Decoding a field in place is safe and is decoding: reading and writing the same buffer, it
  leaves the decoded string, terminated, in front, never outgrows the encoded one, and does not
  touch the bytes after its terminator.
\<close>

theorem uri_decode_inplace_correct:
  assumes "NUL \<notin> set s"
  shows "\<exists>buf. uri_decode_inplace (s @ NUL # rest) = Some buf \<and>
    take (Suc (length (decoded s))) buf = decoded s @ [NUL] \<and> drop (Suc (length s)) buf = rest \<and>
    length (decoded s) \<le> length s"
  using assms by (rule uri_decode_inplace_decoded)

theorem uri_decode_inplace_correct_witness:
  "\<exists>buf. uri_decode_inplace (''a%20b'' @ NUL # ''xyz'') = Some buf \<and>
    take (Suc (length (decoded ''a%20b''))) buf = decoded ''a%20b'' @ [NUL] \<and> drop (Suc (length ''a%20b'')) buf = ''xyz'' \<and>
    length (decoded ''a%20b'') \<le> length ''a%20b''"
  using uri_decode_inplace_correct [of "''a%20b''" "''xyz''"] by (simp add: NUL_def)

text \<open>
  C28. Formatting never writes beyond the given length and always terminates the buffer: it stores
  the longest prefix of the URI string that fits, and returns the length of the whole string.
\<close>

theorem format_uri_correct:
  assumes "len < 2 ^ 31" "length (uri_string u) < 2 ^ 31" "len \<le> length buf"
  shows "format_uri (Some u) (of_nat len) buf = Some (of_nat (length (uri_string u)),
    if len = 0 then buf else patch 0 (take (len - 1) (uri_string u) @ [NUL]) buf)"
  using assms by (rule format_uri_string)

theorem format_uri_correct_witness:
  "format_uri (Some ex_uri) (of_nat 8) (replicate 8 (CHR ''x'')) = Some (47, ''http://'' @ [NUL])"
proof -
  have "uri_string ex_uri = ''http://a%3Ab:c%40d@[fe80::1]:8080/x%20y?q=1#top''" by code_simp
  then show ?thesis using format_uri_correct [of 8 ex_uri "replicate 8 (CHR ''x'')"] by (simp add: patch_def)
qed

text \<open>
  C30. A relative path that goes up \<open>k\<close> directories resolves to the path below the
  \<open>k + 1\<close>-fold parent of the base path.
\<close>

theorem resolved_path_parents:
  assumes "first_char r \<noteq> CHR ''.''" "first_char r \<noteq> CHR ''/'' \<or> k \<noteq> 0"
  shows "resolved_path base (concat (replicate k ''../'') @ r) =
    (let dir = (dirname ^^ Suc k) base in dir @ (if last dir = CHR ''/'' then [] else ''/'') @ r)"
proof -
  have "first_char (concat (replicate k ''../'') @ r) \<noteq> CHR ''/''" using assms by (cases k) auto
  then show ?thesis
    using strip_dots_parents [of "dirname base" k r] strip_dots_done [OF assms(1)]
    by (simp add: resolved_path_def funpow_swap1)
qed

theorem resolved_path_parents_witness:
  "resolved_path ''/var/lib/tftpboot/vmlinuz'' ''../initrd'' = ''/var/lib/initrd''"
proof -
  have "dirname (dirname ''/var/lib/tftpboot/vmlinuz'') = ''/var/lib''" by code_simp
  then show ?thesis
    using resolved_path_parents [of "''initrd''" 1 "''/var/lib/tftpboot/vmlinuz''"] by simp
qed

text \<open>
  A byte outside of ASCII is passed to the formatter with its sign extended, and its escape gets
  eight digits: decoding the encoded string does not give it back.
\<close>

theorem uri_encode_high_byte:
  "uri_encode URI_PATH [CHR 0xE9] 0 16 (replicate 16 NUL) = Some (9, ''%FFFFFFE9'' @ NUL # replicate 6 NUL)"
  "decoded ''%FFFFFFE9'' = CHR 0xFF # ''FFFFE9''"
proof -
  have "encoded URI_PATH [CHR 0xE9] = ''%FFFFFFE9''" by code_simp
  then show "uri_encode URI_PATH [CHR 0xE9] 0 16 (replicate 16 NUL) = Some (9, ''%FFFFFFE9'' @ NUL # replicate 6 NUL)"
    using uri_encode_encoded [of 16 0 "replicate 16 NUL" URI_PATH "[CHR 0xE9]"] by (simp add: patch_def)
  show "decoded ''%FFFFFFE9'' = CHR 0xFF # ''FFFFE9''" by code_simp
qed

end
