(* ===== verification/Balance.thy ===== *)
theory Balance
  imports Sanboot
begin

text \<open>
  The references that the program holds. An object is created with a count of zero, which
  stands for the reference of its creator, and freed when the count falls below zero. Every
  interface plugged into it, every running timer of a SAN device and every queued process
  holds a reference more; a queued NVMe process stands for two, since starting a command
  takes one that the process gives back. The balance of an object is its count less what is
  held in this way. The closing of interfaces and the steps of the processes keep it.
\<close>

section \<open>The balance of references\<close>

text \<open>The interfaces whose destination belongs to an object.\<close>

definition links :: "'h world \<Rightarrow> obj \<Rightarrow> intf_id set" where
  "links w ob = {i. \<exists>d. intf_dest (intfs w i) = Some d \<and> intf_refcnt (intfs w d) = Some ob}"

text \<open>The references that a queued process holds, and all that are held.\<close>

definition proc_refs :: "obj \<Rightarrow> proc_id \<Rightarrow> int" where
  "proc_refs ob p =
     (if proc_refcnt p = Some ob then (case p of Nvme_process _ \<Rightarrow> 2 | _ \<Rightarrow> 1) else 0)"

definition held :: "'h world \<Rightarrow> obj \<Rightarrow> int" where
  "held w ob = int (card (links w ob)) + int (length (filter (\<lambda>s. San_obj s = ob) (timers w))) +
     sum_list (map (proc_refs ob) (run_queue w))"

definition balance :: "'h world \<Rightarrow> obj \<Rightarrow> int" where
  "balance w ob = refcnts w ob - held w ob"

text \<open>The run queue and the list of running timers agree with the objects in them.\<close>

definition refs_ok :: "'h world \<Rightarrow> bool" where
  "refs_ok w \<longleftrightarrow> (\<forall>ob. finite (links w ob)) \<and> distinct (run_queue w) \<and> distinct (timers w) \<and>
     (\<forall>s. timer_running (san_timer (sandevs w s)) \<longleftrightarrow> s \<in> set (timers w)) \<and>
     intf_refcnt (intfs w Null_intf) = None"

definition ref1 :: "obj option \<Rightarrow> obj \<Rightarrow> int" where
  "ref1 r ob = (if r = Some ob then 1 else 0)"

text \<open>
  A part of the program that changes the balances by \<open>\<delta>\<close>, and frees nothing when they are not
  negative at either end; \<open>moves\<close> if it also queues no process.
\<close>

definition shifts :: "(obj \<Rightarrow> int) \<Rightarrow> 'h world \<Rightarrow> 'h world \<Rightarrow> bool" where
  "shifts \<delta> w w' \<longleftrightarrow> (\<forall>i. intf_refcnt (intfs w' i) = intf_refcnt (intfs w i)) \<and>
     (refs_ok w \<longrightarrow> refs_ok w' \<and> (\<forall>ob. balance w' ob = balance w ob + \<delta> ob) \<and>
        ((\<forall>ob. 0 \<le> balance w ob \<and> 0 \<le> balance w' ob) \<longrightarrow> freed w' = freed w))"

definition moves :: "(obj \<Rightarrow> int) \<Rightarrow> 'h world \<Rightarrow> 'h world \<Rightarrow> bool" where
  "moves \<delta> w w' \<longleftrightarrow> shifts \<delta> w w' \<and> set (run_queue w') \<subseteq> set (run_queue w)"

abbreviation keeps :: "'h world \<Rightarrow> 'h world \<Rightarrow> bool" where
  "keeps \<equiv> moves (\<lambda>_. 0)"

text \<open>Close methods that keep the balance.\<close>

definition closer_keeps :: "'h closer \<Rightarrow> bool" where
  "closer_keeps H \<longleftrightarrow> (\<forall>ds m i rc w w'. H ds = Some m \<longrightarrow> m i rc w = Some w' \<longrightarrow> keeps w w')"

text \<open>What taking the reference of a process and queueing it adds to the balance.\<close>

definition process_move :: "proc_id \<Rightarrow> obj \<Rightarrow> int" where
  "process_move p ob = ref1 (proc_refcnt p) ob - proc_refs ob p"

section \<open>Lemmas\<close>

lemma shifts_trans:
  assumes "shifts a w w1" "shifts b w1 w2" "\<And>ob. 0 \<le> a ob \<or> b ob \<le> 0"
  shows "shifts (\<lambda>ob. a ob + b ob) w w2"
proof -
  have "0 \<le> balance w1 ob" if "refs_ok w" "\<forall>ob. 0 \<le> balance w ob \<and> 0 \<le> balance w2 ob" for ob
  proof -
    have "balance w1 ob = balance w ob + a ob" "balance w2 ob = balance w1 ob + b ob"
      using assms(1,2) that(1) by (auto simp: shifts_def)
    moreover have "0 \<le> balance w ob" "0 \<le> balance w2 ob" using that(2) by auto
    ultimately show ?thesis using assms(3) [of ob] by linarith
  qed
  then show ?thesis using assms(1,2) by (simp add: shifts_def)
qed

lemma moves_trans:
  "moves a w w1 \<Longrightarrow> moves b w1 w2 \<Longrightarrow> (\<And>ob. 0 \<le> a ob \<or> b ob \<le> 0) \<Longrightarrow> moves (\<lambda>ob. a ob + b ob) w w2"
  by (auto simp: moves_def intro: shifts_trans)

lemma keeps_trans: "keeps w w1 \<Longrightarrow> keeps w1 w2 \<Longrightarrow> keeps w w2"
  using moves_trans [of "\<lambda>_. 0" w w1 "\<lambda>_. 0" w2] by simp

lemma moves_keeps: "moves a w w1 \<Longrightarrow> keeps w1 w2 \<Longrightarrow> moves a w w2"
  using moves_trans [of a w w1 "\<lambda>_. 0" w2] by simp

lemma keeps_moves: "keeps w w1 \<Longrightarrow> moves a w1 w2 \<Longrightarrow> moves a w w2"
  using moves_trans [of "\<lambda>_. 0" w w1 a w2] by simp

lemma moves_shifts: "moves a w w' \<Longrightarrow> shifts a w w'"
  by (simp add: moves_def)

lemma keeps_refl [simp]: "keeps w w"
  by (simp add: moves_def shifts_def)

lemma ref1_nonneg [simp]: "0 \<le> ref1 r ob"
  by (simp add: ref1_def)

lemma moves_cancel: "moves (ref1 r) w w1 \<Longrightarrow> moves (\<lambda>ob. - ref1 r ob) w1 w2 \<Longrightarrow> keeps w w2"
  using moves_trans [of "ref1 r" w w1 "\<lambda>ob. - ref1 r ob" w2] by simp

lemma proc_refs_nonneg [simp]: "0 \<le> proc_refs ob p"
  by (simp add: proc_refs_def split: proc_id.split)

lemma held_nonneg: "0 \<le> held w ob"
  unfolding held_def by (intro add_nonneg_nonneg sum_list_nonneg) auto

lemma links_held: "refs_ok w \<Longrightarrow> i \<in> links w ob \<Longrightarrow> 1 \<le> held w ob"
proof -
  assume "refs_ok w" "i \<in> links w ob"
  then have "0 < card (links w ob)" by (auto simp: refs_ok_def card_gt_0_iff)
  moreover have "0 \<le> sum_list (map (proc_refs ob) (run_queue w))" by (rule sum_list_nonneg) auto
  ultimately show ?thesis unfolding held_def by linarith
qed

text \<open>A change of other parts of the state.\<close>

lemma keeps_frame:
  assumes "refcnts w' = refcnts w" "freed w' = freed w" "run_queue w' = run_queue w" "timers w' = timers w"
    "\<And>i. intf_dest (intfs w' i) = intf_dest (intfs w i)" "\<And>i. intf_refcnt (intfs w' i) = intf_refcnt (intfs w i)"
    "\<And>s. timer_running (san_timer (sandevs w' s)) = timer_running (san_timer (sandevs w s))"
  shows "keeps w w'"
proof -
  have "links w' = links w" using assms(5,6) by (auto simp: links_def fun_eq_iff)
  then show ?thesis using assms by (simp add: moves_def shifts_def refs_ok_def balance_def held_def)
qed

lemma keeps_upd_sandev:
  "(\<And>d. timer_running (san_timer (f d)) = timer_running (san_timer d)) \<Longrightarrow> keeps w (upd_sandev s f w)"
  by (intro keeps_frame) (auto simp: upd_sandev_def)

lemma keeps_upd_intf:
  "(\<And>x. intf_dest (f x) = intf_dest x \<and> intf_refcnt (f x) = intf_refcnt x) \<Longrightarrow> keeps w (upd_intf i f w)"
  by (intro keeps_frame) (auto simp: upd_intf_def)

lemma ref1_None [simp]: "ref1 None = (\<lambda>_. 0)"
  by (simp add: ref1_def fun_eq_iff)

lemma moves_increment: "moves (ref1 r) w (ref_increment r w)"
proof (cases r)
  case None
  then show ?thesis by (simp add: ref_increment_def ref1_def)
next
  case (Some ob)
  have "links (ref_increment r w) = links w" by (auto simp: links_def ref_increment_def Some fun_eq_iff)
  then show ?thesis by (auto simp: moves_def shifts_def refs_ok_def balance_def held_def ref_increment_def ref1_def Some)
qed

lemma free_world:
  assumes "free p w = Some w'"
  shows "refcnts w' = refcnts w" "freed w' = freed w" "run_queue w' = run_queue w" "timers w' = timers w" "intfs w' = intfs w" "sandevs w' = sandevs w"
  using assms
  by (auto simp: free_def realloc_def realloc_new_def realloc_old_def free_memblock_def Option.bind_eq_Some_conv Let_def
      split: if_splits option.splits)

lemma ref_decrement_fields:
  assumes "ref_decrement (Some ob) w = Some w'"
  shows "refcnts w' = (refcnts w)(ob := refcnts w ob - 1)"
    "freed w' = (if refcnts w ob = 0 then ob # freed w else freed w)" "run_queue w' = run_queue w" "timers w' = timers w"
    "intfs w' = intfs w" "sandevs w' = sandevs w"
  using assms free_world [of "obj_addr w ob" "w\<lparr>refcnts := (refcnts w)(ob := refcnts w ob - 1), freed := ob # freed w\<rparr>" w']
  by (auto simp: ref_decrement_def Let_def split: if_splits)

lemma moves_decrement:
  assumes "ref_decrement r w = Some w'"
  shows "moves (\<lambda>ob. - ref1 r ob) w w'"
proof (cases r)
  case None
  then show ?thesis using assms by (simp add: ref_decrement_def ref1_def)
next
  case (Some ob)
  note f = ref_decrement_fields [OF assms [unfolded Some]]
  have l: "links w' = links w" by (auto simp: links_def fun_eq_iff f)
  then have "0 \<le> balance w' ob \<Longrightarrow> refcnts w ob \<noteq> 0"
    using held_nonneg [of w' ob] by (simp add: balance_def f)
  then have "(\<forall>ob. 0 \<le> balance w ob \<and> 0 \<le> balance w' ob) \<Longrightarrow> freed w' = freed w" by (simp add: f)
  then show ?thesis
    using l by (auto simp: moves_def shifts_def refs_ok_def balance_def held_def ref1_def Some f)
qed

lemma moves_set_dest:
  assumes "\<And>d. intf_dest (intfs w i) = Some d \<Longrightarrow> intf_refcnt (intfs w d) = old" "intf_dest (intfs w i) = None \<Longrightarrow> old = None"
  shows "moves (\<lambda>ob. ref1 old ob - ref1 (intf_refcnt (intfs w d)) ob) w (set_dest i d w)"
proof -
  let ?w = "set_dest i d w"
  have r: "intf_refcnt (intfs ?w j) = intf_refcnt (intfs w j)" for j by (simp add: set_dest_def upd_intf_def)
  have l: "links ?w ob = (if intf_refcnt (intfs w d) = Some ob then insert i (links w ob) else links w ob - {i})" for ob
    using r by (auto simp: links_def set_dest_def upd_intf_def split: if_splits)
  have i: "i \<in> links w ob \<longleftrightarrow> old = Some ob" for ob
    using assms by (cases "intf_dest (intfs w i)") (auto simp: links_def)
  have "int (card (links ?w ob)) = int (card (links w ob)) - ref1 old ob + ref1 (intf_refcnt (intfs w d)) ob"
    if "finite (links w ob)" for ob
  proof -
    have "0 < card (links w ob)" if "i \<in> links w ob" using that \<open>finite (links w ob)\<close> by (auto simp: card_gt_0_iff)
    then show ?thesis using that i [of ob] by (auto simp: l ref1_def card_insert_if card_Diff_singleton of_nat_diff)
  qed
  moreover have "finite (links ?w ob)" if "finite (links w ob)" for ob using that by (simp add: l)
  ultimately show ?thesis
    using r by (auto simp: moves_def shifts_def refs_ok_def balance_def held_def) (auto simp: set_dest_def upd_intf_def)
qed

lemma moves_refcnt: "moves \<delta> w w' \<Longrightarrow> intf_refcnt (intfs w' i) = intf_refcnt (intfs w i)"
  by (simp add: moves_def shifts_def)

lemma moves_get: "moves (ref1 (intf_refcnt (intfs w i))) w (intf_get i w)"
  unfolding intf_get_def by (rule moves_increment)

lemma moves_put: "intf_put i w = Some w' \<Longrightarrow> moves (\<lambda>ob. - ref1 (intf_refcnt (intfs w i)) ob) w w'"
  unfolding intf_put_def by (rule moves_decrement)

lemma ref_decrement_intfs: "ref_decrement r w = Some w' \<Longrightarrow> intfs w' = intfs w"
  using free_world(5)
  by (fastforce simp: ref_decrement_def Let_def split: option.splits if_splits)

lemma ref_increment_intfs [simp]: "intfs (ref_increment r w) = intfs w"
  by (simp add: ref_increment_def split: option.split)

lemma moves_Null:
  "moves (\<lambda>ob. a ob - ref1 (intf_refcnt (intfs w Null_intf)) ob) w w' \<Longrightarrow> moves a w w'"
  by (auto simp: moves_def shifts_def refs_ok_def)

subsection \<open>Interfaces\<close>

lemma intf_plug_keeps:
  assumes "intf_plug i d w = Some w'"
  shows "keeps w w'"
proof (cases "i = Null_intf")
  case True
  then show ?thesis using assms by (simp add: intf_plug_def)
next
  case False
  obtain old w2 where o: "intf_dest (intfs w i) = Some old" "intf_put old (intf_get d w) = Some w2" "w' = set_dest i d w2"
    using assms False by (auto simp: intf_plug_def Let_def Option.bind_eq_Some_conv intf_get_def)
  have eq: "intfs w2 = intfs w" using ref_decrement_intfs o(2) unfolding intf_put_def intf_get_def by fastforce
  let ?n = "ref1 (intf_refcnt (intfs w d))" and ?o = "ref1 (intf_refcnt (intfs w old))"
  have put: "moves (\<lambda>ob. - ?o ob) (intf_get d w) w2" using moves_put [OF o(2)] by (simp add: intf_get_def)
  have set: "moves (\<lambda>ob. ?o ob - ?n ob) w2 w'"
    using moves_set_dest [of w2 i "intf_refcnt (intfs w old)" d] o(1,3) eq by simp
  have "freed w' = freed w" if ok: "refs_ok w" "\<forall>ob. 0 \<le> balance w ob"
  proof (cases "intf_refcnt (intfs w old)")
    case (Some ob)
    have "i \<in> links w ob" using o(1) Some by (auto simp: links_def)
    moreover have "held w ob \<le> refcnts w ob" using ok(2) by (simp add: balance_def)
    ultimately have "0 < refcnts w ob" using links_held [OF ok(1)] by fastforce
    then have "refcnts (intf_get d w) ob \<noteq> 0" by (simp add: intf_get_def ref_increment_def split: option.split)
    then show ?thesis
      using ref_decrement_fields(2) [of ob "intf_get d w" w2] o(2,3) Some
      by (simp add: intf_put_def intf_get_def set_dest_def upd_intf_def ref_increment_def split: option.splits)
  next
    case None
    then show ?thesis
      using o(2,3) by (auto simp: intf_put_def intf_get_def ref_decrement_def set_dest_def upd_intf_def ref_increment_def split: option.splits)
  qed
  then show ?thesis using moves_get [of w d] put set by (auto simp: moves_def shifts_def)
qed

lemma intf_plug_plug_keeps: "intf_plug_plug a b w = Some w' \<Longrightarrow> keeps w w'"
  by (auto simp: intf_plug_plug_def Option.bind_eq_Some_conv dest!: intf_plug_keeps intro: keeps_trans)

lemma intf_nullify_keeps: "keeps w (intf_nullify i w)"
  unfolding intf_nullify_def by (rule keeps_upd_intf) simp

lemma intf_reinit_keeps: "keeps w (intf_reinit i w)"
  unfolding intf_reinit_def by (rule keeps_upd_intf) simp

lemma fold_keeps: "(\<And>x w. keeps w (f x w)) \<Longrightarrow> keeps w (fold f xs w)"
  by (induction xs arbitrary: w) (auto intro: keeps_trans)

lemma intf_close_to_keeps:
  assumes "closer_keeps H" "\<And>i rc w w'. restart i rc w = Some w' \<Longrightarrow> keeps w w'" "intf_close_to H restart p rc w = Some w'"
  shows "keeps w w'"
proof -
  obtain d ds w2 where d: "p = Some d" "intf_desc (intfs (intf_get d w) d) = Some ds"
      "(case H ds of Some m \<Rightarrow> m d rc (intf_get d w) | None \<Rightarrow> restart d rc (intf_get d w)) = Some w2" "intf_put d w2 = Some w'"
    using assms(3) by (auto simp: intf_close_to_def intf_get_dest_op_def Let_def Option.bind_eq_Some_conv)
  have k: "keeps (intf_get d w) w2"
    using d(3) assms(1,2) unfolding closer_keeps_def by (auto split: option.splits)
  have "moves (ref1 (intf_refcnt (intfs w d))) w w2" using moves_get k by (rule moves_keeps)
  moreover have "moves (\<lambda>ob. - ref1 (intf_refcnt (intfs w d)) ob) w2 w'"
    using moves_put [OF d(4)] moves_refcnt [OF k] by (simp add: intf_get_def)
  ultimately show ?thesis by (rule moves_cancel)
qed

lemma intf_shutdown_keeps:
  assumes "closer_keeps H" "intf_shutdown n H i rc w = Some w'"
  shows "keeps w w'"
  using assms(2)
proof (induction n arbitrary: i rc w w')
  case (Suc n)
  let ?w1 = "intf_nullify i w"
  let ?tmp = "intf_dest (intfs ?w1 i)"
  let ?w2 = "set_dest i Null_intf ?w1"
  let ?restart = "\<lambda>d rc w. do { w \<leftarrow> intf_shutdown n H d rc w; Some (intf_reinit d w) }"
  obtain w3 d where w3: "intf_close_to H ?restart ?tmp rc ?w2 = Some w3" "?tmp = Some d" "intf_put d w3 = Some w'"
    using Suc.prems by (auto simp: Let_def Option.bind_eq_Some_conv)
  have "keeps v v'" if "?restart j rc v = Some v'" for j rc v v'
    using that keeps_trans [OF Suc.IH intf_reinit_keeps] by (auto simp: Option.bind_eq_Some_conv)
  then have k: "keeps ?w2 w3" using intf_close_to_keeps [OF assms(1) _ w3(1)] by blast
  have r: "intf_refcnt (intfs w3 d) = intf_refcnt (intfs ?w1 d)"
    using moves_refcnt [OF k] by (simp add: set_dest_def upd_intf_def)
  have "moves (ref1 (intf_refcnt (intfs ?w1 d))) ?w1 ?w2"
    by (rule moves_Null [OF moves_set_dest]) (simp_all add: w3(2))
  then have "moves (ref1 (intf_refcnt (intfs ?w1 d))) ?w1 w3" using k by (rule moves_keeps)
  then have "keeps ?w1 w'" using moves_put [OF w3(3)] unfolding r by (rule moves_cancel)
  then show ?case using intf_nullify_keeps keeps_trans by blast
qed simp

lemmas fold_nullify_keeps = fold_keeps [of intf_nullify, OF intf_nullify_keeps]
lemmas fold_reinit_keeps = fold_keeps [of intf_reinit, OF intf_reinit_keeps]

lemma intf_restart_keeps: "closer_keeps H \<Longrightarrow> intf_restart n H i rc w = Some w' \<Longrightarrow> keeps w w'"
  using keeps_trans [OF intf_shutdown_keeps intf_reinit_keeps] by (auto simp: intf_restart_def Option.bind_eq_Some_conv)

lemma shutdown_each_keeps: "closer_keeps H \<Longrightarrow> shutdown_each n H is rc w = Some w' \<Longrightarrow> keeps w w'"
proof (induction "is" arbitrary: w)
  case (Cons i "is")
  then obtain w1 where "intf_shutdown n H i rc w = Some w1" "shutdown_each n H is rc w1 = Some w'"
    by (auto simp: Option.bind_eq_Some_conv)
  then show ?case using Cons.IH Cons.prems(1) intf_shutdown_keeps keeps_trans by blast
qed simp

lemma intfs_shutdown_keeps: "closer_keeps H \<Longrightarrow> intfs_shutdown n H rc is w = Some w' \<Longrightarrow> keeps w w'"
  unfolding intfs_shutdown_def using keeps_trans [OF fold_nullify_keeps shutdown_each_keeps] by blast

lemma intfs_restart_keeps: "closer_keeps H \<Longrightarrow> intfs_restart n H rc is w = Some w' \<Longrightarrow> keeps w w'"
  using keeps_trans [OF intfs_shutdown_keeps fold_reinit_keeps] by (auto simp: intfs_restart_def Option.bind_eq_Some_conv)

subsection \<open>Processes and timers\<close>

lemma sum_remove1: "p \<in> set ps \<Longrightarrow> sum_list (map f (remove1 p ps)) = sum_list (map f ps) - (f p :: int)"
  by (induction ps) auto

lemma process_move_simps [simp]:
  "process_move (San_process s p) = (\<lambda>_. 0)" "process_move Retry_process = (\<lambda>_. 0)" "process_move (Other_process k) = (\<lambda>_. 0)"
  "process_move (Nvme_process d) = (\<lambda>ob. - ref1 (Some (Nvme_obj d)) ob)"
  by (auto simp: process_move_def proc_refs_def ref1_def fun_eq_iff)

lemma process_add_moves:
  "shifts (if process_running p w then (\<lambda>_. 0) else process_move p) w (process_add p w)"
proof (cases "process_running p w")
  case False
  let ?w = "ref_increment (proc_refcnt p) w"
  have q: "run_queue ?w = run_queue w" by (simp add: ref_increment_def split: option.split)
  have "links (?w\<lparr>run_queue := run_queue w @ [p]\<rparr>) = links ?w" by (auto simp: links_def fun_eq_iff)
  then have "shifts (\<lambda>ob. - proc_refs ob p) ?w (?w\<lparr>run_queue := run_queue w @ [p]\<rparr>)"
    using False by (auto simp: shifts_def refs_ok_def balance_def held_def q process_running_def)
  then have "shifts (\<lambda>ob. ref1 (proc_refcnt p) ob + - proc_refs ob p) w (?w\<lparr>run_queue := run_queue w @ [p]\<rparr>)"
    by (rule shifts_trans [OF moves_shifts [OF moves_increment]]) simp
  then show ?thesis using False by (simp add: process_add_def process_move_def [abs_def])
qed (simp add: process_add_def moves_shifts)

lemma process_del_moves:
  assumes "process_del p w = Some w'"
  shows "moves (if process_running p w then (\<lambda>ob. - process_move p ob) else (\<lambda>_. 0)) w w'"
proof (cases "process_running p w")
  case True
  let ?w = "w\<lparr>run_queue := remove1 p (run_queue w)\<rparr>"
  have "links ?w = links w" by (auto simp: links_def fun_eq_iff)
  then have "moves (\<lambda>ob. proc_refs ob p) w ?w"
    using True set_remove1_subset [of p "run_queue w"]
    by (auto simp: moves_def shifts_def refs_ok_def balance_def held_def process_running_def sum_remove1)
  moreover have "moves (\<lambda>ob. - ref1 (proc_refcnt p) ob) ?w w'"
    using assms True by (intro moves_decrement) (simp add: process_del_def)
  ultimately have "moves (\<lambda>ob. proc_refs ob p + - ref1 (proc_refcnt p) ob) w w'"
    by (rule moves_trans) simp
  then show ?thesis using True by (simp add: process_move_def)
qed (use assms in \<open>simp add: process_del_def\<close>)


lemma length_filter_remove1:
  "s \<in> set xs \<Longrightarrow> int (length (filter P (remove1 s xs))) = int (length (filter P xs)) - (if P s then 1 else 0)"
  by (induction xs) auto

lemma timer_off_moves:
  assumes "s \<in> set (timers w) \<or> timer_running (san_timer (sandevs w s))" "\<And>t. \<not> timer_running (f t)"
  shows "moves (ref1 (Some (San_obj s))) w (upd_timer s f (w\<lparr>timers := remove1 s (timers w)\<rparr>))"
proof -
  let ?w = "upd_timer s f (w\<lparr>timers := remove1 s (timers w)\<rparr>)"
  have l: "links ?w = links w" by (auto simp: links_def fun_eq_iff upd_timer_def upd_sandev_def)
  have "refs_ok ?w \<and> (\<forall>ob. balance ?w ob = balance w ob + ref1 (Some (San_obj s)) ob)" if ok: "refs_ok w"
  proof -
    have s: "s \<in> set (timers w)" using assms(1) ok by (auto simp: refs_ok_def)
    have "refs_ok ?w" using ok assms(2) l by (auto simp: refs_ok_def upd_timer_def upd_sandev_def)
    moreover have "balance ?w ob = balance w ob + ref1 (Some (San_obj s)) ob" for ob
      using l length_filter_remove1 [OF s, of "\<lambda>s. San_obj s = ob"]
      by (simp add: balance_def held_def ref1_def upd_timer_def upd_sandev_def)
    ultimately show ?thesis by blast
  qed
  then show ?thesis by (auto simp: moves_def shifts_def upd_timer_def upd_sandev_def)
qed

lemma upd_timer_keeps: "(\<And>t. timer_running (f t) = timer_running t) \<Longrightarrow> keeps w (upd_timer s f w)"
  unfolding upd_timer_def by (rule keeps_upd_sandev) simp

lemma currticks_keeps: "currticks env w = (t, w') \<Longrightarrow> keeps w w'"
  by (intro keeps_frame) (auto simp: currticks_def Let_def)

lemma stop_timer_keeps:
  assumes "stop_timer env s w = Some w'"
  shows "keeps w w'"
proof -
  obtain t w1 where w1: "currticks env w = (t, w1)" by fastforce
  have k: "keeps w w1" using w1 by (rule currticks_keeps)
  show ?thesis
  proof (cases "timer_running (san_timer (sandevs w1 s))")
    case False
    then show ?thesis using assms k by (simp add: stop_timer_def w1)
  next
    case True
    let ?w2 = "upd_timer s (\<lambda>r. r\<lparr>timer_running := False\<rparr>) (w1\<lparr>timers := remove1 s (timers w1)\<rparr>)"
    obtain f where f: "\<And>t. timer_running (f t) = timer_running t" "ref_decrement (Some (San_obj s)) (upd_timer s f ?w2) = Some w'"
    proof (cases "timer_count (san_timer (sandevs w1 s)) = 0")
      case True
      then show thesis
        using that [of "\<lambda>r. r\<lparr>timer_timeout := timer_timeout r - drop_bit 3 (timer_timeout r) +
            drop_bit 1 (t - timer_start (san_timer (sandevs w1 s)))\<rparr>"] assms \<open>timer_running _\<close>
        by (simp add: stop_timer_def w1 Let_def)
    next
      case False
      then show thesis
        using that [of "\<lambda>r. r\<lparr>timer_count := timer_count r - 1\<rparr>"] assms \<open>timer_running _\<close>
        by (simp add: stop_timer_def w1 Let_def)
    qed
    have "moves (ref1 (Some (San_obj s))) w1 ?w2" using True by (intro timer_off_moves) auto
    then have "moves (ref1 (Some (San_obj s))) w1 (upd_timer s f ?w2)" using upd_timer_keeps [OF f(1)] by (rule moves_keeps)
    then have "keeps w1 w'" using moves_decrement [OF f(2)] by (rule moves_cancel)
    then show ?thesis using k by (rule keeps_trans [rotated])
  qed
qed

lemma timer_expired_keeps:
  assumes "\<And>w w'. X s w = Some w' \<Longrightarrow> keeps w w'" "s \<in> set (timers w)" "timer_expired X s w = Some w'"
  shows "keeps w w'"
proof -
  let ?max = "if timer_max (san_timer (sandevs w s)) \<noteq> 0 then timer_max (san_timer (sandevs w s)) else DEFAULT_MAX_TIMEOUT"
  let ?timeout = "push_bit 1 (timer_timeout (san_timer (sandevs w s)))"
  define f :: "retry_timer \<Rightarrow> retry_timer" where "f = (\<lambda>r. r\<lparr>timer_running := False, timer_count := timer_count r + 1,
    timer_timeout := (if ?max < ?timeout then ?max else ?timeout)\<rparr>)"
  obtain w2 where f: "\<And>t. \<not> timer_running (f t)"
      "X s (upd_timer s f (w\<lparr>timers := remove1 s (timers w)\<rparr>)) = Some w2" "ref_decrement (Some (San_obj s)) w2 = Some w'"
    using assms(3) unfolding timer_expired_def Let_def Option.bind_eq_Some_conv f_def by auto
  have "moves (ref1 (Some (San_obj s))) w w2"
    using timer_off_moves [OF disjI1 [OF assms(2)], of f] f(1) assms(1) [OF f(2)] by (blast intro: moves_keeps)
  then show ?thesis using moves_decrement [OF f(3)] by (rule moves_cancel)
qed

lemma retry_poll_keeps:
  assumes "\<And>s w w'. X s w = Some w' \<Longrightarrow> keeps w w'" "retry_poll env X w = Some w'"
  shows "keeps w w'"
proof -
  obtain t w1 where w1: "currticks env w = (t, w1)" by fastforce
  have "keeps w1 w'"
  proof (cases "find (timer_due t w1) (timers w1)")
    case (Some s)
    then have "s \<in> set (timers w1)" by (auto simp: find_Some_iff)
    moreover have "timer_expired X s w1 = Some w'" using assms(2) Some by (simp add: retry_poll_def w1)
    ultimately show ?thesis using timer_expired_keeps assms(1) by blast
  qed (use assms(2) in \<open>simp add: retry_poll_def w1\<close>)
  then show ?thesis using currticks_keeps [OF w1] by (rule keeps_trans [rotated])
qed

subsection \<open>Close methods\<close>

lemma upd_nvme_keeps: "keeps w (upd_nvme d f w)"
  by (rule keeps_frame) (simp_all add: upd_nvme_def)

lemma nvme_close_keeps: "closer_keeps H \<Longrightarrow> nvme_close n H d rc w = Some w' \<Longrightarrow> keeps w w'"
  unfolding nvme_close_def Option.bind_eq_Some_conv
  using keeps_trans [OF intf_shutdown_keeps upd_nvme_keeps] by blast

lemma sandev_command_close_keeps:
  assumes "closer_keeps H" "sandev_command_close n env H s rc w = Some w'"
  shows "keeps w w'"
proof -
  obtain w1 w2 where w: "stop_timer env s w = Some w1" "intf_restart n H (San_command s) rc w1 = Some w2"
      "w' = upd_sandev s (\<lambda>d. d\<lparr>command_rc := rc\<rparr>) w2"
    using assms(2) by (auto simp: sandev_command_close_def Option.bind_eq_Some_conv)
  have "keeps w2 w'" unfolding w(3) by (rule keeps_upd_sandev) simp
  then show ?thesis using stop_timer_keeps [OF w(1)] intf_restart_keeps [OF assms(1) w(2)] keeps_trans by blast
qed

lemma process_del_keeps: "process_del (San_process s p) w = Some w' \<Longrightarrow> keeps w w'"
  using process_del_moves [of "San_process s p" w w'] by (simp split: if_splits)

lemma sanpath_close_keeps:
  assumes "closer_keeps H" "sanpath_close n env H s p rc w = Some w'"
  shows "keeps w w'"
proof -
  let ?w1 = "upd_sandev s (upd_path p (\<lambda>q. q\<lparr>path_rc := rc\<rparr>)) w"
  let ?w2 = "upd_sandev s (\<lambda>d. d\<lparr>opened := remove1 p (opened d), closed := remove1 p (closed d) @ [p]\<rparr>) ?w1"
  obtain w3 where w3: "process_del (San_process s p) ?w2 = Some w3"
      "(if active (sandevs w3 s) = Some p then do {
          w \<leftarrow> intfs_restart n H rc [San_command s, San_block s p] w3;
          let w = upd_sandev s (\<lambda>d. d\<lparr>active := None\<rparr>) w;
          sandev_command_close n env H s rc w
        } else intf_restart n H (San_block s p) rc w3) = Some w'"
    using assms(2) by (auto simp: sanpath_close_def Let_def Option.bind_eq_Some_conv)
  have "keeps w ?w1" by (rule keeps_upd_sandev) (simp add: upd_path_def)
  moreover have "keeps ?w1 ?w2" by (rule keeps_upd_sandev) simp
  moreover have "keeps ?w2 w3" using w3(1) by (rule process_del_keeps)
  moreover have "keeps w3 w'"
  proof (cases "active (sandevs w3 s) = Some p")
    case True
    then obtain w4 where w4: "intfs_restart n H rc [San_command s, San_block s p] w3 = Some w4"
        "sandev_command_close n env H s rc (upd_sandev s (\<lambda>d. d\<lparr>active := None\<rparr>) w4) = Some w'"
      using w3(2) by (auto simp: Option.bind_eq_Some_conv)
    have "keeps w4 (upd_sandev s (\<lambda>d. d\<lparr>active := None\<rparr>) w4)" by (rule keeps_upd_sandev) simp
    then show ?thesis
      using intfs_restart_keeps [OF assms(1) w4(1)] sandev_command_close_keeps [OF assms(1) w4(2)] keeps_trans by blast
  next
    case False
    then show ?thesis using w3(2) intf_restart_keeps [OF assms(1)] by simp
  qed
  ultimately show ?thesis using keeps_trans by blast
qed

lemma close_method_keeps: "closer_keeps (close_method n env)"
proof (induction n)
  case (Suc n)
  have "keeps w w'" if "close_method (Suc n) env ds = Some m" "m i rc w = Some w'" for ds m i rc w w'
    using that nvme_close_keeps [OF Suc] sandev_command_close_keeps [OF Suc] sanpath_close_keeps [OF Suc]
    by (cases ds) (auto simp: sanpath_block_close_def split: intf_id.splits)
  then show ?case by (auto simp: closer_keeps_def)
qed (auto simp: closer_keeps_def)


subsection \<open>Process steps\<close>

lemma nvme_step_moves:
  assumes "nvme_step n (close_method n env) d w = Some w'" "\<not> process_running (Nvme_process d) w"
  shows "moves (\<lambda>ob. - ref1 (Some (Nvme_obj d)) ob) w w'"
proof -
  obtain w1 w2 w3 where w: "intfs_shutdown n (close_method n env) OK [Dummy_intf] w = Some w1"
      "process_del (Nvme_process d) w1 = Some w2" "ref_decrement (Some (Nvme_obj d)) w2 = Some w3" "w' = w3\<lparr>busy := False\<rparr>"
    using assms(1) by (auto simp: nvme_step_def Option.bind_eq_Some_conv)
  have k: "keeps w w1" using intfs_shutdown_keeps [OF close_method_keeps w(1)] .
  have "\<not> process_running (Nvme_process d) w1" using k assms(2) by (auto simp: process_running_def moves_def)
  then have "w2 = w1" using w(2) by (simp add: process_del_def)
  then have "moves (\<lambda>ob. - ref1 (Some (Nvme_obj d)) ob) w w3"
    using keeps_moves [OF k moves_decrement] w(3) by simp
  moreover have "keeps w3 w'" unfolding w(4) by (rule keeps_frame) simp_all
  ultimately show ?thesis by (rule moves_keeps)
qed

lemma xfer_window_keeps:
  assumes "xfer_window i w = Some (win, w')"
  shows "keeps w w'"
proof -
  obtain d where d: "intf_put d (intf_get d w) = Some w'"
    using assms by (auto simp: xfer_window_def intf_get_dest_op_def Let_def Option.bind_eq_Some_conv)
  have "moves (\<lambda>ob. - ref1 (intf_refcnt (intfs w d)) ob) (intf_get d w) w'"
    using moves_put [OF d] by (simp add: intf_get_def)
  with moves_get show ?thesis by (rule moves_cancel)
qed

lemma sanpath_step_keeps:
  assumes "closer_keeps H" "sanpath_step n env H s p w = Some w'"
  shows "keeps w w'"
proof (cases "active (sandevs w s) = Some p")
  case False
  then obtain win w1 where w1: "xfer_window (San_block s p) w = Some (win, w1)"
      "(if win = 0 then Some w1
        else (let w = upd_sandev s (upd_path p (\<lambda>q. q\<lparr>path_rc := OK\<rparr>)) w1
           in if active (sandevs w s) = None then Some (upd_sandev s (\<lambda>d. d\<lparr>active := Some p\<rparr>) w)
              else sanpath_close n env H s p OK w)) = Some w'"
    using assms(2) by (auto simp: sanpath_step_def Option.bind_eq_Some_conv)
  let ?w2 = "upd_sandev s (upd_path p (\<lambda>q. q\<lparr>path_rc := OK\<rparr>)) w1"
  have "keeps w1 ?w2" by (rule keeps_upd_sandev) (simp add: upd_path_def)
  moreover have "keeps ?w2 (upd_sandev s (\<lambda>d. d\<lparr>active := Some p\<rparr>) ?w2)" by (rule keeps_upd_sandev) simp
  moreover have "w' = w1 \<or> w' = upd_sandev s (\<lambda>d. d\<lparr>active := Some p\<rparr>) ?w2 \<or> keeps ?w2 w'"
    using w1(2) sanpath_close_keeps [OF assms(1)] by (auto simp: Let_def split: if_splits)
  ultimately have "keeps w1 w'" using keeps_trans keeps_refl by metis
  then show ?thesis using xfer_window_keeps [OF w1(1)] keeps_trans by blast
qed (use assms(2) in \<open>simp add: sanpath_step_def\<close>)

lemma proc_step_moves:
  assumes "\<And>k w. keeps w (other_step env k w)" "proc_step n env p w = Some w'" "\<not> proc_reschedule p \<Longrightarrow> \<not> process_running p w"
  shows "moves (process_move p) w w'"
proof (cases p)
  case (Nvme_process d)
  then show ?thesis using assms(2,3) nvme_step_moves by simp
next
  case (San_process s q)
  then show ?thesis using assms(2) sanpath_step_keeps [OF close_method_keeps] by simp
next
  case Retry_process
  have "keeps w w'" if "sandev_command_expired n env (close_method n env) s w = Some w'" for s w w'
    using that sandev_command_close_keeps [OF close_method_keeps] by (simp add: sandev_command_expired_def)
  then have "keeps w w'"
    using retry_poll_keeps [of "sandev_command_expired n env (close_method n env)" env w w'] assms(2) Retry_process
    by simp
  then show ?thesis by (simp add: Retry_process)
next
  case (Other_process k)
  then show ?thesis using assms(1,2) by auto
qed

lemma step_keeps:
  assumes "\<And>k w. keeps w (other_step env k w)" "step (proc_step n env) w = Some w'" "distinct (run_queue w)"
  shows "keeps w w'"
proof (cases "run_queue w")
  case (Cons p ps)
  let ?w1 = "ref_increment (proc_refcnt p) w"
  obtain w2 w3 where w: "(if proc_reschedule p then Some (?w1\<lparr>run_queue := ps @ [p]\<rparr>) else process_del p ?w1) = Some w2"
      "proc_step n env p w2 = Some w3" "ref_decrement (proc_refcnt p) w3 = Some w'"
    using assms(2) by (auto simp: step_def Cons Let_def Option.bind_eq_Some_conv)
  have q: "run_queue ?w1 = p # ps" by (simp add: ref_increment_def Cons split: option.split)
  have "moves (\<lambda>ob. - process_move p ob) ?w1 w2 \<and> (\<not> proc_reschedule p \<longrightarrow> \<not> process_running p w2)"
  proof (cases "proc_reschedule p")
    case True
    then have p: "process_move p = (\<lambda>_. 0)" by (cases p) auto
    have l: "links (?w1\<lparr>run_queue := ps @ [p]\<rparr>) = links ?w1" by (auto simp: links_def fun_eq_iff)
    have "keeps ?w1 (?w1\<lparr>run_queue := ps @ [p]\<rparr>)"
      by (auto simp: moves_def shifts_def refs_ok_def balance_def held_def q l)
    then show ?thesis using True w(1) p by auto
  next
    case False
    then have d: "process_del p ?w1 = Some w2" using w(1) by simp
    have "run_queue w2 = ps"
      using d q free_world(3) by (fastforce simp: process_del_def process_running_def ref_decrement_def Let_def split: option.splits if_splits)
    then show ?thesis
      using process_del_moves [OF d] assms(3) q Cons by (auto simp: process_running_def)
  qed
  then have m: "moves (\<lambda>ob. - process_move p ob) ?w1 w2" "moves (process_move p) w2 w3"
    using proc_step_moves [OF assms(1) w(2)] by auto
  have "process_move p ob \<le> 0" for ob by (cases p) auto
  then have "keeps ?w1 w3" using moves_trans [OF m] by simp
  then show ?thesis using moves_keeps [OF moves_increment] moves_decrement [OF w(3)] moves_cancel by blast
qed (use assms(2) in \<open>simp add: step_def\<close>)




subsection \<open>Commands\<close>

lemma nvme_wait_more: "nvme_wait n env q ctrl w = Some (cqe, ctrl', w') \<Longrightarrow> nvme_state.more w' = nvme_state.more w"
  by (induction n arbitrary: w)
    (auto simp: run_device_def nvme_consume_cqe_def reg_write32_def Let_def split: prod.splits if_splits)

lemma io_command_more: "io_command sq ns lba prp1 prp2 count write w = Some w' \<Longrightarrow> nvme_state.more w' = nvme_state.more w"
  by (auto simp: io_command_def nvme_get_next_sqe_def mem_upd_def Let_def split: if_splits)

lemma io_retry_more:
  "io_retry n env ns lba prp1 prp2 count write ctrl w = Some (res, ctrl', w') \<Longrightarrow> nvme_state.more w' = nvme_state.more w"
proof (induction n arbitrary: ctrl w)
  case (Suc n)
  obtain w1 where w1: "io_command (io_sq ctrl) ns lba prp1 prp2 count write w = Some w1"
    using Suc.prems by (auto simp: Option.bind_eq_Some_conv)
  obtain ctrl1 v where v: "nvme_commit_sqe env IO ctrl w1 = (ctrl1, v)" by fastforce
  obtain cqe ctrl2 w2 where w2: "nvme_wait (Suc n) env IO ctrl1 v = Some (cqe, ctrl2, w2)"
      "(if nvme_is_cqe_success cqe then Some (Inr count, ctrl2, w2)
        else io_retry n env ns lba prp1 prp2 count write ctrl2 w2) = Some (res, ctrl', w')"
    using Suc.prems by (auto simp del: nvme_wait.simps simp: Option.bind_eq_Some_conv w1 v)
  have "nvme_state.more w' = nvme_state.more w2" using w2(2) Suc.IH by (auto split: if_splits)
  then show ?case
    using io_command_more [OF w1] nvme_wait_more [OF w2(1)] v by (auto simp: nvme_commit_sqe_def reg_write32_def Let_def)
qed simp

lemma nvme_io_xfer_more:
  "nvme_io_xfer n env ns lba prp1 prp2 count write ctrl w = Some (res, ctrl', w') \<Longrightarrow> nvme_state.more w' = nvme_state.more w"
  by (auto simp: nvme_io_xfer_def dest: io_retry_more split: if_splits)

lemma keeps_more:
  assumes "nvme_state.more w' = nvme_state.more w"
  shows "keeps w w'"
proof (rule keeps_frame)
  show "refcnts w' = refcnts w" "freed w' = freed w" "run_queue w' = run_queue w" "timers w' = timers w"
    using assms by (cases w; cases w'; simp)+
qed (use assms in \<open>cases w; cases w'; simp\<close>)+

lemma nvme_ref_get_moves: "moves (ref1 (Some (Nvme_obj d))) w (nvme_ref_get d w)"
  unfolding nvme_ref_get_def by (rule moves_increment)

text \<open>
  Starting a command: the reference it takes is the second one that its process holds.
\<close>

lemma nvme_start_shifts:
  assumes "nvme_start d block w = Some w'" "\<not> process_running (Nvme_process d) w"
  shows "refs_ok w \<Longrightarrow> refs_ok w' \<and> balance w' = balance w"
proof -
  obtain w1 where w1: "intf_plug_plug Dummy_intf block (process_add (Nvme_process d) w) = Some w1"
      "w' = (nvme_ref_get d w1)\<lparr>busy := True\<rparr>"
    using assms(1) by (auto simp: nvme_start_def Option.bind_eq_Some_conv)
  have "keeps (nvme_ref_get d w1) w'" unfolding w1(2) by (rule keeps_frame) simp_all
  then show "refs_ok w \<Longrightarrow> refs_ok w' \<and> balance w' = balance w"
    using process_add_moves [of "Nvme_process d" w] intf_plug_plug_keeps [OF w1(1)] nvme_ref_get_moves [of d w1] assms(2)
    by (auto simp: moves_def shifts_def fun_eq_iff)
qed


lemma nvme_read_started:
  assumes "nvme_read n env d block lba count buffer len w = Some (rc, w')" "\<not> busy w"
  shows "rc = Err EBUSY \<and> w' = nvme_ref_get d w \<or> rc = OK \<and> (\<exists>w1. keeps w w1 \<and> run_queue w1 = run_queue w \<and> nvme_start d block w1 = Some w')"
proof -
  obtain ctrl where c: "nvme_ctrl_ptr (nvme_devs w d) = Some ctrl" using assms by (auto simp: nvme_read_def Option.bind_eq_Some_conv)
  show ?thesis
  proof (cases "rc = OK")
    case False
    then show ?thesis
      using assms c by (auto simp: nvme_read_def Option.bind_eq_Some_conv case_prod_beta Let_def split: option.splits if_splits)
  next
    case True
    then obtain ns res ctrl' w1 where w1: "nvme_io_xfer n (nvme_if env) ns lba (virt_to_phys w (nvme_dma_buffer w)) 0 1 False ctrl w
          = Some (res, ctrl', w1)"
        "nvme_start d block (mem_upd (\<lambda>m. mem_copy m buffer (nvme_dma_buffer w1) 512)
           (upd_nvme d (\<lambda>v. v\<lparr>nvme_ctrl_ptr := Some ctrl'\<rparr>) w1)) = Some w'"
      using assms c
      by (auto simp: nvme_read_def Option.bind_eq_Some_conv case_prod_beta Let_def upd_nvme_def split: option.splits if_splits)
    let ?w2 = "mem_upd (\<lambda>m. mem_copy m buffer (nvme_dma_buffer w1) 512) (upd_nvme d (\<lambda>v. v\<lparr>nvme_ctrl_ptr := Some ctrl'\<rparr>) w1)"
    have m: "nvme_state.more w1 = nvme_state.more w" using nvme_io_xfer_more [OF w1(1)] .
    then have "run_queue w1 = run_queue w" by (cases w; cases w1) simp
    then have "run_queue ?w2 = run_queue w" by (simp add: mem_upd_def upd_nvme_def)
    moreover have "keeps w1 ?w2" by (rule keeps_frame) (simp_all add: mem_upd_def upd_nvme_def)
    ultimately show ?thesis using True w1(2) keeps_more [OF m] keeps_trans by blast
  qed
qed

subsection \<open>The concrete state\<close>

lemma ex_links:
  assumes "intfs w = ex_intfs"
  shows "links w ob = (case ob of Nvme_obj d \<Rightarrow> if d = 0 then {San_block 0 0} else {} | San_obj s \<Rightarrow> if s = 0 then {Nvme_block 0} else {})"
proof -
  have "i \<in> links w ob \<longleftrightarrow> i = San_block 0 0 \<and> ob = Nvme_obj 0 \<or> i = Nvme_block 0 \<and> ob = San_obj 0" for i
    by (cases i) (auto simp: links_def assms ex_intfs_def)
  then show ?thesis by (auto split: obj.splits)
qed

lemma ex_refs_ok: "refs_ok (ex_world\<lparr>run_queue := [p], refcnts := r\<rparr>)" "refs_ok ex_world"
proof -
  have "finite (links ex_world ob)" "links (ex_world\<lparr>run_queue := [p], refcnts := r\<rparr>) = links ex_world" for ob
    using ex_links [of ex_world ob] by (auto simp: ex_world_def links_def fun_eq_iff split: obj.splits)
  then show "refs_ok (ex_world\<lparr>run_queue := [p], refcnts := r\<rparr>)" "refs_ok ex_world"
    by (simp_all add: refs_ok_def) (simp_all add: ex_world_def ex_sandev_def ex_intfs_def)
qed

lemma ex_world_fields:
  "intfs ex_world = ex_intfs" "refcnts ex_world = (\<lambda>_. 1)" "sandevs ex_world = (\<lambda>_. ex_sandev)" "timers ex_world = []"
  "run_queue ex_world = [Retry_process]" "freed ex_world = []"
  by (simp_all add: ex_world_def)

lemmas intf_simps = intfs_shutdown_def intf_close_to_def intf_get_dest_op_def intf_get_def intf_put_def ref_increment_def
  ref_decrement_def intf_nullify_def intf_reinit_def set_dest_def upd_intf_def process_del_def process_running_def




section \<open>Properties\<close>

text \<open>
  C8. Running a process keeps the balance of every object, that is its count less the references that interfaces,
  running timers and queued processes hold, and as long as no balance is negative it frees no object.
\<close>

theorem step_keeps_references:
  assumes "refs_ok w" "\<And>k w. keeps w (other_step env k w)" "step (proc_step n env) w = Some w'"
  shows "refs_ok w' \<and> balance w' = balance w \<and> ((\<forall>ob. 0 \<le> balance w ob) \<longrightarrow> freed w' = freed w)"
  using step_keeps [OF assms(2,3)] assms(1) by (auto simp: moves_def shifts_def refs_ok_def fun_eq_iff)

theorem step_keeps_references_witness:
  "\<exists>w'. step (proc_step 5 ex_rom) (ex_world\<lparr>run_queue := [Nvme_process 0], refcnts := \<lambda>_. 3\<rparr>) = Some w' \<and> refs_ok w' \<and>
     balance w' (Nvme_obj 0) = 0 \<and> freed w' = []"
proof -
  let ?w = "ex_world\<lparr>run_queue := [Nvme_process 0], refcnts := \<lambda>_. 3\<rparr>"
  have "step (proc_step (Suc (Suc (Suc n))) ex_rom) ?w \<noteq> None" for n
    by (simp add: step_def nvme_step_def intf_simps Let_def ex_world_fields ex_intfs_def)
  then have "step (proc_step 5 ex_rom) ?w \<noteq> None" by (simp add: numeral_eq_Suc)
  then obtain w' where w': "step (proc_step 5 ex_rom) ?w = Some w'" by blast
  have b: "balance ?w ob = (if ob = Nvme_obj 0 then 0 else if ob = San_obj 0 then 2 else 3)" for ob
    using ex_links [of ?w ob] by (auto simp: balance_def held_def proc_refs_def ex_world_def split: obj.splits)
  have "refs_ok w' \<and> balance w' = balance ?w \<and> ((\<forall>ob. 0 \<le> balance ?w ob) \<longrightarrow> freed w' = freed ?w)"
    by (rule step_keeps_references [OF ex_refs_ok(1) _ w']) (simp add: ex_rom_def)
  then show ?thesis using w' b by (auto simp: ex_world_def)
qed



text \<open>
  C32. A read that the NVMe driver accepts keeps the balances: the process it starts holds what it took. One that it
  refuses for any reason but a command already running leaks a reference to the device.
\<close>

theorem nvme_read_references:
  assumes "refs_ok w" "\<not> process_running (Nvme_process d) w" "nvme_read n env d block lba count buffer len w = Some (rc, w')"
  shows "refs_ok w' \<and>
    (\<forall>ob. balance w' ob = balance w ob + (if rc = OK \<or> busy w \<or> ob \<noteq> Nvme_obj d then 0 else 1))"
proof (cases "busy w")
  case True
  then show ?thesis using assms by (simp add: nvme_read_def)
next
  case False
  from nvme_read_started [OF assms(3) False] show ?thesis
  proof (elim disjE conjE exE)
    assume "rc = Err EBUSY" "w' = nvme_ref_get d w"
    then show ?thesis using nvme_ref_get_moves [of d w] assms(1) False by (auto simp: moves_def shifts_def ref1_def)
  next
    fix w1 assume "rc = OK" "keeps w w1" "run_queue w1 = run_queue w" "nvme_start d block w1 = Some w'"
    then show ?thesis
      using nvme_start_shifts [of d block w1 w'] assms(1,2) by (auto simp: moves_def shifts_def process_running_def)
  qed
qed

theorem nvme_read_references_witness:
  "\<exists>w'. nvme_read 9 ex_rom 0 (San_command 0) 5 2 0x7c00 1024 ex_world = Some (Err EBUSY, w') \<and> refs_ok w' \<and> balance w' (Nvme_obj 0) = 1"
proof -
  obtain w' where w': "nvme_read 9 ex_rom 0 (San_command 0) 5 2 0x7c00 1024 ex_world = Some (Err EBUSY, w')"
    by (simp add: nvme_read_def ex_world_def)
  have "balance ex_world (Nvme_obj 0) = 0"
    using ex_links [of ex_world "Nvme_obj 0"] by (simp add: balance_def held_def proc_refs_def ex_world_def)
  then show ?thesis
    using nvme_read_references [OF ex_refs_ok(2) _ w'] w' by (auto simp: ex_world_def process_running_def)
qed

end
