(* ===== verification/Spec2Isabelle.thy ===== *)
theory Spec2Isabelle
  imports Disk_Write San_Retry Nvme_Init Uri_Roundtrip Balance
begin

text \<open>
  A verification development for the NVMe INT 13h option ROM.
\<close>

end
